(* ===== verification/Prelude.thy ===== *)
theory Prelude
  imports Main "HOL-Library.Word" "HOL-Library.Sublist"
begin

text \<open>
  Shared vocabulary of the development: how Go values are represented, the automation
  collections of the component theories, and the generic lemmas on lists they rest on.

  A Go \<^verbatim>\<open>string\<close> and a Go \<^verbatim>\<open>[]byte\<close> are both sequences of bytes, and Isabelle's
  \<^typ>\<open>char\<close> is exactly a byte, so both are \<^typ>\<open>string\<close> here (type \<open>bytes\<close>). A nil slice
  and an empty slice are the same value: the sources test slices with \<^verbatim>\<open>len\<close> only. A Go
  \<^verbatim>\<open>int\<close>, \<^verbatim>\<open>int64\<close> or \<^verbatim>\<open>time.Duration\<close> is an \<^typ>\<open>int\<close>; lengths and loop indexes, which are
  never negative, are \<^typ>\<open>nat\<close>; fixed width protocol integers are words.
  Because slices are values here, \<^verbatim>\<open>bytes.Clone\<close> and \<^verbatim>\<open>append([]T(nil), x...)\<close> are the identity.
\<close>

type_synonym bytes = string
type_synonym int32w = "32 word"
type_synonym uint32w = "32 word"
type_synonym uint64w = "64 word"

named_theorems go_simps "evaluation rules for the Go library functions"
named_theorems model_defs "definitions of straight-line operations, unfolded by the component proofs"

section \<open>Bytes and their numbers\<close>

abbreviation ord :: "char \<Rightarrow> nat" where
  "ord c \<equiv> of_char c"

abbreviation chr :: "nat \<Rightarrow> char" where
  "chr n \<equiv> char_of n"

lemma ord_less_256 [simp]: "ord c < 256"
  by (cases c) simp

lemma ord_le_255 [simp]: "ord c \<le> 255"
  using ord_less_256 [of c] by linarith

lemma ord_chr [simp]: "n < 256 \<Longrightarrow> ord (chr n) = n"
  by simp

lemma chr_eq_iff_ord: "n < 256 \<Longrightarrow> chr n = c \<longleftrightarrow> n = ord c"
  by auto

lemma ord_eq_iff: "ord c = ord d \<longleftrightarrow> c = d"
  by simp

section \<open>Lists\<close>

lemma prefix_append_drop: "prefix p s \<Longrightarrow> p @ drop (length p) s = s"
  by (auto simp: prefix_def)

lemma list_all_conv_set: "list_all P xs \<longleftrightarrow> (\<forall>x\<in>set xs. P x)"
  by (induction xs) auto

lemma map_Some_the: "(\<And>x. x \<in> set xs \<Longrightarrow> x \<noteq> None) \<Longrightarrow> map Some (map the xs) = xs"
  by (induction xs) auto

lemma map_upt_shift: "map (\<lambda>i. k + i) [a..<b] = [k + a..<k + b]"
  by (induction b) auto

lemma subseq_set: "subseq xs ys \<Longrightarrow> set xs \<subseteq> set ys"
  by (induction rule: list_emb.induct) auto

lemma subseq_keeps_distinct: "subseq xs ys \<Longrightarrow> distinct ys \<Longrightarrow> distinct xs"
  by (induction rule: list_emb.induct) (auto dest: subseq_set)

text \<open>The slices \<^verbatim>\<open>ops[start:start+m]\<close> a batch loop takes, in order.\<close>

function chunks :: "nat \<Rightarrow> 'a list \<Rightarrow> 'a list list" where
  "chunks m xs = (if m = 0 \<or> xs = [] then [] else take m xs # chunks m (drop m xs))"
  by pat_completeness auto
termination
  by (relation "measure (\<lambda>(m, xs). length xs)") auto

declare chunks.simps [simp del]

lemma chunks_Nil [simp]: "chunks m [] = []"
  by (simp add: chunks.simps)

lemma chunks_step: "0 < m \<Longrightarrow> xs \<noteq> [] \<Longrightarrow> chunks m xs = take m xs # chunks m (drop m xs)"
  by (simp add: chunks.simps [of m xs])

lemma concat_chunks: "0 < m \<Longrightarrow> concat (chunks m xs) = xs"
proof (induction m xs rule: chunks.induct)
  case (1 m xs)
  then show ?case
    by (cases "xs = []") (auto simp: chunks_step)
qed

lemma chunks_sizes: "ys \<in> set (chunks m xs) \<Longrightarrow> 0 < length ys \<and> length ys \<le> m"
proof (induction m xs rule: chunks.induct)
  case (1 m xs)
  then show ?case
    by (cases "m = 0 \<or> xs = []") (auto simp: chunks.simps [of m xs])
qed

lemma length_chunks: "0 < m \<Longrightarrow> length (chunks m xs) = (length xs + m - 1) div m"
proof (induction m xs rule: chunks.induct)
  case (1 m xs)
  show ?case
  proof (cases "xs = []")
    case True
    then show ?thesis using "1.prems" by simp
  next
    case False
    have IH: "length (chunks m (drop m xs)) = (length xs - m + m - 1) div m"
      using "1.IH" "1.prems" False by simp
    have "(length xs + m - 1) div m = Suc ((length xs + m - 1 - m) div m)"
      using False "1.prems" by (intro le_div_geq) (cases xs; simp)+
    moreover have "length xs - m + m - 1 = length xs + m - 1 - m \<or> length xs < m"
      by linarith
    ultimately show ?thesis
      using IH False "1.prems" by (auto simp: chunks_step)
  qed
qed

text \<open>Every slice before the last one is full.\<close>

lemma chunks_nth: "k < length (chunks m xs) \<Longrightarrow> chunks m xs ! k = take m (drop (k * m) xs)"
proof (induction m xs arbitrary: k rule: chunks.induct)
  case (1 m xs)
  then have "0 < m" "xs \<noteq> []" by (auto simp: chunks.simps [of m xs] split: if_splits)
  with 1 show ?case by (cases k) (simp_all add: chunks_step add.commute)
qed

lemma chunks_prefix:
  assumes "k < length (chunks m xs)"
  shows "length (concat (take k (chunks m xs))) = k * m \<and> k * m < length xs"
  using assms
proof (induction m xs arbitrary: k rule: chunks.induct)
  case (1 m xs)
  have ne: "0 < m" "xs \<noteq> []"
    using "1.prems" by (auto simp: chunks.simps [of m xs] split: if_splits)
  show ?case
  proof (cases k)
    case 0
    then show ?thesis using ne by simp
  next
    case (Suc j)
    have j: "j < length (chunks m (drop m xs))" using "1.prems" ne Suc by (simp add: chunks_step)
    then have "length (concat (take j (chunks m (drop m xs)))) = j * m" "j * m < length (drop m xs)"
      using "1.IH" [OF _ j] ne by auto
    then show ?thesis using ne Suc by (simp add: chunks_step)
  qed
qed

end
