(* ===== verification/Go_Strings.thy ===== *)
theory Go_Strings
  imports Prelude
begin

text \<open>
  The functions of the Go packages \<^verbatim>\<open>strings\<close>, \<^verbatim>\<open>bytes\<close> and \<^verbatim>\<open>unicode/utf8\<close> that the client
  calls, as executable definitions over \<open>bytes\<close>. Separators are one byte long, as in every
  call of the sources (\<^verbatim>\<open>"/"\<close> and \<^verbatim>\<open>":"\<close>).
\<close>

section \<open>Cut, prefixes, Split and Join\<close>

fun Cut :: "char \<Rightarrow> bytes \<Rightarrow> bytes \<times> bytes \<times> bool" where
  "Cut c [] = ([], [], False)"
| "Cut c (x # xs) =
     (if x = c then ([], xs, True)
      else case Cut c xs of (before, after, found) \<Rightarrow> (x # before, after, found))"

definition CutPrefix :: "bytes \<Rightarrow> bytes \<Rightarrow> bytes \<times> bool" where
  "CutPrefix s p = (if prefix p s then (drop (length p) s, True) else (s, False))"

definition TrimPrefix :: "bytes \<Rightarrow> bytes \<Rightarrow> bytes" where
  "TrimPrefix s p = fst (CutPrefix s p)"

definition HasSuffix :: "bytes \<Rightarrow> bytes \<Rightarrow> bool" where
  "HasSuffix s p = suffix p s"

fun Split :: "char \<Rightarrow> bytes \<Rightarrow> bytes list" where
  "Split c [] = [[]]"
| "Split c (x # xs) =
     (if x = c then [] # Split c xs
      else case Split c xs of [] \<Rightarrow> [[x]] | p # ps \<Rightarrow> (x # p) # ps)"

fun Join :: "char \<Rightarrow> bytes list \<Rightarrow> bytes" where
  "Join c [] = []"
| "Join c [p] = p"
| "Join c (p # q # ps) = p @ c # Join c (q # ps)"

lemma Cut_absent [go_simps]: "c \<notin> set s \<Longrightarrow> Cut c s = (s, [], False)"
  by (induction s) auto

lemma Cut_present [go_simps]: "c \<notin> set a \<Longrightarrow> Cut c (a @ c # b) = (a, b, True)"
  by (induction a) auto

lemma Cut_TrueD: "Cut c s = (a, b, True) \<Longrightarrow> s = a @ c # b \<and> c \<notin> set a"
  by (induction s arbitrary: a) (auto split: if_splits prod.splits)

lemma Cut_FalseD: "Cut c s = (a, b, False) \<Longrightarrow> a = s \<and> b = [] \<and> c \<notin> set s"
  by (induction s arbitrary: a) (auto split: if_splits prod.splits)

lemma CutPrefix_append [go_simps]: "CutPrefix (p @ s) p = (s, True)"
  by (simp add: CutPrefix_def)

lemma CutPrefix_TrueD: "CutPrefix s p = (r, True) \<Longrightarrow> s = p @ r"
  by (auto simp: CutPrefix_def prefix_def split: if_splits)

lemma TrimPrefix_append [go_simps]: "TrimPrefix (p @ s) p = s"
  by (simp add: TrimPrefix_def CutPrefix_append)

lemma Split_not_Nil [simp]: "Split c s \<noteq> []"
  by (induction s) (auto split: list.splits)

lemma Split_absent: "c \<notin> set s \<Longrightarrow> Split c s = [s]"
  by (induction s) auto

lemma Split_present: "c \<notin> set a \<Longrightarrow> Split c (a @ c # b) = a # Split c b"
  by (induction a) (auto split: list.splits)

lemma Join_Nil_Cons: "ps \<noteq> [] \<Longrightarrow> Join c ([] # ps) = c # Join c ps"
  by (cases ps) auto

lemma Join_grow: "Join c ((x # p) # ps) = x # Join c (p # ps)"
  by (cases ps) auto

lemma Join_Split: "Join c (Split c s) = s"
proof (induction s)
  case (Cons x xs)
  then show ?case
    by (cases "Split c xs") (auto simp: Join_Nil_Cons Join_grow)
qed simp

lemma Split_pieces: "p \<in> set (Split c s) \<Longrightarrow> c \<notin> set p"
  by (induction s arbitrary: p) (auto split: if_splits list.splits)

lemma Split_Join:
  assumes "ps \<noteq> []" and "\<forall>p\<in>set ps. c \<notin> set p"
  shows "Split c (Join c ps) = ps"
  using assms by (induction c ps rule: Join.induct) (auto simp: Split_absent Split_present)

lemma Join_snoc: "ps \<noteq> [] \<Longrightarrow> Join c (ps @ [p]) = Join c ps @ c # p"
  by (induction c ps rule: Join.induct) auto

lemma Join_eq_Nil: "Join c ps = [] \<longleftrightarrow> ps = [] \<or> ps = [[]]"
  by (induction c ps rule: Join.induct) auto

section \<open>TrimSpace and EqualFold\<close>

text \<open>
  The UTF-8 encodings of the code points with \<^verbatim>\<open>unicode.IsSpace\<close>. Both \<^verbatim>\<open>strings.TrimSpace\<close>
  and \<^verbatim>\<open>bytes.TrimSpace\<close> cut them greedily at both ends.
\<close>

definition space_runes :: "bytes list" where
  "space_runes =
     map (\<lambda>n. [chr n]) [9, 10, 11, 12, 13, 32] @
     [[chr 0xC2, chr 0x85], [chr 0xC2, chr 0xA0], [chr 0xE1, chr 0x9A, chr 0x80]] @
     map (\<lambda>n. [chr 0xE2, chr 0x80, chr n]) ([0x80..<0x8B] @ [0xA8, 0xA9, 0xAF]) @
     [[chr 0xE2, chr 0x81, chr 0x9F], [chr 0xE3, chr 0x80, chr 0x80]]"

function trim_runes :: "bytes list \<Rightarrow> bytes \<Rightarrow> bytes" where
  "trim_runes rs s =
     (case find (\<lambda>r. r \<noteq> [] \<and> prefix r s) rs of
        None \<Rightarrow> s
      | Some r \<Rightarrow> trim_runes rs (drop (length r) s))"
  by pat_completeness auto
termination
proof (relation "measure (\<lambda>(rs, s). length s)")
  fix rs s r
  assume "find (\<lambda>r. r \<noteq> [] \<and> prefix r s) rs = Some r"
  then have "r \<noteq> []" and "prefix r s" by (auto simp: find_Some_iff)
  then show "((rs, drop (length r) s), (rs, s)) \<in> measure (\<lambda>(rs, s). length s)"
    by (cases s) (auto simp: prefix_def)
qed simp

declare trim_runes.simps [simp del]

definition TrimSpace :: "bytes \<Rightarrow> bytes" where
  "TrimSpace s =
     rev (trim_runes (map rev space_runes) (rev (trim_runes space_runes s)))"

lemma trim_runes_suffix: "suffix (trim_runes rs s) s"
proof (induction rs s rule: trim_runes.induct)
  case (1 rs s)
  show ?case
  proof (cases "find (\<lambda>r. r \<noteq> [] \<and> prefix r s) rs")
    case None
    then show ?thesis by (simp add: trim_runes.simps [of rs s])
  next
    case (Some r)
    with "1.IH" have "suffix (trim_runes rs (drop (length r) s)) s"
      by (metis suffix_drop suffix_order.trans)
    with Some show ?thesis by (simp add: trim_runes.simps [of rs s])
  qed
qed

text \<open>Trimming only removes bytes at the ends.\<close>

lemma TrimSpace_sublist: "sublist (TrimSpace s) s"
proof -
  let ?l = "trim_runes space_runes s"
  have "prefix (TrimSpace s) ?l"
    using trim_runes_suffix [of "map rev space_runes" "rev ?l"]
    by (simp add: TrimSpace_def suffix_to_prefix)
  then show ?thesis
    using trim_runes_suffix [of space_runes s]
    by (meson prefix_imp_sublist suffix_imp_sublist sublist_order.order_trans)
qed

lemma TrimSpace_length: "length (TrimSpace s) \<le> length s"
  using TrimSpace_sublist by (rule sublist_length_le)

lemma trim_runes_pieces: "\<exists>ps. set ps \<subseteq> set rs \<and> s = concat ps @ trim_runes rs s"
proof (induction rs s rule: trim_runes.induct)
  case (1 rs s)
  show ?case
  proof (cases "find (\<lambda>r. r \<noteq> [] \<and> prefix r s) rs")
    case None
    then show ?thesis by (intro exI [of _ "[]"]) (simp add: trim_runes.simps [of rs s])
  next
    case (Some r)
    then have r: "r \<in> set rs" "prefix r s" by (auto simp: find_Some_iff)
    obtain ps where "set ps \<subseteq> set rs" "drop (length r) s = concat ps @ trim_runes rs (drop (length r) s)"
      using "1.IH" [OF Some] by blast
    then show ?thesis using r Some
      by (intro exI [of _ "r # ps"]) (auto simp: trim_runes.simps [of rs s] prefix_def)
  qed
qed

text \<open>What \<^verbatim>\<open>TrimSpace\<close> cuts off are whole encodings of white space.\<close>

lemma TrimSpace_pieces:
  "\<exists>ps qs. set ps \<subseteq> set space_runes \<and> set qs \<subseteq> set space_runes \<and> s = concat ps @ TrimSpace s @ concat qs"
proof -
  let ?l = "trim_runes space_runes s"
  obtain ps where ps: "set ps \<subseteq> set space_runes" "s = concat ps @ ?l" using trim_runes_pieces by blast
  obtain qs where qs: "set qs \<subseteq> set (map rev space_runes)" "rev ?l = concat qs @ trim_runes (map rev space_runes) (rev ?l)"
    using trim_runes_pieces by blast
  have "?l = TrimSpace s @ concat (map rev (rev qs))"
    using arg_cong [OF qs(2), of rev] by (simp add: TrimSpace_def rev_concat rev_map)
  moreover have "set (map rev (rev qs)) \<subseteq> set space_runes" using qs(1) by auto
  ultimately show ?thesis using ps by metis
qed

text \<open>
  \<^verbatim>\<open>strings.EqualFold\<close>, used against the ASCII name \<^verbatim>\<open>"Content-Type"\<close>, none of whose letters
  has a simple case folding outside ASCII.
\<close>

definition ascii_lower :: "char \<Rightarrow> char" where
  "ascii_lower c = (if 65 \<le> ord c \<and> ord c \<le> 90 then chr (ord c + 32) else c)"

definition EqualFold :: "bytes \<Rightarrow> bytes \<Rightarrow> bool" where
  "EqualFold s t = (map ascii_lower s = map ascii_lower t)"

section \<open>UTF-8 validity\<close>

definition in_range :: "nat \<Rightarrow> nat \<Rightarrow> char \<Rightarrow> bool" where
  "in_range lo hi c = (lo \<le> ord c \<and> ord c \<le> hi)"

text \<open>The accepted ranges of a second byte, by the first byte of a multi-byte sequence.\<close>

definition second_ok :: "char \<Rightarrow> char \<Rightarrow> bool" where
  "second_ok a b =
     (if ord a = 0xE0 then in_range 0xA0 0xBF b
      else if ord a = 0xED then in_range 0x80 0x9F b
      else if ord a = 0xF0 then in_range 0x90 0xBF b
      else if ord a = 0xF4 then in_range 0x80 0x8F b
      else in_range 0x80 0xBF b)"

fun utf8_Valid :: "bytes \<Rightarrow> bool" where
  "utf8_Valid [] = True"
| "utf8_Valid (a # s) =
     (if ord a < 0x80 then utf8_Valid s
      else if in_range 0xC2 0xDF a then
        (case s of b # s' \<Rightarrow> second_ok a b \<and> utf8_Valid s' | _ \<Rightarrow> False)
      else if in_range 0xE0 0xEF a then
        (case s of b # c # s' \<Rightarrow> second_ok a b \<and> in_range 0x80 0xBF c \<and> utf8_Valid s' | _ \<Rightarrow> False)
      else if in_range 0xF0 0xF4 a then
        (case s of b # c # d # s' \<Rightarrow>
           second_ok a b \<and> in_range 0x80 0xBF c \<and> in_range 0x80 0xBF d \<and> utf8_Valid s'
         | _ \<Rightarrow> False)
      else False)"

lemma utf8_Valid_ascii: "\<forall>c\<in>set s. ord c < 0x80 \<Longrightarrow> utf8_Valid s"
  by (induction s) auto

text \<open>Valid strings concatenate: an ASCII tag in front of a valid string stays valid.\<close>

lemma utf8_Valid_append: "utf8_Valid s \<Longrightarrow> utf8_Valid (s @ t) = utf8_Valid t"
proof (induction s rule: utf8_Valid.induct)
  case (2 a s)
  then show ?case
    by (auto split: if_splits list.splits)
qed simp

end
