(* ===== verification/Go_Encoding.thy ===== *)
theory Go_Encoding
  imports Go_Strings
begin

text \<open>
  The textual encodings of the Go standard library the record addresses are built from:
  \<^verbatim>\<open>net/url\<close> path segment escaping, unpadded base64url with strict decoding, decimal
  \<^verbatim>\<open>strconv\<close> and big-endian 64-bit words. Each comes with its round trip, and the two text
  codecs are instances of the interface \<open>text_codec\<close> that the address and key theories use.
\<close>

section \<open>The interface of a separator-free text codec\<close>

locale text_codec =
  fixes enc :: "bytes \<Rightarrow> bytes" and dec :: "bytes \<Rightarrow> bytes option" and sep :: char
  assumes dec_enc: "dec (enc s) = Some s"
    and enc_sep: "sep \<notin> set (enc s)"
begin

lemma enc_inject: "enc s = enc t \<longleftrightarrow> s = t"
  by (metis dec_enc option.inject)

lemma Split_Join_enc: "ss \<noteq> [] \<Longrightarrow> Split sep (Join sep (map enc ss)) = map enc ss"
  by (rule Split_Join) (auto simp: enc_sep)

lemma Join_enc_inject:
  "ss \<noteq> [] \<Longrightarrow> ts \<noteq> [] \<Longrightarrow> Join sep (map enc ss) = Join sep (map enc ts) \<Longrightarrow> ss = ts"
  by (metis Split_Join_enc inj_on_def map_inj_on enc_inject inj_map_eq_map)

lemma Cut_enc: "Cut sep (enc s @ sep # t) = (enc s, t, True)"
  by (rule Cut_present) (rule enc_sep)

end

section \<open>Percent escaping of a path segment\<close>

definition alnum :: "char \<Rightarrow> bool" where
  "alnum c = (in_range 97 122 c \<or> in_range 65 90 c \<or> in_range 48 57 c)"

text \<open>\<^verbatim>\<open>shouldEscape\<close> in the mode \<^verbatim>\<open>encodePathSegment\<close>.\<close>

definition shouldEscape :: "char \<Rightarrow> bool" where
  "shouldEscape c = (\<not> alnum c \<and> c \<notin> set ''-_.~$&+:=@'')"

definition upperhex :: "nat \<Rightarrow> char" where
  "upperhex n = (if n < 10 then chr (48 + n) else chr (55 + n))"

definition unhex :: "char \<Rightarrow> nat option" where
  "unhex c =
     (if in_range 48 57 c then Some (ord c - 48)
      else if in_range 97 102 c then Some (ord c - 87)
      else if in_range 65 70 c then Some (ord c - 55)
      else None)"

fun PathEscape :: "bytes \<Rightarrow> bytes" where
  "PathEscape [] = []"
| "PathEscape (c # s) =
     (if shouldEscape c
      then CHR ''%'' # upperhex (ord c div 16) # upperhex (ord c mod 16) # PathEscape s
      else c # PathEscape s)"

fun PathUnescape :: "bytes \<Rightarrow> bytes option" where
  "PathUnescape [] = Some []"
| "PathUnescape (c # s) =
     (if c = CHR ''%'' then
        (case s of
           a # b # s' \<Rightarrow>
             (case (unhex a, unhex b) of
                (Some h, Some l) \<Rightarrow> map_option ((#) (chr (16 * h + l))) (PathUnescape s')
              | _ \<Rightarrow> None)
         | _ \<Rightarrow> None)
      else map_option ((#) c) (PathUnescape s))"

lemma unhex_upperhex: "n < 16 \<Longrightarrow> unhex (upperhex n) = Some n"
  by (auto simp: unhex_def upperhex_def in_range_def)

lemma percent_escaped: "shouldEscape (CHR ''%'')"
  by (simp add: shouldEscape_def alnum_def in_range_def)

lemma PathUnescape_PathEscape: "PathUnescape (PathEscape s) = Some s"
proof (induction s)
  case (Cons c s)
  have "ord c div 16 < 16" using ord_less_256 [of c] by linarith
  moreover have "chr (16 * (ord c div 16) + ord c mod 16) = c"
    by simp
  ultimately show ?case
    using Cons percent_escaped by (auto simp: unhex_upperhex)
qed simp

lemma ord_upperhex: "n < 16 \<Longrightarrow> ord (upperhex n) = (if n < 10 then 48 + n else 55 + n)"
  by (simp add: upperhex_def)

lemma upperhex_alnum: "n < 16 \<Longrightarrow> alnum (upperhex n)"
  by (auto simp: alnum_def in_range_def ord_upperhex)

text \<open>An escaped segment holds only bytes a segment may show, so never a slash.\<close>

lemma PathEscape_bytes: "c \<in> set (PathEscape s) \<Longrightarrow> c = CHR ''%'' \<or> \<not> shouldEscape c"
proof (induction s)
  case (Cons d s)
  have "ord d div 16 < 16" using ord_less_256 [of d] by linarith
  then have "\<not> shouldEscape (upperhex (ord d div 16))" and "\<not> shouldEscape (upperhex (ord d mod 16))"
    by (auto simp: shouldEscape_def upperhex_alnum)
  with Cons show ?case by (auto split: if_splits)
qed simp

lemma PathEscape_no_slash: "CHR ''/'' \<notin> set (PathEscape s)"
  by (auto dest!: PathEscape_bytes simp: shouldEscape_def alnum_def in_range_def)

lemma PathEscape_eq_Nil [simp]: "PathEscape s = [] \<longleftrightarrow> s = []"
  by (cases s) auto

lemma PathEscape_id: "\<forall>c\<in>set s. \<not> shouldEscape c \<Longrightarrow> PathEscape s = s"
  by (induction s) auto

interpretation path: text_codec PathEscape PathUnescape "CHR ''/''"
  by unfold_locales (rule PathUnescape_PathEscape, rule PathEscape_no_slash)

section \<open>Unpadded base64url\<close>

text \<open>\<^verbatim>\<open>base64.RawURLEncoding\<close>: the alphabet, and its inverse.\<close>

definition b64_char :: "nat \<Rightarrow> char" where
  "b64_char n =
     (if n < 26 then chr (65 + n)
      else if n < 52 then chr (71 + n)
      else if n < 62 then chr (n - 4)
      else if n = 62 then CHR ''-'' else CHR ''_'')"

definition b64_val :: "char \<Rightarrow> nat option" where
  "b64_val c =
     (if in_range 65 90 c then Some (ord c - 65)
      else if in_range 97 122 c then Some (ord c - 71)
      else if in_range 48 57 c then Some (ord c + 4)
      else if c = CHR ''-'' then Some 62
      else if c = CHR ''_'' then Some 63
      else None)"

fun b64_EncodeToString :: "bytes \<Rightarrow> bytes" where
  "b64_EncodeToString [] = []"
| "b64_EncodeToString [a] =
     [b64_char (ord a div 4), b64_char (ord a mod 4 * 16)]"
| "b64_EncodeToString [a, b] =
     [b64_char (ord a div 4), b64_char (ord a mod 4 * 16 + ord b div 16),
      b64_char (ord b mod 16 * 4)]"
| "b64_EncodeToString (a # b # c # s) =
     b64_char (ord a div 4) # b64_char (ord a mod 4 * 16 + ord b div 16) #
     b64_char (ord b mod 16 * 4 + ord c div 64) # b64_char (ord c mod 64) #
     b64_EncodeToString s"

text \<open>
  \<^verbatim>\<open>RawURLEncoding.Strict().DecodeString\<close>: carriage returns and line feeds are skipped, a lone
  final digit is an error, and in strict mode so are non-zero bits after the last byte.
\<close>

fun b64_quanta :: "nat list \<Rightarrow> bytes option" where
  "b64_quanta [] = Some []"
| "b64_quanta [p] = None"
| "b64_quanta [p, q] =
     (if q mod 16 = 0 then Some [chr (p * 4 + q div 16)] else None)"
| "b64_quanta [p, q, r] =
     (if r mod 4 = 0 then Some [chr (p * 4 + q div 16), chr (q mod 16 * 16 + r div 4)] else None)"
| "b64_quanta (p # q # r # t # vs) =
     map_option (\<lambda>bs. chr (p * 4 + q div 16) # chr (q mod 16 * 16 + r div 4)
                        # chr (r mod 4 * 64 + t) # bs) (b64_quanta vs)"

definition b64_DecodeString :: "bytes \<Rightarrow> bytes option" where
  "b64_DecodeString s =
     (case those (map b64_val (filter (\<lambda>c. ord c \<noteq> 10 \<and> ord c \<noteq> 13) s)) of
        None \<Rightarrow> None
      | Some vs \<Rightarrow> b64_quanta vs)"

fun b64_sextets :: "bytes \<Rightarrow> nat list" where
  "b64_sextets [] = []"
| "b64_sextets [a] = [ord a div 4, ord a mod 4 * 16]"
| "b64_sextets [a, b] = [ord a div 4, ord a mod 4 * 16 + ord b div 16, ord b mod 16 * 4]"
| "b64_sextets (a # b # c # s) =
     (ord a div 4) # (ord a mod 4 * 16 + ord b div 16) # (ord b mod 16 * 4 + ord c div 64) #
     (ord c mod 64) # b64_sextets s"

lemma b64_EncodeToString_sextets: "b64_EncodeToString s = map b64_char (b64_sextets s)"
  by (induction s rule: b64_EncodeToString.induct) auto

lemma ord_div_bounds: "ord c div 4 < 64" "ord c div 16 < 16" "ord c div 64 < 4"
  using ord_less_256 [of c] by linarith+

lemma b64_sextets_bound: "v \<in> set (b64_sextets s) \<Longrightarrow> v < 64"
proof (induction s rule: b64_sextets.induct)
  case (2 a)
  then show ?case by (auto simp: ord_div_bounds)
next
  case (3 a b)
  have "ord a mod 4 * 16 + ord b div 16 < 64"
    using ord_div_bounds(2) [of b] mod_less_divisor [of 4 "ord a"] by linarith
  with 3 show ?case by (auto simp: ord_div_bounds)
next
  case (4 a b c s)
  have "ord a mod 4 * 16 + ord b div 16 < 64" and "ord b mod 16 * 4 + ord c div 64 < 64"
    using ord_div_bounds(2) [of b] mod_less_divisor [of 4 "ord a"]
      ord_div_bounds(3) [of c] mod_less_divisor [of 16 "ord b"] by linarith+
  with 4 show ?case by (auto simp: ord_div_bounds)
qed simp

lemma b64_val_char: "n < 64 \<Longrightarrow> b64_val (b64_char n) = Some n"
  by (auto simp: b64_val_def b64_char_def in_range_def)

lemma b64_char_visible:
  assumes "n < 64"
  shows "b64_char n \<noteq> CHR '':'' \<and> ord (b64_char n) \<noteq> 10 \<and> ord (b64_char n) \<noteq> 13"
  using assms by (auto simp: b64_char_def chr_eq_iff_ord)

lemma ord_two_sextets: "chr (ord a div 4 * 4 + (ord a mod 4 * 16 + k) div 16) = a" if "k < 16"
proof -
  have "(ord a mod 4 * 16 + k) div 16 = ord a mod 4" using that by simp
  then show ?thesis by simp
qed

lemma ord_mid_sextets: "chr ((m * 16 + ord b div 16) mod 16 * 16 + (ord b mod 16 * 4 + k) div 4) = b"
  if "k < 4"
proof -
  have "(m * 16 + ord b div 16) mod 16 = ord b div 16"
    using ord_less_256 [of b] by (simp add: less_mult_imp_div_less)
  moreover have "(ord b mod 16 * 4 + k) div 4 = ord b mod 16" using that by simp
  ultimately show ?thesis by simp
qed

lemma ord_last_sextets: "chr ((m * 4 + ord c div 64) mod 4 * 64 + ord c mod 64) = c"
proof -
  have "(m * 4 + ord c div 64) mod 4 = ord c div 64"
    using ord_less_256 [of c] by (simp add: less_mult_imp_div_less)
  then show ?thesis by simp
qed

lemma b64_quanta_sextets: "b64_quanta (b64_sextets s) = Some s"
proof (induction s rule: b64_sextets.induct)
  case (2 a)
  show ?case using ord_two_sextets [of 0 a] by simp
next
  case (3 a b)
  have "ord b div 16 < 16" using ord_less_256 [of b] by linarith
  then show ?case
    using ord_two_sextets [of "ord b div 16" a] ord_mid_sextets [of 0 "ord a mod 4" b] by simp
next
  case (4 a b c s)
  have "ord b div 16 < 16" and "ord c div 64 < 4"
    using ord_less_256 [of b] ord_less_256 [of c] by linarith+
  then show ?case
    using 4 ord_two_sextets [of "ord b div 16" a] ord_mid_sextets [of "ord c div 64" "ord a mod 4" b]
      ord_last_sextets [of "ord b mod 16" c] by simp
qed simp

lemma those_map_Some: "(\<And>x. x \<in> set xs \<Longrightarrow> f x = Some (g x)) \<Longrightarrow> those (map f xs) = Some (map g xs)"
  by (induction xs) auto

lemma b64_Decode_Encode: "b64_DecodeString (b64_EncodeToString s) = Some s"
proof -
  let ?vs = "b64_sextets s"
  have "filter (\<lambda>c. ord c \<noteq> 10 \<and> ord c \<noteq> 13) (map b64_char ?vs) = map b64_char ?vs"
    using b64_char_visible b64_sextets_bound by (auto simp: filter_id_conv)
  moreover have "those (map (b64_val \<circ> b64_char) ?vs) = Some (map id ?vs)"
    by (rule those_map_Some) (simp add: b64_val_char b64_sextets_bound)
  ultimately show ?thesis
    by (simp add: b64_DecodeString_def b64_EncodeToString_sextets b64_quanta_sextets)
qed

lemma b64_no_colon: "CHR '':'' \<notin> set (b64_EncodeToString s)"
  using b64_char_visible b64_sextets_bound by (fastforce simp: b64_EncodeToString_sextets)

lemma b64_ascii: "c \<in> set (b64_EncodeToString s) \<Longrightarrow> ord c < 128"
  using b64_sextets_bound by (fastforce simp: b64_EncodeToString_sextets b64_char_def)

interpretation b64: text_codec b64_EncodeToString b64_DecodeString "CHR '':''"
  by unfold_locales (rule b64_Decode_Encode, rule b64_no_colon)

section \<open>Decimal integers\<close>

fun itoa :: "nat \<Rightarrow> bytes" where
  "itoa n = (if n < 10 then [chr (48 + n)] else itoa (n div 10) @ [chr (48 + n mod 10)])"

declare itoa.simps [simp del]

definition FormatInt :: "int \<Rightarrow> bytes" where
  "FormatInt i = (if i < 0 then CHR ''-'' # itoa (nat (- i)) else itoa (nat i))"

fun dec_value :: "nat \<Rightarrow> bytes \<Rightarrow> nat option" where
  "dec_value acc [] = Some acc"
| "dec_value acc (c # s) =
     (if in_range 48 57 c then dec_value (acc * 10 + (ord c - 48)) s else None)"

text \<open>\<^verbatim>\<open>strconv.ParseInt(s, 10, 64)\<close>: \<^const>\<open>None\<close> stands for a syntax or a range error.\<close>

definition ParseInt :: "bytes \<Rightarrow> int option" where
  "ParseInt s =
     (let neg = (s \<noteq> [] \<and> hd s = CHR ''-'');
          rest = (if s \<noteq> [] \<and> (hd s = CHR ''-'' \<or> hd s = CHR ''+'') then tl s else s)
      in if rest = [] then None
         else case dec_value 0 rest of
                None \<Rightarrow> None
              | Some n \<Rightarrow>
                  (let i = (if neg then - int n else int n)
                   in if - (2 ^ 63) \<le> i \<and> i < 2 ^ 63 then Some i else None))"

lemma dec_value_append:
  "dec_value acc (s @ t) = Option.bind (dec_value acc s) (\<lambda>a. dec_value a t)"
  by (induction s arbitrary: acc) auto

lemma dec_value_digit: "d < 10 \<Longrightarrow> dec_value acc [chr (48 + d)] = Some (acc * 10 + d)"
  by (simp add: in_range_def)

lemma dec_value_itoa: "dec_value 0 (itoa n) = Some n"
proof (induction n rule: itoa.induct)
  case (1 n)
  show ?case
  proof (cases "n < 10")
    case True
    then show ?thesis by (simp add: itoa.simps [of n] dec_value_digit del: dec_value.simps)
  next
    case False
    then show ?thesis
      using "1.IH" by (simp add: itoa.simps [of n] dec_value_append dec_value_digit del: dec_value.simps)
  qed
qed

lemma itoa_digits: "c \<in> set (itoa n) \<Longrightarrow> in_range 48 57 c"
proof (induction n rule: itoa.induct)
  case (1 n)
  show ?case
  proof (cases "n < 10")
    case True
    then show ?thesis using "1.prems" by (simp add: itoa.simps [of n] in_range_def)
  next
    case False
    have "in_range 48 57 (chr (48 + n mod 10))" by (simp add: in_range_def)
    then show ?thesis using 1 False by (auto simp: itoa.simps [of n])
  qed
qed

lemma itoa_not_Nil [simp]: "itoa n \<noteq> []"
  by (subst itoa.simps) simp

lemma itoa_hd_sign: "hd (itoa n) \<noteq> CHR ''-'' \<and> hd (itoa n) \<noteq> CHR ''+''"
  using itoa_digits [of "hd (itoa n)" n] by (auto simp: in_range_def)

lemma ParseInt_FormatInt: "- (2 ^ 63) \<le> i \<Longrightarrow> i < 2 ^ 63 \<Longrightarrow> ParseInt (FormatInt i) = Some i"
  by (simp add: ParseInt_def FormatInt_def itoa_hd_sign dec_value_itoa Let_def)

lemma FormatInt_ascii: "c \<in> set (FormatInt i) \<Longrightarrow> ord c < 128"
  by (auto simp: FormatInt_def in_range_def dest!: itoa_digits split: if_splits)

section \<open>Big-endian words\<close>

fun be_bytes :: "nat \<Rightarrow> nat \<Rightarrow> bytes" where
  "be_bytes 0 n = []"
| "be_bytes (Suc k) n = be_bytes k (n div 256) @ [chr (n mod 256)]"

definition be_value :: "bytes \<Rightarrow> nat" where
  "be_value bs = foldl (\<lambda>acc c. acc * 256 + ord c) 0 bs"

definition PutUint64 :: "uint64w \<Rightarrow> bytes" where
  "PutUint64 w = be_bytes 8 (unat w)"

definition Uint64 :: "bytes \<Rightarrow> uint64w" where
  "Uint64 bs = of_nat (be_value bs)"

lemma length_be_bytes [simp]: "length (be_bytes k n) = k"
  by (induction k arbitrary: n) auto

lemma length_PutUint64 [simp]: "length (PutUint64 w) = 8"
  by (simp add: PutUint64_def)

lemma be_value_snoc: "be_value (bs @ [c]) = be_value bs * 256 + ord c"
  by (simp add: be_value_def)

lemma be_value_bytes: "be_value (be_bytes k n) = n mod 256 ^ k"
proof (induction k arbitrary: n)
  case 0
  show ?case by (simp add: be_value_def)
next
  case (Suc k)
  then show ?case
    by (simp add: be_value_snoc mod_mult2_eq)
qed

lemma be_value_bound: "be_value bs < 256 ^ length bs"
proof (induction bs rule: rev_induct)
  case Nil
  show ?case by (simp add: be_value_def)
next
  case (snoc c bs)
  have "Suc (be_value bs) * 256 \<le> 256 ^ length bs * 256"
    using snoc by (simp only: Suc_le_eq mult_le_mono1)
  moreover have "m * 256 + n < l * 256" if "n < 256" "Suc m * 256 \<le> l * 256" for l m n :: nat
    using that by simp
  ultimately have "be_value bs * 256 + ord c < 256 ^ length bs * 256"
    using ord_less_256 by blast
  then show ?case by (simp add: be_value_snoc mult.commute)
qed

lemma be_bytes_value: "be_bytes (length bs) (be_value bs) = bs"
  by (induction bs rule: rev_induct) (simp_all add: be_value_snoc)

lemma Uint64_PutUint64: "Uint64 (PutUint64 w) = w"
proof -
  have "unat w < 256 ^ 8" using unsigned_less [of w, where 'a = nat] by simp
  then show ?thesis by (simp add: Uint64_def PutUint64_def be_value_bytes)
qed

lemma PutUint64_Uint64: "length bs = 8 \<Longrightarrow> PutUint64 (Uint64 bs) = bs"
  using be_value_bound [of bs] be_bytes_value [of bs]
  by (simp add: PutUint64_def Uint64_def unat_of_nat)

text \<open>\<^verbatim>\<open>int64(x)\<close> of a 64-bit word and back: the conversions around \<^verbatim>\<open>strconv\<close>.\<close>

lemma word_of_int_sint: "(word_of_int (sint w) :: uint64w) = w"
  by simp

lemma sint_range: "- (2 ^ 63) \<le> sint (w :: uint64w)" "sint (w :: uint64w) < 2 ^ 63"
  using sint_greater_eq [of w] sint_less [of w] by simp_all

lemma ParseInt_FormatInt_sint: "ParseInt (FormatInt (sint (w :: uint64w))) = Some (sint w)"
  by (rule ParseInt_FormatInt) (rule sint_range)+

end
