(* ===== verification/Sink_Errors.thy ===== *)
theory Sink_Errors
  imports Go_Encoding
begin

text \<open>
  Errors as values: the error types of \<^verbatim>\<open>types.go\<close> (\<^verbatim>\<open>OperationError\<close>, \<^verbatim>\<open>BatchError\<close>,
  \<^verbatim>\<open>ProtocolError\<close>) and \<^verbatim>\<open>native.go\<close> (\<^verbatim>\<open>NativeError\<close>), Go's \<^verbatim>\<open>errors.New\<close>, \<^verbatim>\<open>fmt.Errorf\<close> with
  \<^verbatim>\<open>%w\<close> and \<^verbatim>\<open>errors.Join\<close>, and the traversal \<^verbatim>\<open>errors.Is\<close> and \<^verbatim>\<open>errors.As\<close> make. Errors of the
  standard library and of third-party packages are the opaque \<open>LibError\<close>.
\<close>

record OperationError =
  oe_OperationIndex :: int
  oe_Code :: int32w
  oe_Message :: bytes
  oe_Retryable :: bool

text \<open>
  An \<^verbatim>\<open>http.Header\<close> is a Go map from names to values: an association list with distinct
  names, in the (unspecified) order a \<^verbatim>\<open>range\<close> over the map visits it.
\<close>

type_synonym http_Header = "(bytes \<times> bytes list) list"

record ExecuteResponse =
  xr_ContentType :: bytes
  xr_Payload :: bytes
  xr_Success :: bool
  xr_StatusCode :: int
  xr_Headers :: http_Header

datatype go_error =
    ErrorString bytes                   \<comment> \<open>\<^verbatim>\<open>errors.New\<close>, or \<^verbatim>\<open>fmt.Errorf\<close> without \<^verbatim>\<open>%w\<close>\<close>
  | WrapError bytes go_error            \<comment> \<open>\<^verbatim>\<open>fmt.Errorf("<text>%w", err)\<close>\<close>
  | JoinError "go_error list"           \<comment> \<open>\<^verbatim>\<open>errors.Join\<close>\<close>
  | OperationErr OperationError
  | BatchErr "OperationError list"
  | ProtocolErr bytes bytes             \<comment> \<open>method and message\<close>
  | NativeErr ExecuteResponse
  | LibError bytes                      \<comment> \<open>an error of code outside the repository\<close>

type_synonym 'a result = "go_error + 'a"

definition protocolError :: "bytes \<Rightarrow> bytes \<Rightarrow> go_error" where
  "protocolError method message = ProtocolErr method message"

definition newBatchError :: "OperationError list \<Rightarrow> go_error option" where
  "newBatchError failures = (if length failures = 0 then None else Some (BatchErr failures))"

definition BatchError_Unwrap :: "OperationError list \<Rightarrow> go_error list" where
  "BatchError_Unwrap failures = map OperationErr failures"

definition OperationError_Error :: "(int32w \<Rightarrow> bytes) \<Rightarrow> OperationError \<Rightarrow> bytes" where
  "OperationError_Error codeString e =
     ''sink operation '' @ FormatInt (oe_OperationIndex e) @ '' failed with '' @
     codeString (oe_Code e) @ '': '' @ oe_Message e"

definition BatchError_Error :: "OperationError list \<Rightarrow> bytes" where
  "BatchError_Error failures =
     (if length failures = 0 then []
      else ''sink batch contains '' @ itoa (length failures) @ '' failed operations'')"

definition ProtocolError_Error :: "bytes \<Rightarrow> bytes \<Rightarrow> bytes" where
  "ProtocolError_Error method message = ''sink '' @ method @ '' response is invalid: '' @ message"

definition NativeError_Error :: "ExecuteResponse \<Rightarrow> bytes" where
  "NativeError_Error r =
     (if xr_StatusCode r \<noteq> 0
      then ''native database command returned HTTP '' @ FormatInt (xr_StatusCode r)
      else ''native database command failed; inspect its native response'')"

text \<open>
  The text of an error. \<open>codeString\<close> is the generated \<^verbatim>\<open>FailureCode.String\<close>, which calls the
  protobuf runtime.
\<close>

fun Error :: "(int32w \<Rightarrow> bytes) \<Rightarrow> go_error \<Rightarrow> bytes" where
  "Error cs (ErrorString s) = s"
| "Error cs (WrapError p e) = p @ Error cs e"
| "Error cs (JoinError es) = Join (chr 10) (map (Error cs) es)"
| "Error cs (OperationErr e) = OperationError_Error cs e"
| "Error cs (BatchErr fs) = BatchError_Error fs"
| "Error cs (ProtocolErr method message) = ProtocolError_Error method message"
| "Error cs (NativeErr r) = NativeError_Error r"
| "Error cs (LibError s) = s"

text \<open>The errors \<^verbatim>\<open>errors.Is\<close> and \<^verbatim>\<open>errors.As\<close> visit, depth first.\<close>

fun error_tree :: "go_error \<Rightarrow> go_error list" where
  "error_tree (WrapError p e) = WrapError p e # error_tree e"
| "error_tree (JoinError es) = JoinError es # concat (map error_tree es)"
| "error_tree (BatchErr fs) = BatchErr fs # BatchError_Unwrap fs"
| "error_tree e = [e]"

lemma error_tree_self: "e \<in> set (error_tree e)"
  by (cases e) auto

lemma error_tree_BatchErr:
  "f \<in> set fs \<Longrightarrow> OperationErr f \<in> set (error_tree (BatchErr fs))"
  by (simp add: BatchError_Unwrap_def)

lemma newBatchError_None: "newBatchError fs = None \<longleftrightarrow> fs = []"
  by (simp add: newBatchError_def)

lemma newBatchError_Some: "newBatchError fs = Some e \<longleftrightarrow> fs \<noteq> [] \<and> e = BatchErr fs"
  by (auto simp: newBatchError_def)

end
