(* ===== verification/Uri_Key.thy ===== *)
theory Uri_Key
  imports Sink_Errors
begin

text \<open>
  \<^verbatim>\<open>uri/key.go\<close>: the typed keys that end a record address, their text form and its parser.
  The theorems show that the text form identifies the key: parsing a formatted key gives
  the key back, a parsed segment is the canonical text of what it parses to, and so two
  keys with the same text are equal.
\<close>

record Key =
  Key_Type :: bytes
  Key_Data :: bytes

definition StringKey :: "bytes \<Rightarrow> Key" where
  "StringKey value = \<lparr>Key_Type = ''string'', Key_Data = value\<rparr>"

definition Int64Key :: "64 word \<Rightarrow> Key" where
  "Int64Key value = \<lparr>Key_Type = ''int64'', Key_Data = PutUint64 value\<rparr>"

definition BytesKey :: "bytes \<Rightarrow> Key" where
  "BytesKey value = \<lparr>Key_Type = ''bytes'', Key_Data = value\<rparr>"

definition OpaqueKey :: "bytes \<Rightarrow> bytes \<Rightarrow> Key" where
  "OpaqueKey kind value = \<lparr>Key_Type = ''opaque:'' @ kind, Key_Data = value\<rparr>"

definition FormatKey :: "Key \<Rightarrow> bytes result" where
  "FormatKey key =
     (if Key_Type key = ''string'' then
        (if \<not> utf8_Valid (Key_Data key)
         then Inl (ErrorString ''string key must contain UTF-8; use bytes for binary keys'')
         else Inr (''s:'' @ Key_Data key))
      else if Key_Type key = ''int64'' then
        (if length (Key_Data key) \<noteq> 8
         then Inl (ErrorString ''int64 key requires eight bytes'')
         else Inr (''i:'' @ FormatInt (sint (Uint64 (Key_Data key)))))
      else if Key_Type key = ''bytes'' then
        Inr (''b:'' @ b64_EncodeToString (Key_Data key))
      else
        (case CutPrefix (Key_Type key) ''opaque:'' of (kind, ok) \<Rightarrow>
           if \<not> ok \<or> kind = [] \<or> \<not> utf8_Valid kind
           then Inl (ErrorString ''unsupported key type'')
           else Inr (''o:'' @ b64_EncodeToString kind @ '':'' @ b64_EncodeToString (Key_Data key))))"

text \<open>
  The switch of \<^verbatim>\<open>ParseKey\<close>: the key a tag and its value denote, or the error. The base64 and
  integer errors are the library's.
\<close>

definition ParseKey_tagged :: "bytes \<Rightarrow> bytes \<Rightarrow> Key result" where
  "ParseKey_tagged tag value =
     (if tag = ''s'' then Inr \<lparr>Key_Type = ''string'', Key_Data = value\<rparr>
      else if tag = ''b'' then
        (case b64_DecodeString value of
           None \<Rightarrow> Inl (LibError ''illegal base64 data'')
         | Some d \<Rightarrow> Inr \<lparr>Key_Type = ''bytes'', Key_Data = d\<rparr>)
      else if tag = ''i'' then
        (case ParseInt value of
           None \<Rightarrow> Inl (LibError ''strconv.ParseInt'')
         | Some number \<Rightarrow> Inr \<lparr>Key_Type = ''int64'', Key_Data = PutUint64 (word_of_int number)\<rparr>)
      else if tag = ''o'' then
        (case Cut (CHR '':'') value of (kind, encoded, found) \<Rightarrow>
           if \<not> found then Inl (ErrorString ''opaque key requires type and data'')
           else (case b64_DecodeString kind of
                   None \<Rightarrow> Inl (LibError ''illegal base64 data'')
                 | Some decoded \<Rightarrow>
                     (case b64_DecodeString encoded of
                        None \<Rightarrow> Inl (LibError ''illegal base64 data'')
                      | Some d \<Rightarrow> Inr \<lparr>Key_Type = ''opaque:'' @ decoded, Key_Data = d\<rparr>)))
      else Inl (ErrorString ''unknown record key type tag''))"

definition ParseKey :: "bytes \<Rightarrow> Key result" where
  "ParseKey segment =
     (case Cut (CHR '':'') segment of (tag, value, ok) \<Rightarrow>
        if \<not> ok then Inl (ErrorString ''record key requires a type tag'')
        else (case ParseKey_tagged tag value of
                Inl err \<Rightarrow> Inl err
              | Inr key \<Rightarrow>
                  (case FormatKey key of
                     Inl err \<Rightarrow> Inl err
                   | Inr canonical \<Rightarrow>
                       if canonical \<noteq> segment
                       then Inl (ErrorString ''record key is not canonical'')
                       else Inr key)))"

section \<open>The shape of formatted keys\<close>

lemma FormatKey_cases:
  assumes "FormatKey key = Inr s"
  obtains
    (str) "Key_Type key = ''string''" "utf8_Valid (Key_Data key)" "s = ''s:'' @ Key_Data key"
  | (int) "Key_Type key = ''int64''" "length (Key_Data key) = 8"
      "s = ''i:'' @ FormatInt (sint (Uint64 (Key_Data key)))"
  | (byt) "Key_Type key = ''bytes''" "s = ''b:'' @ b64_EncodeToString (Key_Data key)"
  | (opq) kind where "Key_Type key = ''opaque:'' @ kind" "kind \<noteq> []" "utf8_Valid kind"
      "s = ''o:'' @ b64_EncodeToString kind @ '':'' @ b64_EncodeToString (Key_Data key)"
  using assms unfolding FormatKey_def
  by (auto split: if_splits prod.splits dest!: CutPrefix_TrueD)

lemma ParseKey_tagged_of_format:
  assumes "FormatKey key = Inr s"
  shows "\<exists>tag value. Cut (CHR '':'') s = (tag, value, True) \<and> ParseKey_tagged tag value = Inr key"
  using assms
proof (cases rule: FormatKey_cases)
  case str
  then show ?thesis by (cases key) (auto simp: ParseKey_tagged_def)
next
  case int
  then show ?thesis
    by (cases key) (auto simp: ParseKey_tagged_def ParseInt_FormatInt_sint PutUint64_Uint64)
next
  case byt
  then show ?thesis by (cases key) (auto simp: ParseKey_tagged_def b64.dec_enc)
next
  case (opq kind)
  then show ?thesis
    by (cases key) (auto simp: ParseKey_tagged_def b64.dec_enc b64.Cut_enc)
qed

text \<open>A formatted key is never empty or a dot segment, and is valid UTF-8.\<close>

lemma FormatKey_tag: "FormatKey key = Inr s \<Longrightarrow> \<exists>t r. s = t # CHR '':'' # r \<and> ord t < 128"
  by (erule FormatKey_cases) auto

lemma FormatKey_utf8: "FormatKey key = Inr s \<Longrightarrow> utf8_Valid s"
proof (erule FormatKey_cases)
  assume "s = ''i:'' @ FormatInt (sint (Uint64 (Key_Data key)))"
  then show ?thesis
    by (auto intro!: utf8_Valid_ascii dest: FormatInt_ascii)
next
  assume "s = ''b:'' @ b64_EncodeToString (Key_Data key)"
  then show ?thesis by (auto intro!: utf8_Valid_ascii dest: b64_ascii)
next
  fix kind assume "s = ''o:'' @ b64_EncodeToString kind @ '':'' @ b64_EncodeToString (Key_Data key)"
  then show ?thesis by (auto intro!: utf8_Valid_ascii dest: b64_ascii)
qed simp

section \<open>Round trips and identity\<close>

lemma ParseKey_format: "FormatKey key = Inr s \<Longrightarrow> ParseKey s = Inr key"
  using ParseKey_tagged_of_format [of key s] by (auto simp: ParseKey_def)

lemma ParseKey_canonical: "ParseKey s = Inr key \<Longrightarrow> FormatKey key = Inr s"
  by (auto simp: ParseKey_def split: prod.splits if_splits sum.splits)

lemma FormatKey_inject: "FormatKey k = Inr s \<Longrightarrow> FormatKey l = Inr s \<Longrightarrow> k = l"
  by (metis ParseKey_format sum.inject(2))

section \<open>Keys and their segments correspond one to one\<close>

text \<open>
  C19: key segments and keys correspond one to one. \<^verbatim>\<open>ParseKey\<close> accepts exactly the strings that
  \<^verbatim>\<open>FormatKey\<close> produces, and each is the inverse of the other.
\<close>

theorem FormatKey_ParseKey_inverse: "FormatKey key = Inr s \<longleftrightarrow> ParseKey s = Inr key"
  using ParseKey_format ParseKey_canonical by blast

end
