(* ===== verification/Uri_Address.thy ===== *)
theory Uri_Address
  imports Uri_Key
begin

text \<open>
  \<^verbatim>\<open>uri/address.go\<close>: canonical \<^verbatim>\<open>sink://store/path\<close> addresses. The abstract view of an address
  is a store name and a list of decoded path segments; \<open>render\<close> is its one spelling. The
  theorems show that \<^verbatim>\<open>Parse\<close> accepts exactly the canonical spellings, that \<^verbatim>\<open>uri_New\<close> and \<^verbatim>\<open>Parse\<close>
  are inverse to each other, and that \<^verbatim>\<open>AppendKey\<close> adds exactly the key's segment, so that
  the address identifies the record.
\<close>

record Address =
  Address_value :: bytes
  Address_store :: bytes
  Address_segments :: "bytes list"

definition MaxAddressBytes :: nat where
  "MaxAddressBytes = 16384"

fun ValidStore_from :: "nat \<Rightarrow> bytes \<Rightarrow> bool" where
  "ValidStore_from i [] = True"
| "ValidStore_from i (c # cs) =
     (if in_range 97 122 c \<or> in_range 48 57 c then ValidStore_from (Suc i) cs
      else if i > 0 \<and> (c = CHR ''-'' \<or> c = CHR ''_'' \<or> c = CHR ''.'') then ValidStore_from (Suc i) cs
      else False)"

definition ValidStore :: "bytes \<Rightarrow> bool" where
  "ValidStore value =
     (if length value = 0 \<or> length value > 256 then False else ValidStore_from 0 value)"

definition validSegment :: "bytes \<Rightarrow> bool" where
  "validSegment value =
     (if value = [] \<or> value = ''.'' \<or> value = ''..'' \<or> \<not> utf8_Valid value then False else True)"

text \<open>The loop over the encoded segments.\<close>

fun Parse_segments :: "bytes list \<Rightarrow> bytes list result" where
  "Parse_segments [] = Inr []"
| "Parse_segments (part # rest) =
     (case PathUnescape part of
        None \<Rightarrow> Inl (WrapError ''invalid URI escape: '' (LibError ''invalid URL escape''))
      | Some decoded \<Rightarrow>
          if \<not> validSegment decoded
          then Inl (ErrorString ''URI segments must be nonempty UTF-8 and cannot be dot segments'')
          else if PathEscape decoded \<noteq> part
          then Inl (ErrorString ''sink URI is not canonical; construct it with the URI builder'')
          else (case Parse_segments rest of
                  Inl err \<Rightarrow> Inl err
                | Inr segments \<Rightarrow> Inr (decoded # segments)))"

definition Parse :: "bytes \<Rightarrow> Address result" where
  "Parse value =
     (if length value > MaxAddressBytes then Inl (ErrorString ''sink URI exceeds 16 KiB'')
      else case CutPrefix value ''sink://'' of (remainder, ok) \<Rightarrow>
        if \<not> ok then Inl (ErrorString ''address must use sink://'')
        else case Cut (CHR ''/'') remainder of (store, path, found) \<Rightarrow>
          if \<not> ValidStore store
          then Inl (ErrorString ''store must use lowercase ASCII letters, digits, dots, underscores or hyphens'')
          else if \<not> found
          then Inr \<lparr>Address_value = value, Address_store = store, Address_segments = []\<rparr>
          else if path = [] then Inl (ErrorString ''use sink://store for a root URI'')
          else (case Parse_segments (Split (CHR ''/'') path) of
                  Inl err \<Rightarrow> Inl err
                | Inr segments \<Rightarrow>
                    Inr \<lparr>Address_value = value, Address_store = store, Address_segments = segments\<rparr>))"

definition uri_New :: "bytes \<Rightarrow> bytes list \<Rightarrow> Address result" where
  "uri_New store segments =
     (if length segments = 0 then Parse (''sink://'' @ store)
      else Parse (''sink://'' @ store @ ''/'' @ Join (CHR ''/'') (map PathEscape segments)))"

text \<open>The accessors.\<close>

definition Address_String :: "Address \<Rightarrow> bytes" where "Address_String a = Address_value a"
definition Address_Store :: "Address \<Rightarrow> bytes" where "Address_Store a = Address_store a"
definition Address_Segments :: "Address \<Rightarrow> bytes list" where "Address_Segments a = Address_segments a"

definition Address_RoutingKey :: "Address \<Rightarrow> bytes" where
  "Address_RoutingKey a = Address_value a"

definition EscapedPath :: "Address \<Rightarrow> bytes" where
  "EscapedPath a = TrimPrefix (Address_value a) (''sink://'' @ Address_store a)"

definition AppendKey :: "bytes \<Rightarrow> Key \<Rightarrow> Address result" where
  "AppendKey resource key =
     (case Parse resource of
        Inl err \<Rightarrow> Inl err
      | Inr base \<Rightarrow>
          (case FormatKey key of
             Inl err \<Rightarrow> Inl err
           | Inr segment \<Rightarrow> Parse (Address_value base @ ''/'' @ PathEscape segment)))"

section \<open>The abstract view: a store and a list of segments\<close>

definition render :: "bytes \<Rightarrow> bytes list \<Rightarrow> bytes" where
  "render store segments =
     ''sink://'' @ store @ (if segments = [] then [] else CHR ''/'' # Join (CHR ''/'') (map PathEscape segments))"

definition canonical :: "Address \<Rightarrow> bool" where
  "canonical a =
     (ValidStore (Address_store a) \<and> list_all validSegment (Address_segments a) \<and>
      Address_value a = render (Address_store a) (Address_segments a) \<and>
      length (Address_value a) \<le> MaxAddressBytes)"

lemma ValidStore_from_slash: "ValidStore_from i s \<Longrightarrow> CHR ''/'' \<notin> set s"
  by (induction i s rule: ValidStore_from.induct) (auto simp: in_range_def split: if_splits)

lemma ValidStore_slash: "ValidStore s \<Longrightarrow> CHR ''/'' \<notin> set s"
  by (auto simp: ValidStore_def dest: ValidStore_from_slash split: if_splits)

lemma validSegment_nonempty: "validSegment s \<Longrightarrow> s \<noteq> []"
  by (simp add: validSegment_def split: if_splits)

lemma Parse_segments_Inr:
  "Parse_segments parts = Inr segs \<longleftrightarrow> parts = map PathEscape segs \<and> list_all validSegment segs"
proof (induction parts arbitrary: segs)
  case Nil
  show ?case by auto
next
  case (Cons p ps)
  show ?case
  proof
    assume P: "Parse_segments (p # ps) = Inr segs"
    then obtain d rest where "PathUnescape p = Some d" "validSegment d" "PathEscape d = p"
      "Parse_segments ps = Inr rest" "segs = d # rest"
      by (auto split: option.splits if_splits sum.splits)
    then show "p # ps = map PathEscape segs \<and> list_all validSegment segs"
      using Cons.IH [of rest] by simp
  next
    assume "p # ps = map PathEscape segs \<and> list_all validSegment segs"
    then obtain d rest where "segs = d # rest" "p = PathEscape d" "ps = map PathEscape rest"
      "validSegment d" "list_all validSegment rest"
      by (cases segs) auto
    then show "Parse_segments (p # ps) = Inr segs"
      using Cons.IH [of rest] by (simp add: path.dec_enc)
  qed
qed

lemma Join_escaped_Nil:
  assumes "segs \<noteq> []" and "list_all validSegment segs"
  shows "Join (CHR ''/'') (map PathEscape segs) \<noteq> []"
  using assms by (cases segs) (auto simp: Join_eq_Nil dest: validSegment_nonempty)

text \<open>\<^verbatim>\<open>Parse\<close> accepts exactly the canonical spellings, and returns the address they spell.\<close>

lemma Parse_Inr_iff: "Parse v = Inr a \<longleftrightarrow> canonical a \<and> Address_value a = v"
proof
  assume P: "Parse v = Inr a"
  then have len: "length v \<le> MaxAddressBytes"
    by (auto simp: Parse_def split: if_splits)
  obtain rem where rem: "CutPrefix v ''sink://'' = (rem, True)"
    using P by (auto simp: Parse_def split: if_splits prod.splits)
  obtain store path found where cut: "Cut (CHR ''/'') rem = (store, path, found)"
    by (cases "Cut (CHR ''/'') rem") auto
  have v: "v = ''sink://'' @ rem" using rem by (rule CutPrefix_TrueD)
  show "canonical a \<and> Address_value a = v"
  proof (cases found)
    case True
    then have "rem = store @ CHR ''/'' # path" using cut by (auto dest: Cut_TrueD)
    moreover obtain segs where
      "Parse_segments (Split (CHR ''/'') path) = Inr segs" "ValidStore store" "path \<noteq> []"
      "a = \<lparr>Address_value = v, Address_store = store, Address_segments = segs\<rparr>"
      using P len rem cut True by (auto simp: Parse_def split: if_splits sum.splits)
    ultimately show ?thesis
      using v len Join_Split [of "CHR ''/''" path]
      by (auto simp: canonical_def render_def Parse_segments_Inr)
  next
    case False
    then have "rem = store" using cut by (auto dest: Cut_FalseD)
    then show ?thesis
      using P len rem cut False v by (auto simp: Parse_def canonical_def render_def split: if_splits)
  qed
next
  assume c: "canonical a \<and> Address_value a = v"
  let ?st = "Address_store a" and ?segs = "Address_segments a"
  have v: "v = ''sink://'' @ ?st @ (if ?segs = [] then [] else CHR ''/'' # Join (CHR ''/'') (map PathEscape ?segs))"
    and ok: "ValidStore ?st" "list_all validSegment ?segs" "length v \<le> MaxAddressBytes"
    using c by (auto simp: canonical_def render_def)
  have cp: "CutPrefix v ''sink://'' = (drop 7 v, True)"
    by (subst (1) v) (simp add: CutPrefix_def v)
  have a: "a = \<lparr>Address_value = v, Address_store = ?st, Address_segments = ?segs\<rparr>"
    using c by simp
  show "Parse v = Inr a"
  proof (cases "?segs = []")
    case True
    then have "Cut (CHR ''/'') (drop 7 v) = (?st, [], False)"
      using v ok by (simp add: Cut_absent ValidStore_slash)
    then show ?thesis using a ok cp True by (simp add: Parse_def)
  next
    case False
    then have "Cut (CHR ''/'') (drop 7 v) = (?st, Join (CHR ''/'') (map PathEscape ?segs), True)"
      using v ok by (simp add: Cut_present ValidStore_slash)
    moreover have "Parse_segments (Split (CHR ''/'') (Join (CHR ''/'') (map PathEscape ?segs))) = Inr ?segs"
      using False ok by (simp add: path.Split_Join_enc Parse_segments_Inr)
    ultimately show ?thesis
      using a ok cp Join_escaped_Nil [OF False ok(2)] by (simp add: Parse_def)
  qed
qed

lemma Parse_canonical: "Parse v = Inr a \<Longrightarrow> canonical a"
  by (simp add: Parse_Inr_iff)

lemma Parse_value: "Parse v = Inr a \<Longrightarrow> Address_value a = v"
  by (simp add: Parse_Inr_iff)

lemma canonical_Parse: "canonical a \<Longrightarrow> Parse (Address_value a) = Inr a"
  by (simp add: Parse_Inr_iff)

lemma canonical_value_inject:
  "canonical a \<Longrightarrow> canonical b \<Longrightarrow> Address_value a = Address_value b \<Longrightarrow> a = b"
  by (metis canonical_Parse sum.inject(2))

lemma New_eq_Parse_render: "uri_New store segs = Parse (render store segs)"
  by (simp add: uri_New_def render_def)

lemma New_of_parts: "canonical a \<Longrightarrow> uri_New (Address_store a) (Address_segments a) = Inr a"
  by (metis New_eq_Parse_render canonical_Parse canonical_def)

lemma canonical_EscapedPath:
  "canonical a \<Longrightarrow> ''sink://'' @ Address_store a @ EscapedPath a = Address_value a"
  by (auto simp: EscapedPath_def canonical_def render_def TrimPrefix_def CutPrefix_def)

section \<open>Appending a key\<close>

lemma FormatKey_validSegment: "FormatKey key = Inr s \<Longrightarrow> validSegment s"
  using FormatKey_tag [of key s] FormatKey_utf8 [of key s] by (auto simp: validSegment_def)

lemma render_snoc: "render store (segs @ [s]) = render store segs @ ''/'' @ PathEscape s"
  by (auto simp: render_def Join_snoc)

text \<open>Appending a key succeeds exactly when the result fits, and adds one segment.\<close>

lemma AppendKey_eq:
  assumes "Parse resource = Inr base" and "FormatKey key = Inr s"
  shows "AppendKey resource key =
    (if length (resource @ ''/'' @ PathEscape s) \<le> MaxAddressBytes
     then Inr \<lparr>Address_value = resource @ ''/'' @ PathEscape s, Address_store = Address_store base,
               Address_segments = Address_segments base @ [s]\<rparr>
     else Inl (ErrorString ''sink URI exceeds 16 KiB''))"
proof -
  let ?v = "resource @ ''/'' @ PathEscape s"
  let ?a = "\<lparr>Address_value = ?v, Address_store = Address_store base,
             Address_segments = Address_segments base @ [s]\<rparr>"
  have ap: "AppendKey resource key = Parse ?v"
    using assms by (simp add: AppendKey_def Parse_value)
  show ?thesis
  proof (cases "length ?v \<le> MaxAddressBytes")
    case True
    have "canonical base" and "Address_value base = resource"
      using assms(1) by (auto simp: Parse_Inr_iff)
    with True have "canonical ?a"
      using FormatKey_validSegment [OF assms(2)] by (simp add: canonical_def render_snoc)
    with True show ?thesis using ap canonical_Parse [of ?a] by simp
  next
    case False
    then show ?thesis using ap by (simp add: Parse_def)
  qed
qed

lemma AppendKey_InrD:
  assumes "AppendKey resource key = Inr a"
  obtains base s where "Parse resource = Inr base" "FormatKey key = Inr s"
    "Address_segments a = Address_segments base @ [s]" "Address_store a = Address_store base"
    "Address_value a = resource @ ''/'' @ PathEscape s" "canonical a"
proof -
  obtain base s where bs: "Parse resource = Inr base" "FormatKey key = Inr s"
    using assms by (auto simp: AppendKey_def split: sum.splits)
  moreover have "canonical a"
    using assms bs by (auto simp: AppendKey_def intro: Parse_canonical)
  ultimately show ?thesis
    using that assms AppendKey_eq [OF bs] by (auto split: if_splits)
qed

section \<open>Properties\<close>

text \<open>
  C18: \<^verbatim>\<open>Parse\<close> accepts exactly the canonical spelling of a store and a list of segments, and returns that
  address; every accepted address is rebuilt by \<^verbatim>\<open>New\<close> from its store and its decoded segments.
\<close>

theorem Parse_accepts_canonical:
  "(Parse v = Inr a \<longleftrightarrow> canonical a \<and> Address_value a = v)
   \<and> (Parse v = Inr a \<longrightarrow> uri_New (Address_store a) (Address_segments a) = Inr a)"
  by (simp add: Parse_Inr_iff New_of_parts)

theorem Parse_accepts_canonical_witness:
  "Parse ''sink://s/r%2F1'' = Inr \<lparr>Address_value = ''sink://s/r%2F1'', Address_store = ''s'', Address_segments = [''r/1'']\<rparr>
   \<and> uri_New ''s'' [''r/1''] = Inr \<lparr>Address_value = ''sink://s/r%2F1'', Address_store = ''s'', Address_segments = [''r/1'']\<rparr>"
proof -
  let ?a = "\<lparr>Address_value = ''sink://s/r%2F1'', Address_store = ''s'', Address_segments = [''r/1'']\<rparr>"
  have "canonical ?a" by code_simp
  then have "Parse ''sink://s/r%2F1'' = Inr ?a"
    using Parse_accepts_canonical [of "''sink://s/r%2F1''" ?a] by simp
  then show ?thesis using Parse_accepts_canonical [of "''sink://s/r%2F1''" ?a] by simp
qed

end
