(* ===== verification/Proto_Messages.thy ===== *)
theory Proto_Messages
  imports Prelude
begin

text \<open>
  The messages of \<^verbatim>\<open>api/sink/v1/sink.pb.go\<close> as records, prefixed \<^verbatim>\<open>pb\<close>. A pointer to a message
  is an option, a repeated message field a list of options (Go allows nil elements), and
  the \<^verbatim>\<open>unknownFields\<close> the codec preserves are kept; the runtime's \<^verbatim>\<open>state\<close> and \<^verbatim>\<open>sizeCache\<close> are not.

  A proto3 enum is open: the field holds any 32-bit number, and the code has branches for the
  numbers it does not know. So an enum is the word it is on the wire, with its declared values
  as named constants.
\<close>

section \<open>Enum values\<close>

abbreviation (input) DocumentEncodingJSON :: int32w where "DocumentEncodingJSON \<equiv> 1"
abbreviation (input) DocumentEncodingBSON :: int32w where "DocumentEncodingBSON \<equiv> 2"

abbreviation (input) CompletionWaitUntilApplied :: int32w where "CompletionWaitUntilApplied \<equiv> 1"
abbreviation (input) CompletionReturnAfterAccepted :: int32w where "CompletionReturnAfterAccepted \<equiv> 2"
abbreviation (input) CompletionWaitUntilVisible :: int32w where "CompletionWaitUntilVisible \<equiv> 3"

abbreviation (input) ReadFound :: int32w where "ReadFound \<equiv> 1"
abbreviation (input) ReadNotFound :: int32w where "ReadNotFound \<equiv> 2"
abbreviation (input) ReadFailed :: int32w where "ReadFailed \<equiv> 3"

abbreviation (input) WriteCreate :: int32w where "WriteCreate \<equiv> 1"
abbreviation (input) WriteReplace :: int32w where "WriteReplace \<equiv> 2"
abbreviation (input) WriteUpsert :: int32w where "WriteUpsert \<equiv> 3"

abbreviation (input) WriteAccepted :: int32w where "WriteAccepted \<equiv> 1"
abbreviation (input) WriteApplied :: int32w where "WriteApplied \<equiv> 2"
abbreviation (input) WritePreconditionFailed :: int32w where "WritePreconditionFailed \<equiv> 3"
abbreviation (input) WriteFailed :: int32w where "WriteFailed \<equiv> 4"

abbreviation (input) DeleteAccepted :: int32w where "DeleteAccepted \<equiv> 1"
abbreviation (input) DeleteApplied :: int32w where "DeleteApplied \<equiv> 2"
abbreviation (input) DeleteFailed :: int32w where "DeleteFailed \<equiv> 3"

abbreviation (input) FAILURE_CODE_UNSPECIFIED :: int32w where "FAILURE_CODE_UNSPECIFIED \<equiv> 0"
abbreviation (input) FailureInvalidArgument :: int32w where "FailureInvalidArgument \<equiv> 1"
abbreviation (input) FailurePreconditionFailed :: int32w where "FailurePreconditionFailed \<equiv> 2"
abbreviation (input) FailureNotFound :: int32w where "FailureNotFound \<equiv> 3"
abbreviation (input) FailureConflict :: int32w where "FailureConflict \<equiv> 4"
abbreviation (input) FailureResourceExhausted :: int32w where "FailureResourceExhausted \<equiv> 5"
abbreviation (input) FailureUnavailable :: int32w where "FailureUnavailable \<equiv> 6"
abbreviation (input) FailureDeadlineExceeded :: int32w where "FailureDeadlineExceeded \<equiv> 7"
abbreviation (input) FailureInternal :: int32w where "FailureInternal \<equiv> 8"

section \<open>Messages\<close>

record pbRecordAddress =
  pbRecordAddress_Uri :: bytes
  pbRecordAddress_unknownFields :: bytes

record pbDocument =
  pbDocument_Encoding :: int32w
  pbDocument_Payload :: bytes
  pbDocument_unknownFields :: bytes

record pbRevisionToken =
  pbRevisionToken_Data :: bytes
  pbRevisionToken_unknownFields :: bytes

record pbReadOperation =
  pbReadOperation_Address :: "pbRecordAddress option"
  pbReadOperation_unknownFields :: bytes

record pbReadRequest =
  pbReadRequest_Operations :: "pbReadOperation option list"
  pbReadRequest_unknownFields :: bytes

record pbFailure =
  pbFailure_Code :: int32w
  pbFailure_Message :: bytes
  pbFailure_Retryable :: bool
  pbFailure_unknownFields :: bytes

record pbReadResult =
  pbReadResult_OperationIndex :: uint32w
  pbReadResult_Status :: int32w
  pbReadResult_Document :: "pbDocument option"
  pbReadResult_Revision :: "pbRevisionToken option"
  pbReadResult_Failure :: "pbFailure option"
  pbReadResult_unknownFields :: bytes

record pbReadResponse =
  pbReadResponse_Results :: "pbReadResult option list"
  pbReadResponse_unknownFields :: bytes

record pbLuaProgram =
  pbLuaProgram_Source :: bytes
  pbLuaProgram_Sha256 :: bytes
  pbLuaProgram_unknownFields :: bytes

record pbPutOperation =
  pbPutOperation_Document :: "pbDocument option"
  pbPutOperation_Mode :: int32w
  pbPutOperation_unknownFields :: bytes

record pbMergeOperation =
  pbMergeOperation_IncomingDocument :: "pbDocument option"
  pbMergeOperation_LuaProgram :: "pbLuaProgram option"
  pbMergeOperation_unknownFields :: bytes

text \<open>
  The \<^verbatim>\<open>oneof action\<close> of a write operation: an unset action is \<^const>\<open>None\<close>. The action is an interface that holds a pointer to
  one of two structs, each with a pointer to its message as the only field. Either pointer may be nil, so the argument is an
  option of an option: \<^term>\<open>None\<close> is a typed nil pointer, and \<^term>\<open>Some None\<close> a wrapper without a message.
\<close>

datatype pbWriteAction =
    WriteOperation_Put "pbPutOperation option option"
  | WriteOperation_Merge "pbMergeOperation option option"

record pbWriteOperation =
  pbWriteOperation_Address :: "pbRecordAddress option"
  pbWriteOperation_ReturnDocument :: bool
  pbWriteOperation_Action :: "pbWriteAction option"
  pbWriteOperation_unknownFields :: bytes

record pbWriteRequest =
  pbWriteRequest_CompletionMode :: int32w
  pbWriteRequest_Operations :: "pbWriteOperation option list"
  pbWriteRequest_LuaPrograms :: "pbLuaProgram option list"
  pbWriteRequest_unknownFields :: bytes

record pbWriteResult =
  pbWriteResult_OperationIndex :: uint32w
  pbWriteResult_Status :: int32w
  pbWriteResult_Revision :: "pbRevisionToken option"
  pbWriteResult_Failure :: "pbFailure option"
  pbWriteResult_Document :: "pbDocument option"
  pbWriteResult_unknownFields :: bytes

record pbWriteResponse =
  pbWriteResponse_Results :: "pbWriteResult option list"
  pbWriteResponse_unknownFields :: bytes

record pbDeleteOperation =
  pbDeleteOperation_Address :: "pbRecordAddress option"
  pbDeleteOperation_unknownFields :: bytes

record pbDeleteRequest =
  pbDeleteRequest_CompletionMode :: int32w
  pbDeleteRequest_Operations :: "pbDeleteOperation option list"
  pbDeleteRequest_unknownFields :: bytes

record pbDeleteResult =
  pbDeleteResult_OperationIndex :: uint32w
  pbDeleteResult_Status :: int32w
  pbDeleteResult_Failure :: "pbFailure option"
  pbDeleteResult_unknownFields :: bytes

record pbDeleteResponse =
  pbDeleteResponse_Results :: "pbDeleteResult option list"
  pbDeleteResponse_unknownFields :: bytes

record pbHeader =
  pbHeader_Name :: bytes
  pbHeader_Values :: "bytes list"
  pbHeader_unknownFields :: bytes

record pbCommand =
  pbCommand_Uri :: bytes
  pbCommand_Method :: bytes
  pbCommand_Path :: bytes
  pbCommand_Query :: bytes
  pbCommand_Headers :: "pbHeader option list"
  pbCommand_ContentType :: bytes
  pbCommand_Payload :: bytes
  pbCommand_unknownFields :: bytes

record pbExecuteRequest =
  pbExecuteRequest_Command :: "pbCommand option"
  pbExecuteRequest_unknownFields :: bytes

record pbExecuteResponse =
  pbExecuteResponse_ContentType :: bytes
  pbExecuteResponse_Payload :: bytes
  pbExecuteResponse_Success :: bool
  pbExecuteResponse_StatusCode :: uint32w
  pbExecuteResponse_Headers :: "pbHeader option list"
  pbExecuteResponse_unknownFields :: bytes

record pbSortField =
  pbSortField_Field :: bytes
  pbSortField_Descending :: bool
  pbSortField_unknownFields :: bytes

record pbProjection =
  pbProjection_Fields :: "bytes list"
  pbProjection_Exclude :: bool
  pbProjection_unknownFields :: bytes

record pbQueryRequest =
  pbQueryRequest_Command :: "pbCommand option"
  pbQueryRequest_Page :: uint32w
  pbQueryRequest_PageSize :: uint32w
  pbQueryRequest_Sort :: "pbSortField option list"
  pbQueryRequest_Projection :: "pbProjection option"
  pbQueryRequest_unknownFields :: bytes

record pbQueryResponse =
  pbQueryResponse_Documents :: "pbDocument option list"
  pbQueryResponse_HasMore :: bool
  pbQueryResponse_unknownFields :: bytes

record pbCountRequest =
  pbCountRequest_Command :: "pbCommand option"
  pbCountRequest_unknownFields :: bytes

record pbCountResponse =
  pbCountResponse_Count :: uint64w
  pbCountResponse_Estimated :: bool
  pbCountResponse_unknownFields :: bytes

record pbScanRequest =
  pbScanRequest_Command :: "pbCommand option"
  pbScanRequest_BatchSize :: uint32w
  pbScanRequest_Cursor :: bytes
  pbScanRequest_Projection :: "pbProjection option"
  pbScanRequest_unknownFields :: bytes

record pbScanResponse =
  pbScanResponse_Documents :: "pbDocument option list"
  pbScanResponse_NextCursor :: bytes
  pbScanResponse_unknownFields :: bytes

end
