(* ===== verification/Go_Json.thy ===== *)
theory Go_Json
  imports Go_Strings
begin

text \<open>
  \<^verbatim>\<open>encoding/json.Valid\<close>: the scanner's state machine, one constructor per \<^verbatim>\<open>state...\<close> function
  of the standard library, its stack of enclosing objects and arrays, and the end-of-input
  rule. An undefined step (\<^const>\<open>None\<close>) is \<^verbatim>\<open>scanError\<close>. The lemmas say what white space around an object does to its validity.
\<close>

datatype jphase =
    BeginValueOrEmpty | BeginValue | BeginStringOrEmpty | BeginString | EndValue | EndTop
  | InString | InStringEsc | InStringEscU | InStringEscU1 | InStringEscU12 | InStringEscU123
  | Neg | Digits1 | Digits0 | Dot | Dot0 | Exp | ExpSign | Exp0
  | Literal bytes  \<comment> \<open>inside \<^verbatim>\<open>true\<close>, \<^verbatim>\<open>false\<close> or \<^verbatim>\<open>null\<close>: the bytes still expected\<close>

datatype jparse = ObjectKey | ObjectValue | ArrayValue

record jscan =
  js_step :: jphase
  js_stack :: "jparse list"  \<comment> \<open>innermost first\<close>
  js_endTop :: bool

definition json_space :: "char \<Rightarrow> bool" where
  "json_space c = (ord c = 32 \<or> ord c = 9 \<or> ord c = 13 \<or> ord c = 10)"

definition json_digit :: "char \<Rightarrow> bool" where
  "json_digit c = in_range 48 57 c"

definition json_hex :: "char \<Rightarrow> bool" where
  "json_hex c = (in_range 48 57 c \<or> in_range 97 102 c \<or> in_range 65 70 c)"

definition maxNestingDepth :: nat where
  "maxNestingDepth = 10000"

definition json_goto :: "jscan \<Rightarrow> jphase \<Rightarrow> jscan option" where
  "json_goto s p = Some (s\<lparr>js_step := p\<rparr>)"

definition json_push :: "jscan \<Rightarrow> jparse \<Rightarrow> jphase \<Rightarrow> jscan option" where
  "json_push s p next =
     (if Suc (length (js_stack s)) \<le> maxNestingDepth
      then Some (s\<lparr>js_stack := p # js_stack s, js_step := next\<rparr>) else None)"

definition json_pop :: "jscan \<Rightarrow> jscan option" where
  "json_pop s =
     (let rest = tl (js_stack s)
      in Some (if rest = [] then s\<lparr>js_stack := [], js_step := EndTop, js_endTop := True\<rparr>
               else s\<lparr>js_stack := rest, js_step := EndValue\<rparr>))"

definition json_endTop :: "jscan \<Rightarrow> char \<Rightarrow> jscan option" where
  "json_endTop s c = (if json_space c then Some s else None)"

definition json_endValue :: "jscan \<Rightarrow> char \<Rightarrow> jscan option" where
  "json_endValue s c =
     (case js_stack s of
        [] \<Rightarrow> json_endTop (s\<lparr>js_step := EndTop, js_endTop := True\<rparr>) c
      | p # ps \<Rightarrow>
          if json_space c then json_goto s EndValue
          else (case p of
                  ObjectKey \<Rightarrow>
                    if c = CHR '':'' then Some (s\<lparr>js_stack := ObjectValue # ps, js_step := BeginValue\<rparr>) else None
                | ObjectValue \<Rightarrow>
                    if c = CHR '','' then Some (s\<lparr>js_stack := ObjectKey # ps, js_step := BeginString\<rparr>)
                    else if c = CHR ''}'' then json_pop s else None
                | ArrayValue \<Rightarrow>
                    if c = CHR '','' then json_goto s BeginValue
                    else if c = CHR '']'' then json_pop s else None))"

definition json_beginValue :: "jscan \<Rightarrow> char \<Rightarrow> jscan option" where
  "json_beginValue s c =
     (if json_space c then Some s
      else if c = CHR ''{'' then json_push s ObjectKey BeginStringOrEmpty
      else if c = CHR ''['' then json_push s ArrayValue BeginValueOrEmpty
      else if ord c = 34 then json_goto s InString
      else if c = CHR ''-'' then json_goto s Neg
      else if c = CHR ''0'' then json_goto s Digits0
      else if c = CHR ''t'' then json_goto s (Literal ''rue'')
      else if c = CHR ''f'' then json_goto s (Literal ''alse'')
      else if c = CHR ''n'' then json_goto s (Literal ''ull'')
      else if json_digit c then json_goto s Digits1
      else None)"

definition json_beginString :: "jscan \<Rightarrow> char \<Rightarrow> jscan option" where
  "json_beginString s c =
     (if json_space c then Some s else if ord c = 34 then json_goto s InString else None)"

definition json_state0 :: "jscan \<Rightarrow> char \<Rightarrow> jscan option" where
  "json_state0 s c =
     (if c = CHR ''.'' then json_goto s Dot
      else if c = CHR ''e'' \<or> c = CHR ''E'' then json_goto s Exp
      else json_endValue s c)"

fun json_step :: "jscan \<Rightarrow> char \<Rightarrow> jscan option" where
  "json_step s c =
     (case js_step s of
        BeginValueOrEmpty \<Rightarrow>
          if json_space c then Some s else if c = CHR '']'' then json_endValue s c else json_beginValue s c
      | BeginValue \<Rightarrow> json_beginValue s c
      | BeginStringOrEmpty \<Rightarrow>
          if json_space c then Some s
          else if c = CHR ''}'' then json_endValue (s\<lparr>js_stack := ObjectValue # tl (js_stack s)\<rparr>) c
          else json_beginString s c
      | BeginString \<Rightarrow> json_beginString s c
      | EndValue \<Rightarrow> json_endValue s c
      | EndTop \<Rightarrow> json_endTop s c
      | InString \<Rightarrow>
          if ord c = 34 then json_goto s EndValue
          else if ord c = 92 then json_goto s InStringEsc
          else if ord c < 32 then None else Some s
      | InStringEsc \<Rightarrow>
          if c \<in> set ''bfnrt/'' \<or> ord c = 92 \<or> ord c = 34 then json_goto s InString
          else if c = CHR ''u'' then json_goto s InStringEscU else None
      | InStringEscU \<Rightarrow> if json_hex c then json_goto s InStringEscU1 else None
      | InStringEscU1 \<Rightarrow> if json_hex c then json_goto s InStringEscU12 else None
      | InStringEscU12 \<Rightarrow> if json_hex c then json_goto s InStringEscU123 else None
      | InStringEscU123 \<Rightarrow> if json_hex c then json_goto s InString else None
      | Neg \<Rightarrow> if c = CHR ''0'' then json_goto s Digits0 else if json_digit c then json_goto s Digits1 else None
      | Digits1 \<Rightarrow> if json_digit c then Some s else json_state0 s c
      | Digits0 \<Rightarrow> json_state0 s c
      | Dot \<Rightarrow> if json_digit c then json_goto s Dot0 else None
      | Dot0 \<Rightarrow>
          if json_digit c then Some s
          else if c = CHR ''e'' \<or> c = CHR ''E'' then json_goto s Exp else json_endValue s c
      | Exp \<Rightarrow>
          if c = CHR ''+'' \<or> c = CHR ''-'' then json_goto s ExpSign
          else if json_digit c then json_goto s Exp0 else None
      | ExpSign \<Rightarrow> if json_digit c then json_goto s Exp0 else None
      | Exp0 \<Rightarrow> if json_digit c then Some s else json_endValue s c
      | Literal rest \<Rightarrow>
          (case rest of
             [] \<Rightarrow> None
           | e # es \<Rightarrow> if c = e then json_goto s (if es = [] then EndValue else Literal es) else None))"

fun json_scan :: "jscan \<Rightarrow> bytes \<Rightarrow> jscan option" where
  "json_scan s [] = Some s"
| "json_scan s (c # cs) = (case json_step s c of None \<Rightarrow> None | Some s' \<Rightarrow> json_scan s' cs)"

definition json_eof :: "jscan \<Rightarrow> bool" where
  "json_eof s =
     (js_endTop s \<or> (case json_step s (chr 32) of None \<Rightarrow> False | Some s' \<Rightarrow> js_endTop s'))"

definition json_reset :: jscan where
  "json_reset = \<lparr>js_step = BeginValue, js_stack = [], js_endTop = False\<rparr>"

definition json_Valid :: "bytes \<Rightarrow> bool" where
  "json_Valid data = (case json_scan json_reset data of None \<Rightarrow> False | Some s \<Rightarrow> json_eof s)"

lemma json_Valid_nonempty: "json_Valid s \<Longrightarrow> s \<noteq> []"
  by (auto simp: json_Valid_def json_eof_def json_reset_def json_beginValue_def json_space_def)

text \<open>
  The first byte of a valid text starts a value or is JSON white space, which is only
  space, tab, line feed and carriage return.
\<close>

lemma json_Valid_first:
  "json_Valid (c # s) \<Longrightarrow>
     json_space c \<or> c \<in> set ''{[-tfn'' \<or> ord c = 34 \<or> json_digit c"
  by (auto simp: json_Valid_def json_reset_def json_beginValue_def json_digit_def in_range_def
      split: if_splits option.splits)

section \<open>White space around an object\<close>

text \<open>While an object or array is open the input is not complete; after the outermost one only white space may follow.\<close>

definition json_open_or_done :: "jscan \<Rightarrow> bool" where
  "json_open_or_done s \<longleftrightarrow> (if js_stack s = [] then js_step s = EndTop \<and> js_endTop s else js_step s \<noteq> EndTop \<and> \<not> js_endTop s)"

lemma json_step_open:
  assumes "json_open_or_done s" and "json_step s c = Some s'"
  shows "json_open_or_done s'"
  using assms
  by (cases "js_step s")
    (auto simp: json_open_or_done_def json_goto_def json_push_def json_pop_def json_endTop_def json_endValue_def json_beginValue_def
      json_beginString_def json_state0_def Let_def split: if_splits list.splits jparse.splits)

lemma json_scan_open: "json_open_or_done s \<Longrightarrow> json_scan s cs = Some s' \<Longrightarrow> json_open_or_done s'"
  by (induction cs arbitrary: s) (auto simp del: json_step.simps split: option.splits dest: json_step_open)

lemma json_eof_closed:
  assumes "json_open_or_done s" and "json_eof s"
  shows "js_stack s = [] \<and> js_step s = EndTop \<and> js_endTop s"
proof -
  have "chr 32 = CHR '' ''" by code_simp
  then show ?thesis using assms
    by (cases "js_step s")
      (auto simp: json_eof_def json_open_or_done_def json_goto_def json_push_def json_endValue_def json_beginValue_def
        json_beginString_def json_state0_def split: if_splits list.splits jparse.splits option.splits)
qed

lemma json_scan_append: "json_scan s (xs @ ys) = (case json_scan s xs of None \<Rightarrow> None | Some s' \<Rightarrow> json_scan s' ys)"
  by (induction xs arbitrary: s) (auto simp del: json_step.simps split: option.split)

text \<open>Where only white space or a value may follow, JSON's white space is skipped and every other white space is an error.\<close>

definition json_foreign :: "char \<Rightarrow> bool" where
  "json_foreign c \<longleftrightarrow> \<not> json_space c \<and> \<not> json_digit c \<and> ord c \<noteq> 34 \<and> c \<notin> set ''{[-0tfn''"

lemma space_runes_first: "list_all (\<lambda>r. r \<noteq> [] \<and> (tl r = [] \<and> json_space (hd r) \<or> json_foreign (hd r))) space_runes"
  by code_simp

lemma json_step_between:
  "js_step s = BeginValue \<Longrightarrow> json_step s c = json_beginValue s c"
  "js_step s = EndTop \<Longrightarrow> json_step s c = json_endTop s c"
  by simp_all

lemma space_rune_skipped:
  assumes "r \<in> set space_runes" and "js_step s = BeginValue \<or> js_step s = EndTop"
  shows "json_scan s r = (if list_all json_space r then Some s else None)"
proof -
  have first: "r \<noteq> [] \<and> (tl r = [] \<and> json_space (hd r) \<or> json_foreign (hd r))"
    using space_runes_first assms(1) unfolding list_all_iff by blast
  obtain c cs where r: "r = c # cs" using first by (cases r) auto
  have cs: "cs = [] \<and> json_space c \<or> json_foreign c" using first by (simp add: r)
  show ?thesis
  proof (cases "json_space c")
    case True
    then have "cs = []" using cs by (simp add: json_foreign_def)
    moreover have "json_step s c = Some s" using assms(2)
      by (rule disjE) (simp_all only: json_step_between, simp_all add: True json_beginValue_def json_endTop_def)
    ultimately show ?thesis using True by (simp add: r del: json_step.simps)
  next
    case False
    then have "json_foreign c" using cs by simp
    then have "json_beginValue s c = None" "json_endTop s c = None"
      by (simp_all add: json_foreign_def json_beginValue_def json_endTop_def)
    then have "json_step s c = None" using assms(2) json_step_between [of s c] by metis
    then show ?thesis using False by (simp add: r del: json_step.simps)
  qed
qed

lemma space_runes_skipped:
  assumes "set rs \<subseteq> set space_runes" and "js_step s = BeginValue \<or> js_step s = EndTop"
  shows "json_scan s (concat rs) = (if list_all json_space (concat rs) then Some s else None)"
  using assms(1) by (induction rs) (auto simp: json_scan_append space_rune_skipped [OF _ assms(2)])

text \<open>An object with white space around it.\<close>

lemma json_Valid_padded:
  assumes "json_Valid (CHR ''{'' # t)" and "set ps \<subseteq> set space_runes" and "set qs \<subseteq> set space_runes"
  shows "json_Valid (concat ps @ (CHR ''{'' # t) @ concat qs) \<longleftrightarrow> list_all json_space (concat ps @ concat qs)"
proof -
  obtain s where s: "json_scan json_reset (CHR ''{'' # t) = Some s" and eof: "json_eof s"
    using assms(1) by (auto simp: json_Valid_def simp del: json_scan.simps split: option.splits)
  obtain s1 where s1: "json_step json_reset (CHR ''{'') = Some s1" "json_scan s1 t = Some s"
    using s by (auto simp del: json_step.simps split: option.splits)
  have "json_open_or_done s1"
    using s1(1) by (auto simp: json_reset_def json_beginValue_def json_space_def json_push_def json_open_or_done_def split: if_splits)
  then have closed: "js_step s = EndTop" "js_endTop s" using json_eof_closed [OF json_scan_open [OF _ s1(2)] eof] by simp_all
  have pre: "json_scan json_reset (concat ps) = (if list_all json_space (concat ps) then Some json_reset else None)"
    using assms(2) by (intro space_runes_skipped) (simp_all add: json_reset_def)
  have post: "json_scan s (concat qs) = (if list_all json_space (concat qs) then Some s else None)"
    using assms(3) closed by (intro space_runes_skipped) simp_all
  have "json_eof s" using closed by (simp add: json_eof_def)
  then show ?thesis
    unfolding json_Valid_def by (simp only: json_scan_append pre) (simp add: s post list_all_append del: json_scan.simps json_step.simps)
qed

end
