(* ===== verification/Go_Sha256.thy ===== *)
theory Go_Sha256
  imports Go_Encoding
begin

text \<open>
  \<^verbatim>\<open>crypto/sha256.Sum256\<close> (FIPS 180-4): padding, the message schedule and the compression
  function over 32-bit words. It is executable; on \<^verbatim>\<open>"abc"\<close> it gives the digest of the standard.
\<close>

unbundle bit_operations_syntax

type_synonym u32 = "32 word"

definition rotr :: "nat \<Rightarrow> u32 \<Rightarrow> u32" where
  "rotr n x = (drop_bit n x) OR (push_bit (32 - n) x)"

text \<open>
  The constants of \<^verbatim>\<open>crypto/sha256\<close> are the first 32 bits of the fractional parts of cube
  roots (round constants) and square roots (initial state) of the first primes. They are computed from
  that description: \<open>root_bits e n k r\<close> finds the integer \<open>e\<close>-th root of \<open>n\<close> bit by bit, and
  reading it as a 32-bit word drops the integral part.
\<close>

fun root_bits :: "nat \<Rightarrow> int \<Rightarrow> nat \<Rightarrow> int \<Rightarrow> int" where
  "root_bits e n 0 r = r"
| "root_bits e n (Suc k) r = root_bits e n k (if (r + 2 ^ k) ^ e \<le> n then r + 2 ^ k else r)"

definition root_fraction :: "nat \<Rightarrow> int \<Rightarrow> u32" where
  "root_fraction e p = word_of_int (root_bits e (p * 2 ^ (32 * e)) 38 0)"

definition sha_primes :: "int list" where
  "sha_primes =
     [2, 3, 5, 7, 11, 13, 17, 19, 23, 29, 31, 37, 41, 43, 47, 53,
      59, 61, 67, 71, 73, 79, 83, 89, 97, 101, 103, 107, 109, 113, 127, 131,
      137, 139, 149, 151, 157, 163, 167, 173, 179, 181, 191, 193, 197, 199, 211, 223,
      227, 229, 233, 239, 241, 251, 257, 263, 269, 271, 277, 281, 283, 293, 307, 311]"

definition sha_K :: "u32 list" where
  "sha_K = map (root_fraction 3) sha_primes"

definition sha_H0 :: "u32 list" where
  "sha_H0 = map (root_fraction 2) (take 8 sha_primes)"

lemma root_bits_is_root:
  assumes "r ^ e \<le> n" and "n < (r + 2 ^ k) ^ e" and "0 \<le> r" and "0 < e"
  shows "(root_bits e n k r) ^ e \<le> n \<and> n < (root_bits e n k r + 1) ^ e"
  using assms
proof (induction k arbitrary: r)
  case (Suc k)
  have "r + 2 ^ Suc k = r + 2 ^ k + 2 ^ k" by simp
  with Suc.prems Suc.IH [of "r + 2 ^ k"] Suc.IH [of r] show ?case by (auto simp: not_le add.commute add.left_commute)
qed simp

lemma length_sha_primes: "length sha_primes = 64"
  by (simp add: sha_primes_def)

text \<open>Big-endian 32-bit words, by shifting.\<close>

definition be_word :: "bytes \<Rightarrow> u32" where
  "be_word bs = foldl (\<lambda>acc c. push_bit 8 acc OR of_char c) 0 bs"

definition word_be :: "u32 \<Rightarrow> bytes" where
  "word_be w = map (\<lambda>k. char_of (uint (drop_bit k w))) [24, 16, 8, 0]"

text \<open>A one bit, zeros up to 56 bytes modulo 64, and the length in bits.\<close>

definition sha_pad :: "bytes \<Rightarrow> bytes" where
  "sha_pad m =
     m @ [chr 0x80] @ replicate ((119 - length m mod 64) mod 64) (chr 0) @
     map (\<lambda>k. char_of (drop_bit k (8 * int (length m)))) [56, 48, 40, 32, 24, 16, 8, 0]"

definition sha_s0 :: "u32 \<Rightarrow> u32" where
  "sha_s0 x = rotr 7 x XOR rotr 18 x XOR drop_bit 3 x"

definition sha_s1 :: "u32 \<Rightarrow> u32" where
  "sha_s1 x = rotr 17 x XOR rotr 19 x XOR drop_bit 10 x"

text \<open>The schedule, kept newest word first: 48 words are added to the 16 of the block.\<close>

fun sha_extend :: "nat \<Rightarrow> u32 list \<Rightarrow> u32 list" where
  "sha_extend 0 ws = ws"
| "sha_extend (Suc k) ws =
     sha_extend k ((sha_s1 (ws ! 1) + ws ! 6 + sha_s0 (ws ! 14) + ws ! 15) # ws)"

definition sha_schedule :: "bytes \<Rightarrow> u32 list" where
  "sha_schedule block =
     rev (sha_extend 48 (rev (map (\<lambda>i. be_word (take 4 (drop (4 * i) block))) [0..<16])))"

fun sha_round :: "u32 list \<Rightarrow> u32 \<times> u32 \<Rightarrow> u32 list" where
  "sha_round [a, b, c, d, e, f, g, h] (k, w) =
     (let t1 = h + (rotr 6 e XOR rotr 11 e XOR rotr 25 e) + ((e AND f) XOR (NOT e AND g)) + k + w;
          t2 = (rotr 2 a XOR rotr 13 a XOR rotr 22 a) + ((a AND b) XOR (a AND c) XOR (b AND c))
      in [t1 + t2, a, b, c, d + t1, e, f, g])"
| "sha_round hs kw = hs"

definition sha_block :: "u32 list \<Rightarrow> bytes \<Rightarrow> u32 list" where
  "sha_block hs block = map2 (+) hs (foldl sha_round hs (zip sha_K (sha_schedule block)))"

definition Sum256 :: "bytes \<Rightarrow> bytes" where
  "Sum256 m = concat (map word_be (foldl sha_block sha_H0 (chunks 64 (sha_pad m))))"

lemma length_sha_round [simp]: "length (sha_round hs kw) = length hs"
  by (induction hs kw rule: sha_round.induct) (auto simp: Let_def)

lemma length_sha_rounds [simp]: "length (foldl sha_round hs kws) = length hs"
  by (induction kws arbitrary: hs) auto

lemma length_sha_blocks: "length (foldl sha_block hs bs) = length hs"
  by (induction bs arbitrary: hs) (auto simp: sha_block_def)

text \<open>A digest is the 32 bytes of \<^verbatim>\<open>[sha256.Size]byte\<close>, and padding fills whole blocks.\<close>

lemma length_Sum256 [simp]: "length (Sum256 m) = 32"
  by (simp add: Sum256_def length_concat length_sha_blocks sha_H0_def length_sha_primes o_def sum_list_triv word_be_def)

lemma sha_pad_blocks: "64 dvd length (sha_pad m)"
proof -
  obtain q r where m: "length m = 64 * q + r" "r < 64"
    by (metis mod_less_divisor mult_div_mod_eq zero_less_numeral)
  have "(119 - r) mod 64 = (if r \<le> 55 then 55 - r else 119 - r)"
    using m(2) by (auto simp: mod_if)
  then have "length (sha_pad m) = 64 * (q + (if r \<le> 55 then 1 else 2))"
    using m by (auto simp: sha_pad_def)
  then show ?thesis by simp
qed

end
