(* ===== verification/Sink_Types.thy ===== *)
theory Sink_Types
  imports Uri_Address Proto_Messages Go_Json Go_Sha256
begin

text \<open>
  \<^verbatim>\<open>types.go\<close>: logical keys, record addresses, documents, Lua programs, write operations and
  the per-record results. The lemmas show that whatever a constructor returns passes the
  validation the client repeats before sending, that a program's digest is the digest of its
  source, which accepted payloads are JSON, and that keys built with the key constructors are identified by their address.
\<close>

section \<open>Third-party packages\<close>

text \<open>
  The functions of packages outside the repository the client calls without side effects,
  as a record of functions that every definition using them takes as its first argument:
  the BSON codec (\<^verbatim>\<open>mongo-driver\<close>), gRPC statuses, the protobuf runtime's enum names, and the
  reflection based encoders over Go values, which are of the abstract type \<open>'v\<close>.
\<close>

record 'v lib =
  EnumStringOf :: "bytes \<Rightarrow> int32w \<Rightarrow> bytes"
  bson_Validate :: "bytes \<Rightarrow> go_error option"
  bson_Marshal :: "'v \<Rightarrow> bytes result"
  json_Marshal :: "'v \<Rightarrow> bytes result"
  status_Code :: "go_error \<Rightarrow> nat"
  status_Details :: "go_error \<Rightarrow> (bytes \<times> bytes) option list"
  status_FromContextError :: "go_error \<Rightarrow> go_error"

section \<open>Keys and addresses\<close>

datatype keyKind =
  keyKindUnspecified | keyKindString | keyKindInt64 | keyKindBytes | keyKindOpaque

record sink_Key =
  sk_kind :: keyKind
  sk_stringValue :: bytes
  sk_int64Value :: "64 word"
  sk_bytesValue :: bytes
  sk_opaqueType :: bytes

definition empty_Key :: sink_Key where
  "empty_Key = \<lparr>sk_kind = keyKindUnspecified, sk_stringValue = [], sk_int64Value = 0,
     sk_bytesValue = [], sk_opaqueType = []\<rparr>"

definition sink_StringKey :: "bytes \<Rightarrow> sink_Key" where
  "sink_StringKey value = empty_Key\<lparr>sk_kind := keyKindString, sk_stringValue := value\<rparr>"

definition sink_Int64Key :: "64 word \<Rightarrow> sink_Key" where
  "sink_Int64Key value = empty_Key\<lparr>sk_kind := keyKindInt64, sk_int64Value := value\<rparr>"

definition sink_BytesKey :: "bytes \<Rightarrow> sink_Key" where
  "sink_BytesKey value = empty_Key\<lparr>sk_kind := keyKindBytes, sk_bytesValue := value\<rparr>"

definition sink_OpaqueKey :: "bytes \<Rightarrow> bytes \<Rightarrow> sink_Key result" where
  "sink_OpaqueKey typeName value =
     (if typeName = [] then Inl (ErrorString ''opaque key type is required'')
      else Inr (empty_Key\<lparr>sk_kind := keyKindOpaque, sk_bytesValue := value, sk_opaqueType := typeName\<rparr>))"

definition Key_validate :: "sink_Key \<Rightarrow> go_error option" where
  "Key_validate k =
     (if sk_kind k = keyKindUnspecified then Some (ErrorString ''record key is required'')
      else if sk_kind k = keyKindOpaque \<and> sk_opaqueType k = []
      then Some (ErrorString ''opaque key type is required'')
      else None)"

definition uriKey :: "sink_Key \<Rightarrow> Key" where
  "uriKey k =
     (case sk_kind k of
        keyKindString \<Rightarrow> \<lparr>Key_Type = ''string'', Key_Data = sk_stringValue k\<rparr>
      | keyKindInt64 \<Rightarrow> \<lparr>Key_Type = ''int64'', Key_Data = PutUint64 (sk_int64Value k)\<rparr>
      | keyKindBytes \<Rightarrow> \<lparr>Key_Type = ''bytes'', Key_Data = sk_bytesValue k\<rparr>
      | keyKindOpaque \<Rightarrow> \<lparr>Key_Type = ''opaque:'' @ sk_opaqueType k, Key_Data = sk_bytesValue k\<rparr>
      | keyKindUnspecified \<Rightarrow> \<lparr>Key_Type = [], Key_Data = []\<rparr>)"

text \<open>The client's \<^verbatim>\<open>Address\<close> wraps one \<^verbatim>\<open>uri.Address\<close>, and is that value here.\<close>

definition empty_Address :: Address where
  "empty_Address = \<lparr>Address_value = [], Address_store = [], Address_segments = []\<rparr>"

text \<open>The parsed address is returned with the error when it has no segments.\<close>

definition NewAddress :: "bytes \<Rightarrow> Address \<times> go_error option" where
  "NewAddress value =
     (case Parse value of
        Inl err \<Rightarrow> (empty_Address, Some err)
      | Inr parsed \<Rightarrow>
          (parsed, if length (Address_segments parsed) = 0
                   then Some (ErrorString ''record URI requires a resource path'') else None))"

definition NewRecordAddress :: "bytes \<Rightarrow> sink_Key \<Rightarrow> Address result" where
  "NewRecordAddress resource key =
     (case Key_validate key of
        Some err \<Rightarrow> Inl err
      | None \<Rightarrow> AppendKey resource (uriKey key))"

definition sink_Address_Store :: "Address \<Rightarrow> bytes" where "sink_Address_Store a = Address_Store a"
definition sink_Address_URI :: "Address \<Rightarrow> bytes" where "sink_Address_URI a = Address_String a"

definition Address_validate :: "Address \<Rightarrow> go_error option" where
  "Address_validate a = snd (NewAddress (Address_value a))"

section \<open>Documents\<close>

record Document =
  doc_encoding :: int32w
  doc_payload :: bytes

definition empty_Document :: Document where
  "empty_Document = \<lparr>doc_encoding = 0, doc_payload = []\<rparr>"

definition Document_validate :: "'v lib \<Rightarrow> Document \<Rightarrow> go_error option" where
  "Document_validate lib d =
     (if doc_encoding d = DocumentEncodingJSON then
        (let trimmed = TrimSpace (doc_payload d)
         in if length trimmed < 2 \<or> trimmed ! 0 \<noteq> CHR ''{'' \<or> trimmed ! (length trimmed - 1) \<noteq> CHR ''}''
               \<or> \<not> json_Valid trimmed
            then Some (ErrorString ''document payload must contain a valid JSON object'')
            else None)
      else if doc_encoding d = DocumentEncodingBSON then
        (case bson_Validate lib (doc_payload d) of
           Some err \<Rightarrow> Some (WrapError ''document payload must contain a valid BSON document: '' err)
         | None \<Rightarrow> None)
      else Some (ErrorString ''document encoding is required''))"

definition NewRawDocument :: "'v lib \<Rightarrow> int32w \<Rightarrow> bytes \<Rightarrow> Document result" where
  "NewRawDocument lib encoding payload =
     (let document = \<lparr>doc_encoding = encoding, doc_payload = payload\<rparr>
      in case Document_validate lib document of Some err \<Rightarrow> Inl err | None \<Rightarrow> Inr document)"

definition Document_Encoding :: "Document \<Rightarrow> int32w" where "Document_Encoding d = doc_encoding d"
definition Document_Payload :: "Document \<Rightarrow> bytes" where "Document_Payload d = doc_payload d"

definition NewDocument :: "'v lib \<Rightarrow> 'v \<Rightarrow> int32w \<Rightarrow> Document result" where
  "NewDocument lib value encoding =
     (if encoding = DocumentEncodingJSON then
        (case json_Marshal lib value of
           Inl err \<Rightarrow> Inl (WrapError ''encode JSON document: '' err)
         | Inr encoded \<Rightarrow> NewRawDocument lib encoding encoded)
      else if encoding = DocumentEncodingBSON then
        (case bson_Marshal lib value of
           Inl err \<Rightarrow> Inl (WrapError ''encode BSON document: '' err)
         | Inr encoded \<Rightarrow> NewRawDocument lib encoding encoded)
      else Inl (ErrorString ''document encoding is required''))"

text \<open>
  \<^verbatim>\<open>Decode\<close> fills the destination with the decoder of the document's encoding; the decoded
  value is returned here, and \<open>hasDestination\<close> says whether the destination is not nil.
\<close>

definition Document_Decode ::
  "(bytes \<Rightarrow> 'd result) \<Rightarrow> (bytes \<Rightarrow> 'd result) \<Rightarrow> Document \<Rightarrow> bool \<Rightarrow> 'd result" where
  "Document_Decode json_Unmarshal bson_Unmarshal d hasDestination =
     (if \<not> hasDestination then Inl (ErrorString ''decode document: destination is required'')
      else if doc_encoding d = DocumentEncodingJSON then
        (case json_Unmarshal (doc_payload d) of
           Inl err \<Rightarrow> Inl (WrapError ''decode document: '' err) | Inr v \<Rightarrow> Inr v)
      else if doc_encoding d = DocumentEncodingBSON then
        (case bson_Unmarshal (doc_payload d) of
           Inl err \<Rightarrow> Inl (WrapError ''decode document: '' err) | Inr v \<Rightarrow> Inr v)
      else Inl (ErrorString ''decode document: encoding is required''))"

section \<open>Lua programs\<close>

record LuaProgram =
  lua_source :: bytes
  lua_sha256 :: bytes

definition empty_LuaProgram :: LuaProgram where
  "empty_LuaProgram = \<lparr>lua_source = [], lua_sha256 = replicate 32 (chr 0)\<rparr>"

definition NewLuaProgram :: "bytes \<Rightarrow> LuaProgram result" where
  "NewLuaProgram source =
     (if length source = 0 then Inl (ErrorString ''lua merge program source is required'')
      else Inr \<lparr>lua_source = source, lua_sha256 = Sum256 source\<rparr>)"

definition LuaProgram_Source :: "LuaProgram \<Rightarrow> bytes" where "LuaProgram_Source p = lua_source p"
definition LuaProgram_SHA256 :: "LuaProgram \<Rightarrow> bytes" where "LuaProgram_SHA256 p = lua_sha256 p"

definition LuaProgram_validate :: "LuaProgram \<Rightarrow> go_error option" where
  "LuaProgram_validate p =
     (if length (lua_source p) = 0 then Some (ErrorString ''lua merge program source is required'')
      else if Sum256 (lua_source p) \<noteq> lua_sha256 p
      then Some (ErrorString ''lua merge program source was modified'')
      else None)"

section \<open>Write operations\<close>

datatype writeAction = writeActionUnspecified | writeActionPut | writeActionMerge

record mergeOperation =
  mo_incoming :: Document
  mo_program :: LuaProgram

record WriteOperation =
  wo_returnDocument :: bool
  wo_address :: Address
  wo_action :: writeAction
  wo_put :: Document
  wo_mode :: int32w
  wo_merge :: mergeOperation

definition empty_mergeOperation :: mergeOperation where
  "empty_mergeOperation = \<lparr>mo_incoming = empty_Document, mo_program = empty_LuaProgram\<rparr>"

definition WithReturnedDocument :: "WriteOperation \<Rightarrow> WriteOperation" where
  "WithReturnedDocument op = op\<lparr>wo_returnDocument := True\<rparr>"

definition valid_write_mode :: "int32w \<Rightarrow> bool" where
  "valid_write_mode mode = (\<not> (mode \<noteq> WriteCreate \<and> mode \<noteq> WriteReplace \<and> mode \<noteq> WriteUpsert))"

definition NewPut :: "'v lib \<Rightarrow> Address \<Rightarrow> Document \<Rightarrow> int32w \<Rightarrow> WriteOperation result" where
  "NewPut lib address document mode =
     (case Address_validate address of Some err \<Rightarrow> Inl err
      | None \<Rightarrow>
         (case Document_validate lib document of Some err \<Rightarrow> Inl err
          | None \<Rightarrow>
             if \<not> valid_write_mode mode
             then Inl (ErrorString ''put operation has an invalid write mode'')
             else Inr \<lparr>wo_returnDocument = False, wo_address = address, wo_action = writeActionPut,
                       wo_put = document, wo_mode = mode, wo_merge = empty_mergeOperation\<rparr>))"

definition NewMerge :: "'v lib \<Rightarrow> Address \<Rightarrow> mergeOperation \<Rightarrow> WriteOperation result" where
  "NewMerge lib address opts =
     (case Address_validate address of Some err \<Rightarrow> Inl err
      | None \<Rightarrow>
         (case Document_validate lib (mo_incoming opts) of Some err \<Rightarrow> Inl err
          | None \<Rightarrow>
             (case LuaProgram_validate (mo_program opts) of Some err \<Rightarrow> Inl err
              | None \<Rightarrow>
                  Inr \<lparr>wo_returnDocument = False, wo_address = address, wo_action = writeActionMerge,
                       wo_put = empty_Document, wo_mode = 0, wo_merge = opts\<rparr>)))"

definition WriteOperation_validate :: "'v lib \<Rightarrow> WriteOperation \<Rightarrow> go_error option" where
  "WriteOperation_validate lib op =
     (case Address_validate (wo_address op) of Some err \<Rightarrow> Some err
      | None \<Rightarrow>
         (case wo_action op of
            writeActionPut \<Rightarrow>
              (case Document_validate lib (wo_put op) of Some err \<Rightarrow> Some err
               | None \<Rightarrow>
                   if \<not> valid_write_mode (wo_mode op)
                   then Some (ErrorString ''put operation has an invalid write mode'') else None)
          | writeActionMerge \<Rightarrow>
              (case Document_validate lib (mo_incoming (wo_merge op)) of Some err \<Rightarrow> Some err
               | None \<Rightarrow> LuaProgram_validate (mo_program (wo_merge op)))
          | writeActionUnspecified \<Rightarrow> Some (ErrorString ''write action is required'')))"

section \<open>Results\<close>

type_synonym RevisionToken = bytes

definition RevisionToken_Bytes :: "RevisionToken \<Rightarrow> bytes" where "RevisionToken_Bytes r = r"

record ReadResult =
  rr_OperationIndex :: int
  rr_Status :: int32w
  rr_Document :: Document
  rr_Revision :: RevisionToken
  rr_Failure :: "OperationError option"

record WriteResult =
  wr_OperationIndex :: int
  wr_Status :: int32w
  wr_Revision :: RevisionToken
  wr_Failure :: "OperationError option"
  wr_Document :: Document

record DeleteResult =
  dr_OperationIndex :: int
  dr_Status :: int32w
  dr_Failure :: "OperationError option"

definition ReadResult_Err :: "ReadResult \<Rightarrow> go_error option" where
  "ReadResult_Err r = map_option OperationErr (rr_Failure r)"

definition WriteResult_Err :: "WriteResult \<Rightarrow> go_error option" where
  "WriteResult_Err r = map_option OperationErr (wr_Failure r)"

definition DeleteResult_Err :: "DeleteResult \<Rightarrow> go_error option" where
  "DeleteResult_Err r = map_option OperationErr (dr_Failure r)"

text \<open>The loop that collects the failures of a result list, shared by the three result types.\<close>

fun collect_failures :: "('r \<Rightarrow> OperationError option) \<Rightarrow> 'r list \<Rightarrow> OperationError list" where
  "collect_failures failure [] = []"
| "collect_failures failure (r # rs) =
     (case failure r of
        None \<Rightarrow> collect_failures failure rs
      | Some e \<Rightarrow> e # collect_failures failure rs)"

definition ReadResultsError :: "ReadResult list \<Rightarrow> go_error option" where
  "ReadResultsError results = newBatchError (collect_failures rr_Failure results)"

definition WriteResultsError :: "WriteResult list \<Rightarrow> go_error option" where
  "WriteResultsError results = newBatchError (collect_failures wr_Failure results)"

definition DeleteResultsError :: "DeleteResult list \<Rightarrow> go_error option" where
  "DeleteResultsError results = newBatchError (collect_failures dr_Failure results)"

section \<open>Constructors return valid values\<close>

lemma Address_validate_canonical:
  "canonical a \<Longrightarrow> Address_validate a = None \<longleftrightarrow> Address_segments a \<noteq> []"
  by (simp add: Address_validate_def NewAddress_def canonical_Parse)

lemma NewRecordAddress_InrD:
  assumes "NewRecordAddress resource key = Inr a"
  shows "Key_validate key = None" and "AppendKey resource (uriKey key) = Inr a"
  using assms by (auto simp: NewRecordAddress_def split: option.splits)

lemma NewRecordAddress_valid:
  assumes "NewRecordAddress resource key = Inr a"
  shows "Address_validate a = None"
  using NewRecordAddress_InrD(2) [OF assms]
  by (rule AppendKey_InrD) (simp add: Address_validate_canonical)

lemma NewRawDocument_Inr:
  "NewRawDocument lib enc payload = Inr d \<longleftrightarrow>
     d = \<lparr>doc_encoding = enc, doc_payload = payload\<rparr> \<and> Document_validate lib d = None"
  by (auto simp: NewRawDocument_def Let_def split: option.splits)

lemma NewDocument_valid: "NewDocument lib v enc = Inr d \<Longrightarrow> Document_validate lib d = None"
  by (auto simp: NewDocument_def NewRawDocument_Inr split: if_splits sum.splits)

lemma Document_validate_encoding:
  "Document_validate lib d = None \<Longrightarrow> doc_encoding d = DocumentEncodingJSON \<or> doc_encoding d = DocumentEncodingBSON"
  by (auto simp: Document_validate_def split: if_splits)

lemma Document_validate_JSON:
  "doc_encoding d = DocumentEncodingJSON \<Longrightarrow>
     Document_validate lib d = None \<longleftrightarrow>
       (let t = TrimSpace (doc_payload d)
        in json_Valid t \<and> 2 \<le> length t \<and> hd t = CHR ''{'' \<and> last t = CHR ''}'')"
  by (cases "TrimSpace (doc_payload d)")
    (auto simp: Document_validate_def Let_def last_conv_nth Suc_le_eq)

lemma NewLuaProgram_valid: "NewLuaProgram src = Inr p \<Longrightarrow> LuaProgram_validate p = None \<and> lua_source p = src"
  by (auto simp: NewLuaProgram_def LuaProgram_validate_def split: if_splits)

text \<open>What the accessors return of a constructed value.\<close>

lemma constructed_parts:
  "NewRawDocument lib enc payload = Inr d \<Longrightarrow> Document_Encoding d = enc \<and> Document_Payload d = payload"
  "NewLuaProgram src = Inr p \<Longrightarrow> LuaProgram_Source p = src \<and> LuaProgram_SHA256 p = Sum256 src"
  "NewAddress v = (a, None) \<Longrightarrow> sink_Address_URI a = v \<and> ValidStore (sink_Address_Store a) \<and> Address_Segments a \<noteq> []"
proof -
  show "sink_Address_URI a = v \<and> ValidStore (sink_Address_Store a) \<and> Address_Segments a \<noteq> []" if "NewAddress v = (a, None)"
  proof -
    have "Parse v = Inr a" and "Address_segments a \<noteq> []"
      using that by (auto simp: NewAddress_def split: sum.splits if_splits)
    then show ?thesis using Parse_canonical [of v a] Parse_value [of v a]
      by (simp add: sink_Address_URI_def sink_Address_Store_def Address_String_def Address_Store_def Address_Segments_def,
          simp add: canonical_def)
  qed
qed (auto simp: NewRawDocument_Inr Document_Encoding_def Document_Payload_def NewLuaProgram_def LuaProgram_Source_def
    LuaProgram_SHA256_def split: if_splits)

lemma LuaProgram_validate_digest:
  "LuaProgram_validate p = None \<Longrightarrow> lua_sha256 p = Sum256 (lua_source p)"
  by (auto simp: LuaProgram_validate_def split: if_splits)

lemma NewPut_valid: "NewPut lib a d m = Inr op \<Longrightarrow> WriteOperation_validate lib op = None"
  by (auto simp: NewPut_def WriteOperation_validate_def split: option.splits if_splits)

lemma NewMerge_valid: "NewMerge lib a opts = Inr op \<Longrightarrow> WriteOperation_validate lib op = None"
  by (auto simp: NewMerge_def WriteOperation_validate_def split: option.splits)

lemma WriteOperation_validate_returnDocument [simp]:
  "WriteOperation_validate lib (op\<lparr>wo_returnDocument := b\<rparr>) = WriteOperation_validate lib op"
  by (simp add: WriteOperation_validate_def split: option.split writeAction.split)

section \<open>Collected failures\<close>

lemma collect_failures_eq: "collect_failures f rs = map the (filter (\<lambda>x. x \<noteq> None) (map f rs))"
  by (induction rs) (auto split: option.splits)

lemma set_collect_failures: "e \<in> set (collect_failures f rs) \<longleftrightarrow> (\<exists>r\<in>set rs. f r = Some e)"
  by (induction rs) (auto split: option.splits)

lemma collect_failures_Nil: "collect_failures f rs = [] \<longleftrightarrow> (\<forall>r\<in>set rs. f r = None)"
  by (induction rs) (auto split: option.splits)

section \<open>Keys are identified by their address\<close>

text \<open>The keys the exported constructors return.\<close>

definition constructed_key :: "sink_Key \<Rightarrow> bool" where
  "constructed_key k \<longleftrightarrow>
     (\<exists>v. k = sink_StringKey v) \<or> (\<exists>i. k = sink_Int64Key i) \<or> (\<exists>b. k = sink_BytesKey b) \<or>
     (\<exists>t b. sink_OpaqueKey t b = Inr k)"

lemma constructed_key_cases:
  assumes "constructed_key k"
  obtains (str) v where "k = sink_StringKey v" "uriKey k = StringKey v"
  | (int) i where "k = sink_Int64Key i" "uriKey k = Int64Key i"
  | (byt) b where "k = sink_BytesKey b" "uriKey k = BytesKey b"
  | (opq) t b where "sink_OpaqueKey t b = Inr k" "t \<noteq> []" "uriKey k = OpaqueKey t b"
  using assms unfolding constructed_key_def
  by (auto simp: sink_StringKey_def sink_Int64Key_def sink_BytesKey_def sink_OpaqueKey_def
      empty_Key_def uriKey_def StringKey_def Int64Key_def BytesKey_def OpaqueKey_def split: if_splits)

lemma PutUint64_inject: "PutUint64 i = PutUint64 j \<longleftrightarrow> i = j"
  by (metis Uint64_PutUint64)

lemma uriKey_inject:
  assumes "constructed_key k" and "constructed_key l" and "uriKey k = uriKey l"
  shows "k = l"
  using assms(1)
proof (cases rule: constructed_key_cases)
  case (str v)
  with assms(2,3) show ?thesis
    by (cases rule: constructed_key_cases [of l])
      (auto simp: StringKey_def Int64Key_def BytesKey_def OpaqueKey_def)
next
  case (int i)
  with assms(2,3) show ?thesis
    by (cases rule: constructed_key_cases [of l])
      (auto simp: StringKey_def Int64Key_def BytesKey_def OpaqueKey_def PutUint64_inject)
next
  case (byt b)
  with assms(2,3) show ?thesis
    by (cases rule: constructed_key_cases [of l])
      (auto simp: StringKey_def Int64Key_def BytesKey_def OpaqueKey_def)
next
  case (opq t b)
  with assms(2,3) show ?thesis
    by (cases rule: constructed_key_cases [of l])
      (auto simp: StringKey_def Int64Key_def BytesKey_def OpaqueKey_def)
qed

section \<open>Properties\<close>

text \<open>
  C29: the address of a record identifies its key. Two different keys built with the key constructors have
  different addresses under one resource.
\<close>

theorem record_address_identifies_key:
  assumes "constructed_key k" and "constructed_key l" and "k \<noteq> l"
    and "NewRecordAddress resource k = Inr a" and "NewRecordAddress resource l = Inr b"
  shows "Address_value a \<noteq> Address_value b"
proof
  assume eq: "Address_value a = Address_value b"
  obtain s where s: "FormatKey (uriKey k) = Inr s" "Address_value a = resource @ ''/'' @ PathEscape s"
    using NewRecordAddress_InrD(2) [OF assms(4)] by (rule AppendKey_InrD)
  obtain t where t: "FormatKey (uriKey l) = Inr t" "Address_value b = resource @ ''/'' @ PathEscape t"
    using NewRecordAddress_InrD(2) [OF assms(5)] by (rule AppendKey_InrD)
  have "PathEscape s = PathEscape t" using s(2) t(2) eq by simp
  then have "s = t" by (metis path.dec_enc option.inject)
  then have "uriKey k = uriKey l" using s(1) t(1) by (auto intro: FormatKey_inject)
  then show False using uriKey_inject [OF assms(1,2)] assms(3) by simp
qed

lemma NewRecordAddress_example:
  "NewRecordAddress ''sink://s/r'' (sink_StringKey ''1'')
    = Inr \<lparr>Address_value = ''sink://s/r/s:1'', Address_store = ''s'', Address_segments = [''r'', ''s:1'']\<rparr>"
  "NewRecordAddress ''sink://s/r'' (sink_Int64Key 1)
    = Inr \<lparr>Address_value = ''sink://s/r/i:1'', Address_store = ''s'', Address_segments = [''r'', ''i:1'']\<rparr>"
proof -
  let ?base = "\<lparr>Address_value = ''sink://s/r'', Address_store = ''s'', Address_segments = [''r'']\<rparr>"
  have "canonical ?base"
    by (simp add: canonical_def render_def ValidStore_def in_range_def validSegment_def alnum_def shouldEscape_def
        MaxAddressBytes_def)
  then have base: "Parse ''sink://s/r'' = Inr ?base" using canonical_Parse [of ?base] by simp
  have "FormatKey (StringKey ''1'') = Inr ''s:1''" "FormatKey (Int64Key 1) = Inr ''i:1''"
    by (simp_all add: FormatKey_def StringKey_def Int64Key_def CutPrefix_def FormatInt_def itoa.simps [of "Suc 0"]
        Uint64_PutUint64 chr_eq_iff_ord)
  note eqs = AppendKey_eq [OF base this(1)] AppendKey_eq [OF base this(2)]
  show "NewRecordAddress ''sink://s/r'' (sink_StringKey ''1'')
    = Inr \<lparr>Address_value = ''sink://s/r/s:1'', Address_store = ''s'', Address_segments = [''r'', ''s:1'']\<rparr>"
    "NewRecordAddress ''sink://s/r'' (sink_Int64Key 1)
    = Inr \<lparr>Address_value = ''sink://s/r/i:1'', Address_store = ''s'', Address_segments = [''r'', ''i:1'']\<rparr>"
    using eqs by (simp_all add: NewRecordAddress_def Key_validate_def uriKey_def sink_StringKey_def sink_Int64Key_def
        empty_Key_def StringKey_def Int64Key_def MaxAddressBytes_def shouldEscape_def alnum_def in_range_def)
qed

theorem record_address_identifies_key_witness:
  "\<exists>a b. NewRecordAddress ''sink://s/r'' (sink_StringKey ''1'') = Inr a
     \<and> NewRecordAddress ''sink://s/r'' (sink_Int64Key 1) = Inr b \<and> Address_value a \<noteq> Address_value b"
proof -
  have "constructed_key (sink_StringKey ''1'')" "constructed_key (sink_Int64Key 1)"
    by (auto simp: constructed_key_def)
  moreover have "sink_StringKey ''1'' \<noteq> sink_Int64Key 1"
    by (simp add: sink_StringKey_def sink_Int64Key_def empty_Key_def)
  ultimately show ?thesis
    using record_address_identifies_key [OF _ _ _ NewRecordAddress_example] NewRecordAddress_example by blast
qed

text \<open>
  C34: whatever the constructors return is valid: record addresses, documents, programs and operations pass the
  validation the client repeats before sending, also after \<^verbatim>\<open>WithReturnedDocument\<close>, and a program's digest is the
  SHA-256 of its source.
\<close>

theorem constructors_return_valid:
  "(\<forall>resource key a. NewRecordAddress resource key = Inr a \<longrightarrow> Address_validate a = None)
   \<and> (\<forall>v enc d. NewDocument lib v enc = Inr d \<longrightarrow> Document_validate lib d = None)
   \<and> (\<forall>src p. NewLuaProgram src = Inr p \<longrightarrow> LuaProgram_validate p = None \<and> lua_sha256 p = Sum256 src)
   \<and> (\<forall>a d m op. NewPut lib a d m = Inr op \<longrightarrow> WriteOperation_validate lib (WithReturnedDocument op) = None)
   \<and> (\<forall>a opts op. NewMerge lib a opts = Inr op \<longrightarrow> WriteOperation_validate lib (WithReturnedDocument op) = None)"
proof (intro conjI allI impI)
  fix src p
  assume p: "NewLuaProgram src = Inr p"
  then show "LuaProgram_validate p = None" by (simp add: NewLuaProgram_valid)
  then show "lua_sha256 p = Sum256 src" using NewLuaProgram_valid [OF p] by (simp add: LuaProgram_validate_digest)
qed (auto simp: WithReturnedDocument_def dest: NewRecordAddress_valid NewDocument_valid NewPut_valid NewMerge_valid)

theorem constructors_return_valid_witness:
  "\<exists>a. NewRecordAddress ''sink://s/r'' (sink_Int64Key 1) = Inr a \<and> Address_validate a = None"
proof -
  obtain a where a: "NewRecordAddress ''sink://s/r'' (sink_Int64Key 1) = Inr a"
    using NewRecordAddress_example(2) by blast
  from constructors_return_valid [THEN conjunct1, rule_format, OF a] a show ?thesis by blast
qed

text \<open>
  C40: when an accepted JSON document is JSON. The payload is validated without the white space that \<^verbatim>\<open>bytes.TrimSpace\<close> cuts off, and
  kept with it. That white space is any of Unicode's, and an accepted payload is valid JSON exactly when all of it is among the
  four characters that JSON allows: with any other, the document is sent although no JSON decoder reads it.
\<close>

theorem accepted_document_json:
  assumes "NewRawDocument lib DocumentEncodingJSON payload = Inr d"
  shows "doc_payload d = payload \<and> (\<exists>ps qs. set ps \<subseteq> set space_runes \<and> set qs \<subseteq> set space_runes
    \<and> payload = concat ps @ TrimSpace payload @ concat qs
    \<and> (json_Valid payload \<longleftrightarrow> list_all json_space (concat ps @ concat qs)))"
proof -
  let ?t = "TrimSpace payload"
  have d: "d = \<lparr>doc_encoding = DocumentEncodingJSON, doc_payload = payload\<rparr>" "Document_validate lib d = None"
    using assms unfolding NewRawDocument_Inr by blast+
  then have "json_Valid ?t" "?t \<noteq> []" "hd ?t = CHR ''{''"
    using Document_validate_JSON [of d lib] by (auto simp: Let_def)
  then obtain t where t: "?t = CHR ''{'' # t" "json_Valid (CHR ''{'' # t)" by (cases ?t) auto
  obtain ps qs where p: "set ps \<subseteq> set space_runes" "set qs \<subseteq> set space_runes" "payload = concat ps @ ?t @ concat qs"
    using TrimSpace_pieces by blast
  have "json_Valid payload \<longleftrightarrow> list_all json_space (concat ps @ concat qs)"
    using json_Valid_padded [OF t(2) p(1,2)] p(3) t(1) by metis
  then show ?thesis using d p by auto
qed

theorem accepted_document_json_witness:
  "\<forall>lib :: unit lib. \<exists>d ps qs. NewRawDocument lib DocumentEncodingJSON (chr 11 # ''{}'') = Inr d \<and> doc_payload d = chr 11 # ''{}''
     \<and> chr 11 # ''{}'' = concat ps @ ''{}'' @ concat qs \<and> \<not> list_all json_space (concat ps @ concat qs)"
proof
  fix lib :: "unit lib"
  let ?p = "chr 11 # ''{}''"
  have trim: "TrimSpace ?p = ''{}''" by code_simp
  moreover have "json_Valid ''{}''" by code_simp
  ultimately have run: "NewRawDocument lib DocumentEncodingJSON ?p
      = Inr \<lparr>doc_encoding = DocumentEncodingJSON, doc_payload = ?p\<rparr>"
    by (simp add: NewRawDocument_def Document_validate_def Let_def)
  moreover have "\<not> json_Valid ?p" by code_simp
  ultimately show "\<exists>d ps qs. NewRawDocument lib DocumentEncodingJSON ?p = Inr d \<and> doc_payload d = ?p
     \<and> ?p = concat ps @ ''{}'' @ concat qs \<and> \<not> list_all json_space (concat ps @ concat qs)"
    using accepted_document_json [OF run] unfolding trim by auto
qed

end
