(* ===== verification/Wire.thy ===== *)
theory Wire
  imports Sink_Types
begin

text \<open>
  \<^verbatim>\<open>wire.go\<close>: conversions between the client's types and the protocol messages. A valid
  document survives the trip through its message; a merge carries only the program's digest.
\<close>

definition Address_toProto :: "Address \<Rightarrow> pbRecordAddress" where
  "Address_toProto a = \<lparr>pbRecordAddress_Uri = Address_value a, pbRecordAddress_unknownFields = []\<rparr>"

definition Document_toProto :: "Document \<Rightarrow> pbDocument" where
  "Document_toProto d = \<lparr>pbDocument_Encoding = doc_encoding d, pbDocument_Payload = doc_payload d,
     pbDocument_unknownFields = []\<rparr>"

definition documentFromProto :: "'v lib \<Rightarrow> pbDocument option \<Rightarrow> Document result" where
  "documentFromProto lib document =
     (case document of
        None \<Rightarrow> Inl (ErrorString ''document is missing'')
      | Some d \<Rightarrow> NewRawDocument lib (pbDocument_Encoding d) (pbDocument_Payload d))"

definition revisionFromProto :: "pbRevisionToken option \<Rightarrow> RevisionToken" where
  "revisionFromProto revision =
     (case revision of None \<Rightarrow> [] | Some r \<Rightarrow> pbRevisionToken_Data r)"

definition WriteOperation_toProto :: "WriteOperation \<Rightarrow> pbWriteOperation" where
  "WriteOperation_toProto op =
     \<lparr>pbWriteOperation_Address = Some (Address_toProto (wo_address op)),
      pbWriteOperation_ReturnDocument = wo_returnDocument op,
      pbWriteOperation_Action =
        (case wo_action op of
           writeActionPut \<Rightarrow>
             Some (WriteOperation_Put (Some (Some
               \<lparr>pbPutOperation_Document = Some (Document_toProto (wo_put op)),
                pbPutOperation_Mode = wo_mode op, pbPutOperation_unknownFields = []\<rparr>)))
         | writeActionMerge \<Rightarrow>
             Some (WriteOperation_Merge (Some (Some
               \<lparr>pbMergeOperation_IncomingDocument = Some (Document_toProto (mo_incoming (wo_merge op))),
                pbMergeOperation_LuaProgram = Some
                  \<lparr>pbLuaProgram_Source = [], pbLuaProgram_Sha256 = lua_sha256 (mo_program (wo_merge op)),
                   pbLuaProgram_unknownFields = []\<rparr>,
                pbMergeOperation_unknownFields = []\<rparr>)))
         | writeActionUnspecified \<Rightarrow> None),
      pbWriteOperation_unknownFields = []\<rparr>"

lemma documentFromProto_toProto:
  "Document_validate lib d = None \<Longrightarrow> documentFromProto lib (Some (Document_toProto d)) = Inr d"
  by (simp add: documentFromProto_def Document_toProto_def NewRawDocument_Inr)

lemma documentFromProto_valid:
  "documentFromProto lib pd = Inr d \<Longrightarrow> Document_validate lib d = None"
  by (auto simp: documentFromProto_def NewRawDocument_Inr split: option.splits)

lemma documentFromProto_fields:
  "documentFromProto lib pd = Inr d \<Longrightarrow>
     \<exists>p. pd = Some p \<and> doc_encoding d = pbDocument_Encoding p \<and> doc_payload d = pbDocument_Payload p"
  by (auto simp: documentFromProto_def NewRawDocument_Inr split: option.splits)

end
