(* ===== verification/Results.thy ===== *)
theory Results
  imports Wire "HOL-Library.Multiset"
begin

text \<open>
  \<^verbatim>\<open>results.go\<close>: decoding of batch responses. A response is accepted only when it holds exactly
  one well-formed result for every operation of the request, in any order; the decoded results
  are then in operation order. The three decoders share their loop, which is described once by
  the interface \<open>result_loop\<close>.
\<close>

definition validateResultIndex :: "bytes \<Rightarrow> uint32w \<Rightarrow> bool list \<Rightarrow> (nat \<times> bool list) result" where
  "validateResultIndex method rawIndex seen =
     (if unat rawIndex \<ge> length seen
      then Inl (protocolError method (''result operation index '' @ itoa (unat rawIndex) @ '' is out of range''))
      else if seen ! unat rawIndex
      then Inl (protocolError method (''result operation index '' @ itoa (unat rawIndex) @ '' is duplicated''))
      else Inr (unat rawIndex, seen[unat rawIndex := True]))"

definition operationFailure :: "nat \<Rightarrow> pbFailure option \<Rightarrow> OperationError result" where
  "operationFailure index failure =
     (case failure of
        None \<Rightarrow> Inl (ErrorString (''result '' @ itoa index @ '' is missing failure details''))
      | Some f \<Rightarrow>
          if pbFailure_Code f = FAILURE_CODE_UNSPECIFIED
          then Inl (ErrorString (''result '' @ itoa index @ '' has an unspecified failure code''))
          else if pbFailure_Message f = []
          then Inl (ErrorString (''result '' @ itoa index @ '' has an empty failure message''))
          else Inr \<lparr>oe_OperationIndex = int index, oe_Code = pbFailure_Code f,
                    oe_Message = pbFailure_Message f, oe_Retryable = pbFailure_Retryable f\<rparr>)"

abbreviation error_text :: "'v lib \<Rightarrow> go_error \<Rightarrow> bytes" where
  "error_text lib \<equiv> Error (EnumStringOf lib ''FailureCode'')"

definition unsupported_status :: "'v lib \<Rightarrow> bytes \<Rightarrow> bytes \<Rightarrow> nat \<Rightarrow> int32w \<Rightarrow> go_error" where
  "unsupported_status lib method enum index status =
     protocolError method
       (''result '' @ itoa index @ '' has unsupported status '' @ EnumStringOf lib enum status)"

definition count_mismatch :: "bytes \<Rightarrow> nat \<Rightarrow> nat \<Rightarrow> go_error" where
  "count_mismatch method got cnt =
     protocolError method (''returned '' @ itoa got @ '' results for '' @ itoa cnt @ '' operations'')"

section \<open>Read responses\<close>

definition readResultFromProto :: "'v lib \<Rightarrow> nat \<Rightarrow> pbReadResult \<Rightarrow> ReadResult result" where
  "readResultFromProto lib index p =
     (let result = \<lparr>rr_OperationIndex = int index, rr_Status = pbReadResult_Status p,
                    rr_Document = empty_Document, rr_Revision = [], rr_Failure = None\<rparr>
      in if rr_Status result = ReadFound then
           (case documentFromProto lib (pbReadResult_Document p) of
              Inl err \<Rightarrow> Inl (protocolError ''Read'' (''result '' @ itoa index @ '': '' @ error_text lib err))
            | Inr document \<Rightarrow>
                Inr (result\<lparr>rr_Document := document,
                            rr_Revision := revisionFromProto (pbReadResult_Revision p)\<rparr>))
         else if rr_Status result = ReadNotFound then Inr result
         else if rr_Status result = ReadFailed then
           (case operationFailure index (pbReadResult_Failure p) of
              Inl err \<Rightarrow> Inl (protocolError ''Read'' (error_text lib err))
            | Inr failure \<Rightarrow> Inr (result\<lparr>rr_Failure := Some failure\<rparr>))
         else Inl (unsupported_status lib ''Read'' ''ReadStatus'' index (rr_Status result)))"

fun decodeReadResults ::
  "'v lib \<Rightarrow> pbReadResult option list \<Rightarrow> bool list \<Rightarrow> ReadResult list \<Rightarrow> ReadResult list result" where
  "decodeReadResults lib [] seen results = Inr results"
| "decodeReadResults lib (None # ps) seen results = Inl (protocolError ''Read'' ''result is empty'')"
| "decodeReadResults lib (Some p # ps) seen results =
     (case validateResultIndex ''Read'' (pbReadResult_OperationIndex p) seen of
        Inl err \<Rightarrow> Inl err
      | Inr (index, seen') \<Rightarrow>
          (case readResultFromProto lib index p of
             Inl err \<Rightarrow> Inl err
           | Inr result \<Rightarrow> decodeReadResults lib ps seen' (results[index := result])))"

definition empty_ReadResult :: ReadResult where
  "empty_ReadResult = \<lparr>rr_OperationIndex = 0, rr_Status = 0, rr_Document = empty_Document,
     rr_Revision = [], rr_Failure = None\<rparr>"

definition decodeReadResponse ::
  "'v lib \<Rightarrow> pbReadResponse option \<Rightarrow> nat \<Rightarrow> ReadResult list result" where
  "decodeReadResponse lib response cnt =
     (case response of
        None \<Rightarrow> Inl (protocolError ''Read'' ''response is empty'')
      | Some r \<Rightarrow>
          if length (pbReadResponse_Results r) \<noteq> cnt
          then Inl (count_mismatch ''Read'' (length (pbReadResponse_Results r)) cnt)
          else decodeReadResults lib (pbReadResponse_Results r) (replicate cnt False)
                 (replicate cnt empty_ReadResult))"

section \<open>Write responses\<close>

definition writeResultFromProto :: "'v lib \<Rightarrow> nat \<Rightarrow> pbWriteResult \<Rightarrow> WriteResult result" where
  "writeResultFromProto lib index p =
     (let result = \<lparr>wr_OperationIndex = int index, wr_Status = pbWriteResult_Status p,
                    wr_Revision = revisionFromProto (pbWriteResult_Revision p),
                    wr_Failure = None, wr_Document = empty_Document\<rparr>
      in case (case pbWriteResult_Document p of
                 None \<Rightarrow> Inr result
               | Some d \<Rightarrow>
                   if wr_Status result \<noteq> WriteApplied
                   then Inl (protocolError ''Write'' ''uncommitted result contains a document'')
                   else (case documentFromProto lib (Some d) of
                           Inl err \<Rightarrow> Inl (protocolError ''Write'' (error_text lib err))
                         | Inr document \<Rightarrow> Inr (result\<lparr>wr_Document := document\<rparr>))) of
           Inl err \<Rightarrow> Inl err
         | Inr result \<Rightarrow>
             if wr_Status result = WriteAccepted \<or> wr_Status result = WriteApplied then Inr result
             else if wr_Status result = WritePreconditionFailed \<or> wr_Status result = WriteFailed then
               (case operationFailure index (pbWriteResult_Failure p) of
                  Inl err \<Rightarrow> Inl (protocolError ''Write'' (error_text lib err))
                | Inr failure \<Rightarrow> Inr (result\<lparr>wr_Failure := Some failure\<rparr>))
             else Inl (unsupported_status lib ''Write'' ''WriteStatus'' index (wr_Status result)))"

fun decodeWriteResults ::
  "'v lib \<Rightarrow> pbWriteResult option list \<Rightarrow> bool list \<Rightarrow> WriteResult list \<Rightarrow> WriteResult list result" where
  "decodeWriteResults lib [] seen results = Inr results"
| "decodeWriteResults lib (None # ps) seen results = Inl (protocolError ''Write'' ''result is empty'')"
| "decodeWriteResults lib (Some p # ps) seen results =
     (case validateResultIndex ''Write'' (pbWriteResult_OperationIndex p) seen of
        Inl err \<Rightarrow> Inl err
      | Inr (index, seen') \<Rightarrow>
          (case writeResultFromProto lib index p of
             Inl err \<Rightarrow> Inl err
           | Inr result \<Rightarrow> decodeWriteResults lib ps seen' (results[index := result])))"

definition empty_WriteResult :: WriteResult where
  "empty_WriteResult = \<lparr>wr_OperationIndex = 0, wr_Status = 0, wr_Revision = [], wr_Failure = None,
     wr_Document = empty_Document\<rparr>"

definition decodeWriteResponse ::
  "'v lib \<Rightarrow> pbWriteResponse option \<Rightarrow> nat \<Rightarrow> WriteResult list result" where
  "decodeWriteResponse lib response cnt =
     (case response of
        None \<Rightarrow> Inl (protocolError ''Write'' ''response is empty'')
      | Some r \<Rightarrow>
          if length (pbWriteResponse_Results r) \<noteq> cnt
          then Inl (count_mismatch ''Write'' (length (pbWriteResponse_Results r)) cnt)
          else decodeWriteResults lib (pbWriteResponse_Results r) (replicate cnt False)
                 (replicate cnt empty_WriteResult))"

section \<open>Delete responses\<close>

definition deleteResultFromProto :: "'v lib \<Rightarrow> nat \<Rightarrow> pbDeleteResult \<Rightarrow> DeleteResult result" where
  "deleteResultFromProto lib index p =
     (let result = \<lparr>dr_OperationIndex = int index, dr_Status = pbDeleteResult_Status p, dr_Failure = None\<rparr>
      in if dr_Status result = DeleteAccepted \<or> dr_Status result = DeleteApplied then Inr result
         else if dr_Status result = DeleteFailed then
           (case operationFailure index (pbDeleteResult_Failure p) of
              Inl err \<Rightarrow> Inl (protocolError ''Delete'' (error_text lib err))
            | Inr failure \<Rightarrow> Inr (result\<lparr>dr_Failure := Some failure\<rparr>))
         else Inl (unsupported_status lib ''Delete'' ''DeleteStatus'' index (dr_Status result)))"

fun decodeDeleteResults ::
  "'v lib \<Rightarrow> pbDeleteResult option list \<Rightarrow> bool list \<Rightarrow> DeleteResult list \<Rightarrow> DeleteResult list result" where
  "decodeDeleteResults lib [] seen results = Inr results"
| "decodeDeleteResults lib (None # ps) seen results = Inl (protocolError ''Delete'' ''result is empty'')"
| "decodeDeleteResults lib (Some p # ps) seen results =
     (case validateResultIndex ''Delete'' (pbDeleteResult_OperationIndex p) seen of
        Inl err \<Rightarrow> Inl err
      | Inr (index, seen') \<Rightarrow>
          (case deleteResultFromProto lib index p of
             Inl err \<Rightarrow> Inl err
           | Inr result \<Rightarrow> decodeDeleteResults lib ps seen' (results[index := result])))"

definition empty_DeleteResult :: DeleteResult where
  "empty_DeleteResult = \<lparr>dr_OperationIndex = 0, dr_Status = 0, dr_Failure = None\<rparr>"

definition decodeDeleteResponse ::
  "'v lib \<Rightarrow> pbDeleteResponse option \<Rightarrow> nat \<Rightarrow> DeleteResult list result" where
  "decodeDeleteResponse lib response cnt =
     (case response of
        None \<Rightarrow> Inl (protocolError ''Delete'' ''response is empty'')
      | Some r \<Rightarrow>
          if length (pbDeleteResponse_Results r) \<noteq> cnt
          then Inl (count_mismatch ''Delete'' (length (pbDeleteResponse_Results r)) cnt)
          else decodeDeleteResults lib (pbDeleteResponse_Results r) (replicate cnt False)
                 (replicate cnt empty_DeleteResult))"

section \<open>The decoding loop, once\<close>

text \<open>
  What the loop promises: it accepts a list of results exactly when none is nil, their
  operation indexes are distinct, in range and not yet seen, and each converts; the output
  then holds every converted result at its operation's index.
\<close>

locale result_loop =
  fixes loop :: "'p option list \<Rightarrow> bool list \<Rightarrow> 'r list \<Rightarrow> 'r list result"
    and rpc :: bytes
    and opindex :: "'p \<Rightarrow> uint32w"
    and build :: "nat \<Rightarrow> 'p \<Rightarrow> 'r result"
  assumes loop_Nil: "loop [] seen results = Inr results"
    and loop_nil: "\<exists>e. loop (None # ps) seen results = Inl e"
    and loop_Some: "loop (Some p # ps) seen results =
      (case validateResultIndex rpc (opindex p) seen of
         Inl err \<Rightarrow> Inl err
       | Inr (index, seen') \<Rightarrow>
           (case build index p of
              Inl err \<Rightarrow> Inl err
            | Inr result \<Rightarrow> loop ps seen' (results[index := result])))"
begin

lemma loop_InrI:
  assumes "distinct (map (\<lambda>q. unat (opindex q)) qs)"
    and "\<forall>q\<in>set qs. unat (opindex q) < length seen \<and> \<not> seen ! unat (opindex q)
           \<and> build (unat (opindex q)) q = Inr (f q)"
  shows "loop (map Some qs) seen results = Inr (foldl (\<lambda>rs q. rs[unat (opindex q) := f q]) results qs)"
  using assms
proof (induction qs arbitrary: seen results)
  case Nil
  then show ?case by (simp add: loop_Nil)
next
  case (Cons q qs)
  let ?i = "unat (opindex q)"
  have "validateResultIndex rpc (opindex q) seen = Inr (?i, seen[?i := True])"
    using Cons.prems(2) by (simp add: validateResultIndex_def)
  moreover have "build ?i q = Inr (f q)" using Cons.prems(2) by simp
  moreover have "loop (map Some qs) (seen[?i := True]) (results[?i := f q])
      = Inr (foldl (\<lambda>rs q. rs[unat (opindex q) := f q]) (results[?i := f q]) qs)"
    using Cons.prems by (intro Cons.IH) (auto simp: nth_list_update)
  ultimately show ?case by (simp add: loop_Some)
qed

lemma loop_InrD:
  assumes "loop ps seen results = Inr out"
  shows "\<exists>qs f. ps = map Some qs \<and> distinct (map (\<lambda>q. unat (opindex q)) qs)
     \<and> (\<forall>q\<in>set qs. unat (opindex q) < length seen \<and> \<not> seen ! unat (opindex q)
           \<and> build (unat (opindex q)) q = Inr (f q))
     \<and> out = foldl (\<lambda>rs q. rs[unat (opindex q) := f q]) results qs"
  using assms
proof (induction ps arbitrary: seen results)
  case Nil
  then show ?case by (simp add: loop_Nil)
next
  case (Cons p ps)
  obtain q where p: "p = Some q"
    using Cons.prems loop_nil [of ps seen results] by (cases p) auto
  let ?i = "unat (opindex q)"
  obtain r where v: "?i < length seen" "\<not> seen ! ?i" and b: "build ?i q = Inr r"
    and l: "loop ps (seen[?i := True]) (results[?i := r]) = Inr out"
    using Cons.prems p by (auto simp: loop_Some validateResultIndex_def split: sum.splits if_splits)
  obtain qs f where ps: "ps = map Some qs" "distinct (map (\<lambda>q. unat (opindex q)) qs)"
    and ok: "\<forall>x\<in>set qs. unat (opindex x) < length seen \<and> \<not> seen[?i := True] ! unat (opindex x)
               \<and> build (unat (opindex x)) x = Inr (f x)"
    and out: "out = foldl (\<lambda>rs q. rs[unat (opindex q) := f q]) (results[?i := r]) qs"
    using Cons.IH [OF l] by auto
  have fresh: "\<forall>x\<in>set qs. unat (opindex x) \<noteq> ?i"
    using ok v by (metis nth_list_update_eq)
  have ok_seen: "\<forall>x\<in>set qs. unat (opindex x) < length seen \<and> \<not> seen ! unat (opindex x)
               \<and> build (unat (opindex x)) x = Inr (f x)"
    using ok fresh by (metis nth_list_update_neq)
  have "foldl (\<lambda>rs x. rs[unat (opindex x) := (f(q := r)) x]) rs0 qs
      = foldl (\<lambda>rs x. rs[unat (opindex x) := f x]) rs0 qs" for rs0
    using fresh by (intro foldl_cong) auto
  then have "p # ps = map Some (q # qs) \<and> distinct (map (\<lambda>q. unat (opindex q)) (q # qs))
     \<and> (\<forall>x\<in>set (q # qs). unat (opindex x) < length seen \<and> \<not> seen ! unat (opindex x)
           \<and> build (unat (opindex x)) x = Inr ((f(q := r)) x))
     \<and> out = foldl (\<lambda>rs x. rs[unat (opindex x) := (f(q := r)) x]) results (q # qs)"
    using p ps out v b fresh ok_seen by auto
  then show ?case
    by (intro exI [of _ "q # qs"] exI [of _ "f(q := r)"])
qed

lemma foldl_update_length [simp]:
  "length (foldl (\<lambda>rs q. rs[g q := f q]) results qs) = length results"
  by (induction qs arbitrary: results) auto

lemma foldl_update_other:
  "i \<notin> g ` set qs \<Longrightarrow> foldl (\<lambda>rs q. rs[g q := f q]) results qs ! i = results ! i"
  by (induction qs arbitrary: results) auto

lemma foldl_update_nth:
  assumes "distinct (map g qs)" and "q \<in> set qs" and "g q < length results"
  shows "foldl (\<lambda>rs q. rs[g q := f q]) results qs ! g q = f q"
  using assms
proof (induction qs arbitrary: results)
  case (Cons x qs)
  then show ?case
  proof (cases "q = x")
    case True
    then have "g q \<notin> g ` set qs" using Cons.prems(1) by auto
    then show ?thesis using True Cons.prems(3) by (simp add: foldl_update_other)
  next
    case False
    then show ?thesis using Cons by simp
  qed
qed simp

text \<open>
  From a fresh start a response with as many results as operations covers every operation
  exactly once.
\<close>

lemma decode_complete:
  assumes "loop ps (replicate n False) (replicate n d) = Inr out" and "length ps = n"
  shows "length out = n"
    and "distinct (map (\<lambda>p. unat (opindex (the p))) ps)"
    and "\<forall>i<n. \<exists>q. Some q \<in> set ps \<and> unat (opindex q) = i \<and> build i q = Inr (out ! i)"
proof -
  obtain qs f where ps: "ps = map Some qs" and dist: "distinct (map (\<lambda>q. unat (opindex q)) qs)"
    and ok: "\<forall>q\<in>set qs. unat (opindex q) < n \<and> build (unat (opindex q)) q = Inr (f q)"
    and out: "out = foldl (\<lambda>rs q. rs[unat (opindex q) := f q]) (replicate n d) qs"
    using loop_InrD [OF assms(1)] by auto
  show "length out = n" by (simp add: out)
  show "distinct (map (\<lambda>p. unat (opindex (the p))) ps)"
    using dist by (simp add: ps comp_def)
  have "(\<lambda>q. unat (opindex q)) ` set qs = {..<n}"
  proof (rule card_subset_eq)
    show "(\<lambda>q. unat (opindex q)) ` set qs \<subseteq> {..<n}" using ok by auto
    show "card ((\<lambda>q. unat (opindex q)) ` set qs) = card {..<n}"
      using distinct_card [OF dist] assms(2) ps by simp
  qed simp
  then have cover: "\<exists>q\<in>set qs. i = unat (opindex q)" if "i < n" for i
    using that by (metis (mono_tags, lifting) imageE lessThan_iff)
  show "\<forall>i<n. \<exists>q. Some q \<in> set ps \<and> unat (opindex q) = i \<and> build i q = Inr (out ! i)"
  proof (intro allI impI)
    fix i assume "i < n"
    then obtain q where q: "q \<in> set qs" "i = unat (opindex q)" using cover by blast
    then have "out ! i = f q"
      unfolding out using ok q foldl_update_nth [OF dist q(1), of "replicate n d" f] by simp
    then show "\<exists>q. Some q \<in> set ps \<and> unat (opindex q) = i \<and> build i q = Inr (out ! i)"
      using q ok by (auto simp: ps)
  qed
qed

text \<open>The server may list the results in any order.\<close>

lemma decode_permute:
  assumes "loop ps (replicate n False) (replicate n d) = Inr out" and "length ps = n"
    and "mset ps' = mset ps"
  shows "loop ps' (replicate n False) (replicate n d) = Inr out"
proof -
  obtain qs f where ps: "ps = map Some qs" and dist: "distinct (map (\<lambda>q. unat (opindex q)) qs)"
    and ok: "\<forall>q\<in>set qs. unat (opindex q) < n \<and> build (unat (opindex q)) q = Inr (f q)"
    and out: "out = foldl (\<lambda>rs q. rs[unat (opindex q) := f q]) (replicate n d) qs"
    using loop_InrD [OF assms(1)] by auto
  define qs' where "qs' = map the ps'"
  have set_ps': "set ps' = set ps" using assms(3) by (metis set_mset_mset)
  then have ps': "ps' = map Some qs'"
    unfolding qs'_def by (intro map_Some_the [symmetric]) (auto simp: ps)
  have "mset qs' = image_mset the (mset ps)" by (simp add: qs'_def assms(3))
  then have mset_qs: "mset qs' = mset qs" by (simp add: ps flip: mset_map)
  then have dist': "distinct (map (\<lambda>q. unat (opindex q)) qs')"
    using dist by (metis mset_eq_imp_distinct_iff mset_map)
  have "set qs' = set qs" using mset_qs by (metis set_mset_mset)
  then have ok': "\<forall>q\<in>set qs'. unat (opindex q) < n \<and> build (unat (opindex q)) q = Inr (f q)"
    using ok by simp
  let ?out' = "foldl (\<lambda>rs q. rs[unat (opindex q) := f q]) (replicate n d) qs'"
  have out': "loop ps' (replicate n False) (replicate n d) = Inr ?out'"
    unfolding ps' using dist' ok' by (intro loop_InrI) auto
  have len': "length ps' = n" using assms(2,3) by (metis size_mset)
  have "?out' = out"
  proof (rule nth_equalityI)
    show "length ?out' = length out" by (simp add: out)
    fix i assume "i < length ?out'"
    then have i: "i < n" by simp
    obtain q where "Some q \<in> set ps'" "unat (opindex q) = i" "build i q = Inr (?out' ! i)"
      using decode_complete(3) [OF out' len'] i by blast
    moreover obtain q' where "Some q' \<in> set ps" "unat (opindex q') = i" "build i q' = Inr (out ! i)"
      using decode_complete(3) [OF assms(1,2)] i by blast
    moreover have "q = q'" if "q \<in> set qs" "q' \<in> set qs" "unat (opindex q) = unat (opindex q')"
      using dist that by (meson distinct_map inj_onD)
    ultimately show "?out' ! i = out ! i"
      using set_ps' ps by (auto simp: image_iff)
  qed
  then show ?thesis using out' by simp
qed

text \<open>A response that answers every operation is accepted, in whatever order.\<close>

lemma decode_all:
  assumes "\<forall>i<n. unat (opindex (qs ! i)) = i \<and> build i (qs ! i) = Inr (rs ! i)"
    and "length qs = n" and "length rs = n" and "mset ps = mset (map Some qs)"
  shows "loop ps (replicate n False) (replicate n d) = Inr rs"
proof (rule decode_permute [OF _ _ assms(4)])
  define f where "f q = rs ! unat (opindex q)" for q
  have idx: "map (\<lambda>q. unat (opindex q)) qs = [0..<n]" using assms by (intro nth_equalityI) auto
  have ok: "\<forall>q\<in>set qs. unat (opindex q) < n \<and> build (unat (opindex q)) q = Inr (f q)"
    using assms by (auto simp: in_set_conv_nth f_def)
  have "foldl (\<lambda>rs q. rs[unat (opindex q) := f q]) (replicate n d) qs = rs" (is "?out = rs")
  proof (rule nth_equalityI)
    fix i assume "i < length ?out"
    then have i: "i < n" by simp
    then have "?out ! unat (opindex (qs ! i)) = f (qs ! i)"
      using assms idx by (intro foldl_update_nth) auto
    then show "?out ! i = rs ! i" using assms i by (simp add: f_def)
  qed (simp add: assms)
  then show "loop (map Some qs) (replicate n False) (replicate n d) = Inr rs"
    using loop_InrI [of qs "replicate n False" f "replicate n d"] ok idx by simp
qed (simp add: assms)

end

interpretation read_loop: result_loop "decodeReadResults lib" "''Read''" pbReadResult_OperationIndex
    "readResultFromProto lib" for lib :: "'v lib"
  by unfold_locales auto

interpretation write_loop: result_loop "decodeWriteResults lib" "''Write''" pbWriteResult_OperationIndex
    "writeResultFromProto lib" for lib :: "'v lib"
  by unfold_locales auto

interpretation delete_loop: result_loop "decodeDeleteResults lib" "''Delete''" pbDeleteResult_OperationIndex
    "deleteResultFromProto lib" for lib :: "'v lib"
  by unfold_locales auto

section \<open>Properties\<close>

text \<open>
  C20: a response is decoded only when it is complete. Decoding succeeds with \<open>n\<close> results only if the response
  holds exactly \<open>n\<close> results with distinct operation indexes, and result \<open>i\<close> of the output is the conversion of the one
  with index \<open>i\<close>.
\<close>

theorem decodeReadResponse_complete:
  assumes "decodeReadResponse lib response n = Inr rs"
  shows "\<exists>r. response = Some r \<and> length (pbReadResponse_Results r) = n \<and> length rs = n
    \<and> distinct (map (\<lambda>p. unat (pbReadResult_OperationIndex (the p))) (pbReadResponse_Results r))
    \<and> (\<forall>i<n. \<exists>q. Some q \<in> set (pbReadResponse_Results r) \<and> unat (pbReadResult_OperationIndex q) = i
          \<and> readResultFromProto lib i q = Inr (rs ! i))"
proof -
  obtain r where r: "response = Some r" and l: "length (pbReadResponse_Results r) = n"
    and d: "decodeReadResults lib (pbReadResponse_Results r) (replicate n False)
      (replicate n empty_ReadResult) = Inr rs"
    using assms by (auto simp: decodeReadResponse_def split: option.splits if_splits)
  show ?thesis using r l read_loop.decode_complete [OF d l] by blast
qed

definition ex_lookup :: "uint32w \<Rightarrow> pbReadResult" where
  "ex_lookup i = \<lparr>pbReadResult_OperationIndex = i, pbReadResult_Status = ReadNotFound, pbReadResult_Document = None,
     pbReadResult_Revision = None, pbReadResult_Failure = None, pbReadResult_unknownFields = []\<rparr>"

definition ex_decoded :: "int \<Rightarrow> ReadResult" where
  "ex_decoded i = empty_ReadResult\<lparr>rr_OperationIndex := i, rr_Status := ReadNotFound\<rparr>"

lemma ex_decode:
  "decodeReadResponse lib (Some \<lparr>pbReadResponse_Results = [Some (ex_lookup 1), Some (ex_lookup 0)],
     pbReadResponse_unknownFields = []\<rparr>) 2 = Inr [ex_decoded 0, ex_decoded 1]"
  by (simp add: decodeReadResponse_def validateResultIndex_def readResultFromProto_def ex_lookup_def ex_decoded_def
      empty_ReadResult_def numeral_2_eq_2)

theorem decodeReadResponse_complete_witness:
  "\<exists>r. Some \<lparr>pbReadResponse_Results = [Some (ex_lookup 1), Some (ex_lookup 0)], pbReadResponse_unknownFields = []\<rparr> = Some r
    \<and> length (pbReadResponse_Results r) = 2 \<and> length [ex_decoded 0, ex_decoded 1] = 2
    \<and> distinct (map (\<lambda>p. unat (pbReadResult_OperationIndex (the p))) (pbReadResponse_Results r))"
  using decodeReadResponse_complete [OF ex_decode] by blast

text \<open>
  C30: the order in which the server lists its results does not matter: any permutation of an accepted response
  decodes to the same results, for reads, writes and deletes.
\<close>

theorem decode_order_irrelevant:
  shows "(mset ps' = mset ps \<and>
      decodeReadResponse lib (Some \<lparr>pbReadResponse_Results = ps, pbReadResponse_unknownFields = u\<rparr>) n = Inr rs \<longrightarrow>
      decodeReadResponse lib (Some \<lparr>pbReadResponse_Results = ps', pbReadResponse_unknownFields = u\<rparr>) n = Inr rs)
    \<and> (mset qs' = mset qs \<and>
      decodeWriteResponse lib (Some \<lparr>pbWriteResponse_Results = qs, pbWriteResponse_unknownFields = u\<rparr>) n = Inr ws \<longrightarrow>
      decodeWriteResponse lib (Some \<lparr>pbWriteResponse_Results = qs', pbWriteResponse_unknownFields = u\<rparr>) n = Inr ws)
    \<and> (mset ds' = mset ds \<and>
      decodeDeleteResponse lib (Some \<lparr>pbDeleteResponse_Results = ds, pbDeleteResponse_unknownFields = u\<rparr>) n = Inr xs \<longrightarrow>
      decodeDeleteResponse lib (Some \<lparr>pbDeleteResponse_Results = ds', pbDeleteResponse_unknownFields = u\<rparr>) n = Inr xs)"
  by (auto simp: decodeReadResponse_def decodeWriteResponse_def decodeDeleteResponse_def
      intro: read_loop.decode_permute write_loop.decode_permute delete_loop.decode_permute
      dest: mset_eq_length split: if_splits)

theorem decode_order_irrelevant_witness:
  "\<forall>lib :: unit lib. decodeReadResponse lib (Some \<lparr>pbReadResponse_Results = [Some (ex_lookup 0), Some (ex_lookup 1)],
     pbReadResponse_unknownFields = []\<rparr>) 2 = Inr [ex_decoded 0, ex_decoded 1]"
proof
  fix lib :: "unit lib"
  have "mset [Some (ex_lookup 0), Some (ex_lookup 1)] = mset [Some (ex_lookup 1), Some (ex_lookup 0)]"
    by (simp add: add_mset_commute)
  from decode_order_irrelevant [THEN conjunct1, rule_format, OF conjI, OF this ex_decode]
  show "decodeReadResponse lib (Some \<lparr>pbReadResponse_Results = [Some (ex_lookup 0), Some (ex_lookup 1)],
     pbReadResponse_unknownFields = []\<rparr>) 2 = Inr [ex_decoded 0, ex_decoded 1]" .
qed

end
