(* ===== verification/Go_Float.thy ===== *)
theory Go_Float
  imports Complex_Main "HOL-Library.Log_Nat"
begin

text \<open>
  IEEE 754 binary64 as Go's \<^verbatim>\<open>float64\<close>: a value is NaN, an infinity or a rational, and every
  operation is the exact result rounded to nearest, ties to even, with 53 significant bits,
  subnormals below \<^verbatim>\<open>2^-1022\<close> and overflow to infinity. Signed zeros are not distinguished.
  The lemmas give what the backoff computation rests on: rounding is monotone and leaves
  representable numbers, in particular integers up to \<^verbatim>\<open>2^53\<close>, unchanged, and its error is at most half a unit in the last place.
\<close>

datatype float64 = NaN | PInf | NInf | Fin rat

section \<open>Rounding to nearest, ties to even\<close>

definition rhe :: "rat \<Rightarrow> int" where
  "rhe r = (let f = \<lfloor>r\<rfloor>; d = r - of_int f
            in if d < 1/2 then f else if d > 1/2 then f + 1 else if even f then f else f + 1)"

lemma rhe_of_int [simp]: "rhe (of_int n) = n"
  by (simp add: rhe_def)

lemma rhe_floor: "\<lfloor>r\<rfloor> \<le> rhe r" "rhe r \<le> \<lfloor>r\<rfloor> + 1"
  by (auto simp: rhe_def Let_def)

lemma rhe_mono: "r \<le> s \<Longrightarrow> rhe r \<le> rhe s"
proof (cases "\<lfloor>r\<rfloor> = \<lfloor>s\<rfloor>")
  case True
  assume "r \<le> s"
  with True show ?thesis by (auto simp: rhe_def Let_def)
next
  case False
  assume "r \<le> s"
  then have "\<lfloor>r\<rfloor> < \<lfloor>s\<rfloor>" using False floor_mono [of r s] by linarith
  then show ?thesis using rhe_floor(2) [of r] rhe_floor(1) [of s] by linarith
qed

section \<open>Exponents\<close>

text \<open>The exponent of the leading bit of a positive rational.\<close>

definition flog2 :: "rat \<Rightarrow> int" where
  "flog2 x = (let (p, q) = quotient_of x; k = int (floorlog 2 (nat p)) - int (floorlog 2 (nat q))
              in if 2 powi k \<le> x then k else k - 1)"

lemma floorlog_nat_bounds:
  fixes n :: nat
  assumes "0 < n"
  shows "2 ^ (floorlog 2 n - 1) \<le> n" "n < 2 ^ floorlog 2 n" "0 < floorlog 2 n"
  using floorlog_bounds [of n 2] assms by (auto simp: floorlog_def split: if_splits)

lemma bitlength_rat:
  assumes "0 < p"
  shows "(2::rat) powi (int (floorlog 2 (nat p)) - 1) \<le> of_int p"
    and "(of_int p :: rat) < 2 powi int (floorlog 2 (nat p))"
proof -
  let ?n = "nat p" and ?a = "floorlog 2 (nat p)"
  have n: "0 < ?n" "(of_int p :: rat) = of_nat ?n" using assms by auto
  have a: "int ?a - 1 = int (?a - 1)" using floorlog_nat_bounds(3) [OF n(1)] by simp
  have "(of_nat (2 ^ (?a - 1)) :: rat) \<le> of_nat ?n"
    using floorlog_nat_bounds(1) [OF n(1)] by (simp only: of_nat_le_iff)
  then show "(2::rat) powi (int ?a - 1) \<le> of_int p"
    by (simp add: n(2) a power_int_of_nat)
  have "(of_nat ?n :: rat) < of_nat (2 ^ ?a)"
    using floorlog_nat_bounds(2) [OF n(1)] by (simp only: of_nat_less_iff)
  then show "(of_int p :: rat) < 2 powi int ?a"
    by (simp add: n(2) power_int_of_nat)
qed

lemma two_powi_diff: "(2::rat) powi (i - j) = 2 powi i / 2 powi j"
  by (simp add: power_int_diff)

lemma flog2_bounds:
  assumes "0 < x"
  shows "2 powi flog2 x \<le> x \<and> x < 2 powi (flog2 x + 1)"
proof -
  obtain p q where pq: "quotient_of x = (p, q)" by (cases "quotient_of x")
  have q0: "0 < q" using pq by (rule quotient_of_denom_pos)
  have x: "x = of_int p / of_int q" using pq by (rule quotient_of_div)
  with assms q0 have p0: "0 < p" by (simp add: zero_less_divide_iff)
  define a b where "a = int (floorlog 2 (nat p))" and "b = int (floorlog 2 (nat q))"
  note P = bitlength_rat [OF p0, folded a_def] and Q = bitlength_rat [OF q0, folded b_def]
  have "2 powi (a - 1) / 2 powi b < (of_int p / of_int q :: rat)"
    using P(1) Q(2) q0 p0 by (intro frac_less2) auto
  then have lo: "2 powi (a - b - 1) \<le> x"
    by (simp add: x two_powi_diff field_simps power_int_add)
  have "(of_int p / of_int q :: rat) < 2 powi a / 2 powi (b - 1)"
    using P(2) Q(1) p0 q0 by (intro frac_less) auto
  then have hi: "x < 2 powi (a - b + 1)"
    by (simp add: x two_powi_diff field_simps power_int_add)
  have f: "flog2 x = (if 2 powi (a - b) \<le> x then a - b else a - b - 1)"
    by (simp add: flog2_def pq a_def b_def)
  show ?thesis
    using lo hi by (auto simp: f not_le)
qed

lemma two_powi_mono: "i \<le> j \<Longrightarrow> (2::rat) powi i \<le> 2 powi j"
  by (rule power_int_increasing) auto

lemma two_powi_less_iff: "(2::rat) powi i < 2 powi j \<longleftrightarrow> i < j"
  by (meson not_le power_int_strict_increasing two_powi_mono one_less_numeral_iff semiring_norm(76) leD)

lemma flog2_unique: "2 powi e \<le> x \<Longrightarrow> x < 2 powi (e + 1) \<Longrightarrow> flog2 x = e"
proof -
  assume e: "2 powi e \<le> x" "x < 2 powi (e + 1)"
  then have "0 < x" by (meson less_le_trans zero_less_numeral zero_less_power_int)
  note f = flog2_bounds [OF this]
  from e f have "(2::rat) powi e < 2 powi (flog2 x + 1)" "(2::rat) powi flog2 x < 2 powi (e + 1)"
    by (auto intro: le_less_trans)
  then show ?thesis by (simp add: two_powi_less_iff)
qed

lemma flog2_mono:
  assumes "0 < x" and "x \<le> y"
  shows "flog2 x \<le> flog2 y"
proof -
  have "(2::rat) powi flog2 x < 2 powi (flog2 y + 1)"
    using flog2_bounds [of x] flog2_bounds [of y] assms by (meson le_less_trans less_le_trans order_trans)
  then show ?thesis by (simp add: two_powi_less_iff)
qed

section \<open>Rounding a positive rational\<close>

definition ulp_exp :: "rat \<Rightarrow> int" where
  "ulp_exp x = max (flog2 x - 52) (- 1074)"

definition round_pos :: "rat \<Rightarrow> rat" where
  "round_pos x = (let u = ulp_exp x in of_int (rhe (x / 2 powi u)) * 2 powi u)"

definition f64_round :: "rat \<Rightarrow> float64" where
  "f64_round x =
     (if x = 0 then Fin 0
      else let r = round_pos \<bar>x\<bar>
           in if r \<ge> 2 powi 1024 then (if x > 0 then PInf else NInf)
              else Fin (if x > 0 then r else - r))"

lemma round_pos_exact:
  assumes "x = of_int m * 2 powi ulp_exp x"
  shows "round_pos x = x"
proof -
  have "x / 2 powi ulp_exp x = of_int m" by (subst (1) assms) simp
  then show ?thesis using assms by (simp add: round_pos_def Let_def)
qed

text \<open>A power of two that is a multiple of the rounding unit bounds the rounded value.\<close>

lemma round_pos_le_pow:
  assumes "x \<le> 2 powi e" and "ulp_exp x \<le> e"
  shows "round_pos x \<le> 2 powi e"
proof -
  let ?u = "ulp_exp x"
  have k: "(2::rat) powi (e - ?u) = of_int (2 ^ nat (e - ?u))"
    using assms(2) by (simp add: power_int_def)
  have "x / 2 powi ?u \<le> of_int (2 ^ nat (e - ?u))"
    unfolding k [symmetric] two_powi_diff using assms(1) by (rule divide_right_mono) simp
  then have "rhe (x / 2 powi ?u) \<le> 2 ^ nat (e - ?u)"
    using rhe_mono rhe_of_int by metis
  then have "(of_int (rhe (x / 2 powi ?u)) :: rat) \<le> of_int (2 ^ nat (e - ?u))"
    by (simp only: of_int_le_iff)
  then have "of_int (rhe (x / 2 powi ?u)) * 2 powi ?u \<le> (2::rat) powi (e - ?u) * 2 powi ?u"
    unfolding k by (rule mult_right_mono) simp
  then show ?thesis by (simp add: round_pos_def Let_def two_powi_diff)
qed

lemma round_pos_ge_pow:
  assumes "2 powi e \<le> x" and "ulp_exp x \<le> e"
  shows "2 powi e \<le> round_pos x"
proof -
  let ?u = "ulp_exp x"
  have k: "(2::rat) powi (e - ?u) = of_int (2 ^ nat (e - ?u))"
    using assms(2) by (simp add: power_int_def)
  have "of_int (2 ^ nat (e - ?u)) \<le> x / 2 powi ?u"
    unfolding k [symmetric] two_powi_diff using assms(1) by (rule divide_right_mono) simp
  then have "2 ^ nat (e - ?u) \<le> rhe (x / 2 powi ?u)"
    using rhe_mono rhe_of_int by metis
  then have "(of_int (2 ^ nat (e - ?u)) :: rat) \<le> of_int (rhe (x / 2 powi ?u))"
    by (simp only: of_int_le_iff)
  then have "(2::rat) powi (e - ?u) * 2 powi ?u \<le> of_int (rhe (x / 2 powi ?u)) * 2 powi ?u"
    unfolding k by (rule mult_right_mono) simp
  then show ?thesis by (simp add: round_pos_def Let_def two_powi_diff)
qed

lemma round_pos_mono:
  assumes "0 < x" and "x \<le> y"
  shows "round_pos x \<le> round_pos y"
proof (cases "ulp_exp x = ulp_exp y")
  case True
  have "x / 2 powi ulp_exp y \<le> y / 2 powi ulp_exp y"
    using assms(2) by (simp add: divide_right_mono)
  then have "rhe (x / 2 powi ulp_exp y) \<le> rhe (y / 2 powi ulp_exp y)" by (rule rhe_mono)
  then show ?thesis by (simp add: round_pos_def Let_def True mult_right_mono)
next
  case False
  have fm: "flog2 x \<le> flog2 y" using assms by (rule flog2_mono)
  then have u: "ulp_exp y = flog2 y - 52" "ulp_exp x < flog2 y" "flog2 x + 1 \<le> flog2 y"
    using False by (auto simp: ulp_exp_def)
  have "x \<le> 2 powi flog2 y"
    using flog2_bounds [OF assms(1)] two_powi_mono [OF u(3)] by linarith
  then have "round_pos x \<le> 2 powi flog2 y"
    using u(2) by (intro round_pos_le_pow) auto
  moreover have "2 powi flog2 y \<le> round_pos y"
    using flog2_bounds [of y] assms u(1) by (intro round_pos_ge_pow) auto
  ultimately show ?thesis by linarith
qed

section \<open>Operations\<close>

definition f64_of_int :: "int \<Rightarrow> float64" where
  "f64_of_int n = f64_round (of_int n)"

definition f64_sgn_inf :: "bool \<Rightarrow> float64" where
  "f64_sgn_inf positive = (if positive then PInf else NInf)"

fun f64_neg :: "float64 \<Rightarrow> float64" where
  "f64_neg NaN = NaN"
| "f64_neg PInf = NInf"
| "f64_neg NInf = PInf"
| "f64_neg (Fin x) = Fin (- x)"

fun f64_add :: "float64 \<Rightarrow> float64 \<Rightarrow> float64" where
  "f64_add (Fin x) (Fin y) = f64_round (x + y)"
| "f64_add NaN b = NaN"
| "f64_add a NaN = NaN"
| "f64_add PInf NInf = NaN"
| "f64_add NInf PInf = NaN"
| "f64_add PInf b = PInf"
| "f64_add NInf b = NInf"
| "f64_add a PInf = PInf"
| "f64_add a NInf = NInf"

definition f64_sub :: "float64 \<Rightarrow> float64 \<Rightarrow> float64" where
  "f64_sub a b = f64_add a (f64_neg b)"

fun f64_mult :: "float64 \<Rightarrow> float64 \<Rightarrow> float64" where
  "f64_mult (Fin x) (Fin y) = f64_round (x * y)"
| "f64_mult NaN b = NaN"
| "f64_mult a NaN = NaN"
| "f64_mult PInf (Fin y) = (if y = 0 then NaN else f64_sgn_inf (y > 0))"
| "f64_mult (Fin x) PInf = (if x = 0 then NaN else f64_sgn_inf (x > 0))"
| "f64_mult NInf (Fin y) = (if y = 0 then NaN else f64_sgn_inf (y < 0))"
| "f64_mult (Fin x) NInf = (if x = 0 then NaN else f64_sgn_inf (x < 0))"
| "f64_mult PInf PInf = PInf"
| "f64_mult NInf NInf = PInf"
| "f64_mult PInf NInf = NInf"
| "f64_mult NInf PInf = NInf"

fun f64_div :: "float64 \<Rightarrow> float64 \<Rightarrow> float64" where
  "f64_div (Fin x) (Fin y) =
     (if y = 0 then (if x = 0 then NaN else f64_sgn_inf (x > 0)) else f64_round (x / y))"
| "f64_div NaN b = NaN"
| "f64_div a NaN = NaN"
| "f64_div PInf (Fin y) = f64_sgn_inf (y \<ge> 0)"
| "f64_div NInf (Fin y) = f64_sgn_inf (y < 0)"
| "f64_div (Fin x) b = Fin 0"
| "f64_div a b = NaN"

lemma f64_mult_NaN [simp]: "f64_mult a NaN = NaN"
  by (cases a) auto

text \<open>Comparisons with NaN are false.\<close>

fun f64_less :: "float64 \<Rightarrow> float64 \<Rightarrow> bool" where
  "f64_less (Fin x) (Fin y) = (x < y)"
| "f64_less NInf (Fin y) = True"
| "f64_less NInf PInf = True"
| "f64_less (Fin x) PInf = True"
| "f64_less a b = False"

definition f64_eq :: "float64 \<Rightarrow> float64 \<Rightarrow> bool" where
  "f64_eq a b = (a \<noteq> NaN \<and> a = b)"

definition f64_leq :: "float64 \<Rightarrow> float64 \<Rightarrow> bool" where
  "f64_leq a b = (f64_less a b \<or> f64_eq a b)"

text \<open>
  \<^verbatim>\<open>int64(x)\<close> truncates towards zero. For NaN, infinities and values outside the range the
  language leaves the result to the implementation: the function \<open>oob\<close>.
\<close>

definition f64_to_int64 :: "(float64 \<Rightarrow> int) \<Rightarrow> float64 \<Rightarrow> int" where
  "f64_to_int64 oob a =
     (case a of
        Fin x \<Rightarrow>
          (let t = (if x < 0 then - \<lfloor>- x\<rfloor> else \<lfloor>x\<rfloor>)
           in if - (2 ^ 63) \<le> t \<and> t < 2 ^ 63 then t else oob a)
      | _ \<Rightarrow> oob a)"

definition is_f64 :: "float64 \<Rightarrow> bool" where
  "is_f64 a = (case a of Fin x \<Rightarrow> f64_round x = Fin x | _ \<Rightarrow> True)"

section \<open>Small integers are exact and rounding keeps bounds\<close>

lemma f64_round_pos: "0 < x \<Longrightarrow> f64_round x = (if round_pos x \<ge> 2 powi 1024 then PInf else Fin (round_pos x))"
  by (simp add: f64_round_def Let_def)

lemma round_pos_int:
  assumes "0 < n" and "n \<le> 2 ^ 53"
  shows "round_pos (of_int n) = of_int n"
proof (cases "n = 2 ^ 53")
  case True
  have fl: "flog2 (of_int n) = 53"
    by (rule flog2_unique) (simp_all add: True)
  show ?thesis
    using fl by (intro round_pos_exact [of _ "2 ^ 52"]) (simp add: ulp_exp_def True)
next
  case False
  let ?e = "flog2 (of_int n)"
  have b: "2 powi ?e \<le> (of_int n :: rat)" using flog2_bounds [of "of_int n"] assms by simp
  have "(of_int n :: rat) < of_int (2 ^ 53)"
    using False assms(2) by (simp only: of_int_less_iff)
  then have "(2::rat) powi ?e < 2 powi 53" using b by simp
  then have e: "?e \<le> 52" unfolding two_powi_less_iff by simp
  have "(1::rat) \<le> of_int n" using assms(1) by simp
  then have "(2::rat) powi 0 < 2 powi (?e + 1)"
    using flog2_bounds [of "of_int n"] assms by (auto intro: le_less_trans)
  then have e0: "0 \<le> ?e" unfolding two_powi_less_iff by simp
  have u: "ulp_exp (of_int n) = - (52 - ?e)" using e e0 by (simp add: ulp_exp_def)
  have "(of_int n :: rat) = of_int (n * 2 ^ nat (52 - ?e)) * 2 powi (- (52 - ?e))"
    using e by (simp add: power_int_minus power_int_def power_one_over)
  then show ?thesis unfolding u [symmetric] by (rule round_pos_exact)
qed

lemma f64_of_int_exact:
  assumes "0 \<le> n" and "n \<le> 2 ^ 53"
  shows "f64_of_int n = Fin (of_int n)"
proof (cases "n = 0")
  case False
  then have "round_pos (of_int n) = of_int n" using assms by (intro round_pos_int) auto
  moreover have "(of_int n :: rat) < 2 powi 1024"
  proof -
    have "(of_int n :: rat) \<le> of_int (2 ^ 53)" using assms(2) by (simp only: of_int_le_iff)
    also have "\<dots> < 2 powi 1024"
      using two_powi_less_iff [of 53 1024] by simp
    finally show ?thesis .
  qed
  ultimately show ?thesis
    using False assms by (simp add: f64_of_int_def f64_round_pos)
qed (simp add: f64_of_int_def f64_round_def)

text \<open>Rounding a number between two representable numbers gives a number between them.\<close>

lemma f64_round_between:
  assumes "f64_round a = Fin a" and "f64_round b = Fin b" and "0 \<le> a" and "a \<le> x" and "x \<le> b"
  obtains y where "f64_round x = Fin y" "a \<le> y" "y \<le> b"
proof (cases "x = 0")
  case True
  then show ?thesis using that [of 0] assms by (simp add: f64_round_def)
next
  case False
  then have x: "0 < x" "0 < b" using assms by auto
  have b: "round_pos b = b" "b < 2 powi 1024"
    using assms(2) x by (auto simp: f64_round_pos split: if_splits)
  have "round_pos x \<le> b" using round_pos_mono [OF x(1) assms(5)] b by simp
  moreover have "a \<le> round_pos x"
  proof (cases "a = 0")
    case True
    have "0 \<le> rhe (x / 2 powi ulp_exp x)" using rhe_mono [of 0 "x / 2 powi ulp_exp x"] rhe_of_int [of 0] x by simp
    then show ?thesis by (simp add: True round_pos_def Let_def)
  next
    case False
    then have "0 < a" using assms(3) by simp
    then have "round_pos a = a" using assms(1) by (auto simp: f64_round_pos split: if_splits)
    then show ?thesis using round_pos_mono [OF \<open>0 < a\<close> assms(4)] by simp
  qed
  ultimately show ?thesis
    using that [of "round_pos x"] x b by (simp add: f64_round_pos)
qed

lemma f64_to_int64_bounds:
  assumes "of_int a \<le> x" and "x \<le> of_int b" and "0 \<le> a" and "b < 2 ^ 63"
  shows "a \<le> f64_to_int64 oob (Fin x) \<and> f64_to_int64 oob (Fin x) \<le> b"
proof -
  have "a \<le> \<lfloor>x\<rfloor>" using assms(1) by (simp add: le_floor_iff)
  moreover have "\<lfloor>x\<rfloor> \<le> b" using assms(2) by (simp add: floor_le_iff)
  moreover have "\<not> x < 0" using assms(1,3) by (metis le_less_trans not_less of_int_0_le_iff)
  moreover have "- (2 ^ 63) \<le> \<lfloor>x\<rfloor> \<and> \<lfloor>x\<rfloor> < 2 ^ 63"
    using calculation assms(3,4) by linarith
  ultimately show ?thesis
    unfolding f64_to_int64_def Let_def by (simp only: float64.case if_False if_True simp_thms)
qed

section \<open>Rounding errors\<close>

lemma rhe_error: "\<bar>of_int (rhe r) - r\<bar> \<le> 1 / 2"
proof -
  have "of_int \<lfloor>r\<rfloor> \<le> r" "r < of_int \<lfloor>r\<rfloor> + 1" by linarith+
  then show ?thesis unfolding rhe_def Let_def by (cases "r - of_int \<lfloor>r\<rfloor> < 1 / 2"; cases "r - of_int \<lfloor>r\<rfloor> > 1 / 2") auto
qed

text \<open>The error of a rounding is at most half a unit in the last place: relative, with an absolute part for subnormals.\<close>

definition rounding_error :: "rat \<Rightarrow> rat" where
  "rounding_error x = x / 2 ^ 53 + 2 powi (- 1075)"

lemma ulp_bound:
  assumes "0 < x"
  shows "2 powi ulp_exp x \<le> 2 * rounding_error x"
proof -
  have tiny: "2 * 2 powi (- 1075) = (2::rat) powi (- 1074)"
    using power_int_add_1 [of "2::rat" "- 1075"] by (simp only: mult.commute) simp
  have pos: "0 < (2::rat) powi (- 1074)" by (rule zero_less_power_int) simp
  show ?thesis
  proof (cases "- 1074 \<le> flog2 x - 52")
    case True
    then have "2 powi ulp_exp x = (2::rat) powi flog2 x / 2 powi 52" by (simp only: ulp_exp_def max_absorb1 two_powi_diff)
    also have "\<dots> \<le> x / 2 ^ 52"
      using flog2_bounds [OF assms] divide_right_mono [of "2 powi flog2 x" x "2 ^ 52"] by simp
    finally show ?thesis unfolding rounding_error_def distrib_left tiny using pos by simp
  next
    case False
    then have "2 powi ulp_exp x = (2::rat) powi (- 1074)" by (simp only: ulp_exp_def max_absorb2 linear)
    then show ?thesis unfolding rounding_error_def distrib_left tiny using assms by simp
  qed
qed

lemma round_pos_error:
  assumes "0 < x"
  shows "\<bar>round_pos x - x\<bar> \<le> rounding_error x"
proof -
  let ?u = "(2::rat) powi ulp_exp x"
  have "round_pos x - x = (of_int (rhe (x / ?u)) - x / ?u) * ?u"
    by (simp add: round_pos_def Let_def left_diff_distrib)
  then have "\<bar>round_pos x - x\<bar> = \<bar>of_int (rhe (x / ?u)) - x / ?u\<bar> * ?u"
    by (simp only: abs_mult) simp
  also have "\<dots> \<le> 1 / 2 * ?u" by (rule mult_right_mono [OF rhe_error]) simp
  also have "\<dots> \<le> rounding_error x" using ulp_bound [OF assms] by linarith
  finally show ?thesis .
qed

lemma rounding_error_mono: "x \<le> y \<Longrightarrow> rounding_error x \<le> rounding_error y"
  unfolding rounding_error_def by (intro add_right_mono divide_right_mono) simp_all

lemma rounding_error_pos: "0 \<le> x \<Longrightarrow> 0 < rounding_error x"
  unfolding rounding_error_def by (intro add_nonneg_pos zero_less_power_int) simp_all

lemma f64_round_error:
  assumes "f64_round x = Fin y" and "0 \<le> x" and "x \<le> b"
  shows "\<bar>y - x\<bar> \<le> rounding_error b"
proof (cases "x = 0")
  case True
  then have "y = 0" using assms(1) by (simp add: f64_round_def)
  then show ?thesis using True rounding_error_pos [of b] assms(3) by simp
next
  case False
  then have "y = round_pos x" "0 < x" using assms by (auto simp: f64_round_pos split: if_splits)
  then show ?thesis using round_pos_error [of x] rounding_error_mono [OF assms(3)] by simp
qed

text \<open>For numbers that are not tiny, the absolute part is less than a millionth of the relative one.\<close>

lemma rounding_error_le:
  assumes "1 \<le> x"
  shows "rounding_error x \<le> x * (1 + 1 / 2 ^ 20) / 2 ^ 53"
proof -
  have "(2::rat) powi (- 1075) \<le> 2 powi (- 73)" by (rule two_powi_mono) simp
  also have "\<dots> = 1 / 2 ^ 73" by (simp only: power_int_minus power_int_numeral) (simp only: inverse_eq_divide)
  also have "\<dots> \<le> x / 2 ^ 73" using assms by (intro divide_right_mono) simp_all
  finally show ?thesis unfolding rounding_error_def by simp
qed

lemma mult_close:
  fixes x y c :: "'a :: linordered_field"
  assumes "\<bar>x - y\<bar> \<le> e" and "0 \<le> c"
  shows "\<bar>c * x - c * y\<bar> \<le> c * e"
  using mult_left_mono [OF assms] by (simp add: abs_mult flip: right_diff_distrib) (simp add: assms(2))

end
