(* ===== verification/Client_Config.thy ===== *)
theory Client_Config
  imports Go_Float Sink_Errors
begin

text \<open>
  The configuration half of \<^verbatim>\<open>client.go\<close>: option defaults and validation
  (\<^verbatim>\<open>newClientConfig\<close>, \<^verbatim>\<open>normalizeRetryPolicy\<close>) and the delays between attempts
  (\<^verbatim>\<open>nextBackoff\<close>, \<^verbatim>\<open>jitteredBackoff\<close>), computed in \<^verbatim>\<open>float64\<close> as the code does. Durations are
  nanoseconds.
\<close>

section \<open>Defaults\<close>

definition defaultMaxOperations :: int where "defaultMaxOperations = 1000"
definition defaultReadAttempts :: int where "defaultReadAttempts = 3"
definition defaultReadBackoff :: int where "defaultReadBackoff = 100 * 1000000"
definition defaultMaxBackoff :: int where "defaultMaxBackoff = 1000000000"
definition defaultMultiplier :: float64 where "defaultMultiplier = Fin 2"
definition defaultRetryJitter :: float64 where "defaultRetryJitter = f64_round (1 / 5)"
definition defaultMaxMessageBytes :: int where "defaultMaxMessageBytes = 64 * 2 ^ 20"
definition defaultDNSRefreshInterval :: int where "defaultDNSRefreshInterval = 30 * 1000000000"
definition defaultScanTimeout :: int where "defaultScanTimeout = 30 * 1000000000"

lemmas default_defs = defaultMaxOperations_def defaultReadAttempts_def defaultReadBackoff_def
  defaultMaxBackoff_def defaultMultiplier_def defaultMaxMessageBytes_def
  defaultDNSRefreshInterval_def defaultScanTimeout_def

section \<open>Retry policies\<close>

record RetryPolicy =
  rp_MaxAttempts :: int
  rp_InitialBackoff :: int
  rp_MaxBackoff :: int
  rp_Multiplier :: float64
  rp_Jitter :: float64

text \<open>The defaults the middle part of \<^verbatim>\<open>normalizeRetryPolicy\<close> fills in for zero fields.\<close>

definition retry_defaults :: "RetryPolicy \<Rightarrow> RetryPolicy" where
  "retry_defaults p =
     \<lparr>rp_MaxAttempts = (if rp_MaxAttempts p = 0 then defaultReadAttempts else rp_MaxAttempts p),
      rp_InitialBackoff = (if rp_InitialBackoff p = 0 then defaultReadBackoff else rp_InitialBackoff p),
      rp_MaxBackoff = (if rp_MaxBackoff p = 0 then defaultMaxBackoff else rp_MaxBackoff p),
      rp_Multiplier = (if f64_eq (rp_Multiplier p) (Fin 0) then defaultMultiplier else rp_Multiplier p),
      rp_Jitter = (if f64_eq (rp_Jitter p) (Fin 0) then defaultRetryJitter else rp_Jitter p)\<rparr>"

definition normalizeRetryPolicy :: "RetryPolicy \<Rightarrow> RetryPolicy result" where
  "normalizeRetryPolicy policy =
     (if rp_MaxAttempts policy < 0 then Inl (ErrorString ''max attempts cannot be negative'')
      else if rp_InitialBackoff policy < 0 \<or> rp_MaxBackoff policy < 0
      then Inl (ErrorString ''backoff cannot be negative'')
      else if f64_less (rp_Multiplier policy) (Fin 0) then Inl (ErrorString ''multiplier cannot be negative'')
      else if f64_less (rp_Jitter policy) (Fin 0) \<or> f64_less (Fin 1) (rp_Jitter policy)
      then Inl (ErrorString ''jitter must be between 0 and 1'')
      else
        (let p = retry_defaults policy
         in if rp_MaxBackoff p < rp_InitialBackoff p
            then Inl (ErrorString ''max backoff is less than initial backoff'')
            else if f64_less (rp_Multiplier p) (Fin 1)
            then Inl (ErrorString ''multiplier must be at least 1'')
            else Inr p))"

section \<open>Client configuration\<close>

record ClientOptions =
  co_MaxOperations :: int
  co_ReadRetry :: RetryPolicy
  co_ScanRetry :: RetryPolicy
  co_ScanTimeout :: int
  co_MaxReceiveMessageBytes :: int
  co_MaxSendMessageBytes :: int

datatype CallOption =
  StaticMethod | MaxCallRecvMsgSize int | MaxCallSendMsgSize int | ForceVTProtoCodec

record clientConfig =
  cc_maxOperations :: int
  cc_readRetry :: RetryPolicy
  cc_scanRetry :: RetryPolicy
  cc_scanTimeout :: int
  cc_sinkCallOptions :: "CallOption list"
  cc_healthCallOptions :: "CallOption list"

definition newClientConfig :: "ClientOptions \<Rightarrow> clientConfig result" where
  "newClientConfig opts =
     (if co_MaxOperations opts < 0 \<or> co_MaxReceiveMessageBytes opts < 0
          \<or> co_MaxSendMessageBytes opts < 0 \<or> co_ScanTimeout opts < 0
      then Inl (ErrorString ''create Sink client: limits cannot be negative'')
      else
        (let maxOperations = (if co_MaxOperations opts = 0 then defaultMaxOperations else co_MaxOperations opts)
         in case normalizeRetryPolicy (co_ReadRetry opts) of
              Inl err \<Rightarrow> Inl (WrapError ''create Sink client: read retry: '' err)
            | Inr retry \<Rightarrow>
                (case normalizeRetryPolicy (co_ScanRetry opts) of
                   Inl err \<Rightarrow> Inl (WrapError ''create Sink client: scan retry: '' err)
                 | Inr scanRetry \<Rightarrow>
                     (let scanTimeout = (if co_ScanTimeout opts = 0 then defaultScanTimeout else co_ScanTimeout opts);
                          maxReceiveBytes = (if co_MaxReceiveMessageBytes opts = 0
                            then defaultMaxMessageBytes else co_MaxReceiveMessageBytes opts);
                          maxSendBytes = (if co_MaxSendMessageBytes opts = 0
                            then defaultMaxMessageBytes else co_MaxSendMessageBytes opts);
                          healthCallOptions = [MaxCallRecvMsgSize maxReceiveBytes, MaxCallSendMsgSize maxSendBytes]
                      in Inr \<lparr>cc_maxOperations = maxOperations, cc_readRetry = retry,
                              cc_scanRetry = scanRetry, cc_scanTimeout = scanTimeout,
                              cc_sinkCallOptions = healthCallOptions @ [ForceVTProtoCodec],
                              cc_healthCallOptions = healthCallOptions\<rparr>))))"

section \<open>Backoff\<close>

definition nextBackoff :: "(float64 \<Rightarrow> int) \<Rightarrow> int \<Rightarrow> RetryPolicy \<Rightarrow> int" where
  "nextBackoff oob current policy =
     (if current \<ge> rp_MaxBackoff policy then rp_MaxBackoff policy
      else
        (let maximumMultiplier = f64_div (f64_of_int (rp_MaxBackoff policy)) (f64_of_int current)
         in if f64_leq maximumMultiplier (rp_Multiplier policy) then rp_MaxBackoff policy
            else f64_to_int64 oob (f64_mult (f64_of_int current) (rp_Multiplier policy))))"

text \<open>\<open>r\<close> is the value \<^verbatim>\<open>rand.Float64()\<close> returns.\<close>

definition jitteredBackoff :: "(float64 \<Rightarrow> int) \<Rightarrow> float64 \<Rightarrow> int \<Rightarrow> float64 \<Rightarrow> int" where
  "jitteredBackoff oob r backoff jitter =
     (if f64_leq jitter (Fin 0) \<or> backoff \<le> 1 then backoff
      else
        (let minimum = f64_mult (f64_of_int backoff) (f64_sub (Fin 1) jitter);
             spread = f64_mult (f64_mult (f64_of_int backoff) jitter) (Fin 2)
         in f64_to_int64 oob (f64_add minimum (f64_mult r spread))))"

section \<open>What a normalized policy guarantees\<close>

text \<open>
  The invariant of a normalized policy. The comparisons are the negations the code makes, so a
  NaN multiplier or jitter satisfies them.
\<close>

definition retry_ok :: "RetryPolicy \<Rightarrow> bool" where
  "retry_ok p \<longleftrightarrow>
     1 \<le> rp_MaxAttempts p \<and> 1 \<le> rp_InitialBackoff p \<and> rp_InitialBackoff p \<le> rp_MaxBackoff p \<and>
     \<not> f64_less (rp_Multiplier p) (Fin 1) \<and>
     \<not> f64_less (rp_Jitter p) (Fin 0) \<and> \<not> f64_less (Fin 1) (rp_Jitter p) \<and>
     rp_Jitter p \<noteq> Fin 0"

lemma defaultRetryJitter_value: "defaultRetryJitter = Fin (3602879701896397 / 2 ^ 54)"
proof -
  have "flog2 (1/5) = - 3" by (rule flog2_unique) (simp_all add: power_int_def power_one_over)
  moreover have "\<lfloor>36028797018963968 / 5 :: rat\<rfloor> = 7205759403792793" by (rule floor_unique) auto
  ultimately have "round_pos (1/5) = 3602879701896397 / 2 ^ 54"
    by (simp add: round_pos_def ulp_exp_def Let_def power_int_def rhe_def power_one_over)
  then show ?thesis
    by (simp add: defaultRetryJitter_def f64_round_pos power_int_def)
qed

lemma retry_defaults_ok:
  assumes "0 \<le> rp_MaxAttempts p" "0 \<le> rp_InitialBackoff p" "0 \<le> rp_MaxBackoff p"
    and "\<not> f64_less (rp_Jitter p) (Fin 0)" "\<not> f64_less (Fin 1) (rp_Jitter p)"
    and "rp_InitialBackoff (retry_defaults p) \<le> rp_MaxBackoff (retry_defaults p)"
    and "\<not> f64_less (rp_Multiplier (retry_defaults p)) (Fin 1)"
  shows "retry_ok (retry_defaults p)"
  using assms
  by (auto simp: retry_ok_def retry_defaults_def f64_eq_def default_defs defaultRetryJitter_value)

lemma normalizeRetryPolicy_ok: "normalizeRetryPolicy p = Inr q \<Longrightarrow> retry_ok q"
  by (auto simp: normalizeRetryPolicy_def Let_def not_less intro: retry_defaults_ok split: if_splits)

lemma normalizeRetryPolicy_fixpoint:
  assumes "retry_ok p"
  shows "normalizeRetryPolicy p = Inr p"
proof -
  have m: "\<not> f64_less (rp_Multiplier p) (Fin 0)" "\<not> f64_eq (rp_Multiplier p) (Fin 0)"
    using assms by (auto simp: retry_ok_def f64_eq_def elim!: f64_less.elims)
  have "retry_defaults p = p"
    using assms m by (cases p) (auto simp: retry_ok_def retry_defaults_def f64_eq_def)
  then show ?thesis
    using assms m by (auto simp: normalizeRetryPolicy_def retry_ok_def Let_def)
qed

definition config_ok :: "clientConfig \<Rightarrow> bool" where
  "config_ok c \<longleftrightarrow> 1 \<le> cc_maxOperations c \<and> retry_ok (cc_readRetry c) \<and> retry_ok (cc_scanRetry c)
     \<and> 1 \<le> cc_scanTimeout c"

lemma newClientConfig_ok: "newClientConfig opts = Inr c \<Longrightarrow> config_ok c"
  by (auto simp: newClientConfig_def Let_def config_ok_def default_defs not_less
      intro: normalizeRetryPolicy_ok split: if_splits sum.splits)

section \<open>Backoff stays between its bounds\<close>

lemma nextBackoff_bounds_lemma:
  assumes ok: "retry_ok p" and mult: "rp_Multiplier p = Fin m" "is_f64 (Fin m)"
    and cur: "1 \<le> c" "c \<le> rp_MaxBackoff p" and exact: "rp_MaxBackoff p \<le> 2 ^ 53"
  shows "c \<le> nextBackoff oob c p \<and> nextBackoff oob c p \<le> rp_MaxBackoff p"
proof (cases "c = rp_MaxBackoff p \<or> f64_leq (f64_div (f64_of_int (rp_MaxBackoff p)) (f64_of_int c)) (Fin m)")
  case True
  then show ?thesis using cur by (auto simp: nextBackoff_def mult)
next
  case False
  let ?M = "rp_MaxBackoff p"
  have lt: "c < ?M" using False cur by simp
  have fM: "f64_of_int ?M = Fin (of_int ?M)" and fc: "f64_of_int c = Fin (of_int c)"
    using cur exact by (auto intro: f64_of_int_exact)
  have rM: "f64_round (of_int ?M) = Fin (of_int ?M)" and rc: "f64_round (of_int c) = Fin (of_int c)"
    using fM fc by (auto simp: f64_of_int_def)
  have m1: "1 \<le> m" using ok mult by (simp add: retry_ok_def not_less)
  have rm: "f64_round m = Fin m" using mult by (simp add: is_f64_def)
  have c0: "(0::rat) < of_int c" using cur by simp
  have "m \<le> of_int ?M / of_int c"
  proof (rule ccontr)
    assume "\<not> ?thesis"
    then have q: "of_int ?M / of_int c \<le> m" by simp
    have "(1::rat) \<le> of_int ?M / of_int c" using lt c0 by simp
    moreover have "f64_round 1 = Fin 1"
      using f64_of_int_exact [of 1] by (simp add: f64_of_int_def)
    ultimately obtain y where "f64_round (of_int ?M / of_int c) = Fin y" "y \<le> m"
      using f64_round_between [OF _ rm _ _ q, of 1] by auto
    then have "f64_leq (f64_div (f64_of_int ?M) (f64_of_int c)) (Fin m)"
      using c0 by (auto simp: fM fc f64_leq_def f64_eq_def)
    then show False using False by simp
  qed
  then have hi: "of_int c * m \<le> of_int ?M" using c0 by (simp add: field_simps)
  have lo: "of_int c \<le> of_int c * m" using m1 c0 by simp
  obtain y where y: "f64_round (of_int c * m) = Fin y" "of_int c \<le> y" "y \<le> of_int ?M"
    using f64_round_between [OF rc rM _ lo hi] c0 by auto
  have "?M < 2 ^ 63" using exact by simp
  then have "c \<le> f64_to_int64 oob (Fin y) \<and> f64_to_int64 oob (Fin y) \<le> ?M"
    using y(2,3) cur by (intro f64_to_int64_bounds) auto
  moreover have "nextBackoff oob c p = f64_to_int64 oob (Fin y)"
    using False lt mult fc y by (simp add: nextBackoff_def Let_def)
  ultimately show ?thesis by simp
qed

section \<open>Jitter\<close>

lemma f64_round_small:
  assumes "0 \<le> x" and "x \<le> of_int b" and "1 \<le> b" and "b \<le> 2 ^ 53"
  obtains y where "f64_round x = Fin y" "0 \<le> y" "y \<le> of_int b"
    "\<bar>y - x\<bar> \<le> of_int b * ((1 + 1 / 2 ^ 20) / 2 ^ 53)"
proof -
  have "f64_round (of_int b) = Fin (of_int b)" "f64_round 0 = Fin 0"
    using f64_of_int_exact [of b] assms by (simp_all add: f64_of_int_def f64_round_def)
  then obtain y where y: "f64_round x = Fin y" "0 \<le> y" "y \<le> of_int b"
    using f64_round_between [of 0 "of_int b" x] assms by auto
  have "\<bar>y - x\<bar> \<le> rounding_error (of_int b)" using y(1) assms(1,2) by (rule f64_round_error)
  also have "\<dots> \<le> of_int b * (1 + 1 / 2 ^ 20) / 2 ^ 53" using assms(3) by (intro rounding_error_le) simp
  finally show ?thesis using y that by simp
qed

text \<open>The delay in exact arithmetic, for a random number \<open>r\<close>: between \<open>1 - j\<close> and \<open>1 + j\<close> times the backoff.\<close>

definition jittered :: "int \<Rightarrow> rat \<Rightarrow> rat \<Rightarrow> rat" where
  "jittered b j r = of_int b * (1 - j + 2 * j * r)"

lemma jitteredBackoff_accurate:
  assumes j: "0 \<le> j" "j \<le> 1" and r: "0 \<le> r" "r \<le> 1" and b: "2 \<le> b" "b \<le> 2 ^ 51" and "0 < j"
  obtains d where "jitteredBackoff oob (Fin r) b (Fin j) = \<lfloor>d\<rfloor>" "0 \<le> d" "\<bar>d - jittered b j r\<bar> \<le> of_int b / 2 ^ 49"
proof -
  define u where "u = (1 + 1 / 2 ^ 20) / (2 ^ 53 :: rat)"
  define B where "B = (of_int b :: rat)"
  note small = f64_round_small [folded u_def]
  have fb: "f64_of_int b = Fin B" using b by (simp add: f64_of_int_exact B_def)
  have B: "2 \<le> B" "0 \<le> B" "0 \<le> u" using b by (simp_all add: B_def u_def)
  obtain k where k: "f64_round (1 - j) = Fin k" "0 \<le> k" "k \<le> 1" "\<bar>k - (1 - j)\<bar> \<le> u"
    using small [of "1 - j" 1] j by auto
  have Bk: "B * k \<le> B" using k B by (simp add: mult_left_le)
  obtain mn where mn: "f64_round (B * k) = Fin mn" "0 \<le> mn" "mn \<le> B" "\<bar>mn - B * k\<bar> \<le> B * u"
    using small [of "B * k" b] k b B Bk by (auto simp: B_def)
  have Bj: "B * j \<le> B" using j B by (simp add: mult_left_le)
  obtain p where p: "f64_round (B * j) = Fin p" "0 \<le> p" "p \<le> B" "\<bar>p - B * j\<bar> \<le> B * u"
    using small [of "B * j" b] j b B Bj by (auto simp: B_def)
  obtain s where s: "f64_round (p * 2) = Fin s" "0 \<le> s" "s \<le> 2 * B" "\<bar>s - p * 2\<bar> \<le> 2 * B * u"
    using small [of "p * 2" "2 * b"] p b by (auto simp: B_def)
  have rs: "0 \<le> r * s" "r * s \<le> 2 * B" using r s mult_left_le_one_le [of s r] by (simp, linarith)
  obtain t where t: "f64_round (r * s) = Fin t" "0 \<le> t" "t \<le> 2 * B" "\<bar>t - r * s\<bar> \<le> 2 * B * u"
    using small [of "r * s" "2 * b"] rs b by (auto simp: B_def)
  obtain d where d: "f64_round (mn + t) = Fin d" "0 \<le> d" "d \<le> 3 * B" "\<bar>d - (mn + t)\<bar> \<le> 3 * B * u"
    using small [of "mn + t" "3 * b"] mn t b by (auto simp: B_def)
  have Bu: "0 \<le> B * u" using B by simp
  have mn_err: "\<bar>mn - B * (1 - j)\<bar> \<le> 2 * (B * u)" using mn(4) mult_close [OF k(4) B(2)] by linarith
  have s_err: "\<bar>s - 2 * (B * j)\<bar> \<le> 4 * (B * u)" using s(4) p(4) by simp
  have "r * (4 * (B * u)) \<le> 4 * (B * u)" using r Bu by (intro mult_left_le_one_le) simp_all
  then have "\<bar>r * s - r * (2 * (B * j))\<bar> \<le> 4 * (B * u)" using mult_close [OF s_err r(1)] by linarith
  then have t_err: "\<bar>t - r * (2 * (B * j))\<bar> \<le> 6 * (B * u)" using t(4) by simp
  have "jittered b j r = B * (1 - j) + r * (2 * (B * j))" by (simp add: jittered_def B_def algebra_simps)
  then have "\<bar>d - jittered b j r\<bar> \<le> 11 * (B * u)" using d(4) mn_err t_err by linarith
  also have "\<dots> \<le> B / 2 ^ 49" using B by (simp add: u_def)
  finally have err: "\<bar>d - jittered b j r\<bar> \<le> of_int b / 2 ^ 49" by (simp add: B_def)
  have "d < 2 ^ 63"
  proof -
    have "(of_int b :: rat) \<le> of_int (2 ^ 51)" using b(2) by (simp only: of_int_le_iff)
    then show ?thesis using d(3) by (simp add: B_def)
  qed
  then have "\<lfloor>d\<rfloor> < 2 ^ 63" by (simp add: floor_less_iff)
  moreover have "0 \<le> \<lfloor>d\<rfloor>" using d(2) by simp
  ultimately have "f64_to_int64 oob (Fin d) = \<lfloor>d\<rfloor>" using d(2) by (simp add: f64_to_int64_def)
  moreover have "jitteredBackoff oob (Fin r) b (Fin j) = f64_to_int64 oob (Fin d)"
    using \<open>0 < j\<close> b by (simp add: jitteredBackoff_def f64_leq_def f64_eq_def fb f64_sub_def k mn p s t d)
  ultimately show ?thesis using that [of d] d(2) err by simp
qed

section \<open>Properties\<close>

text \<open>
  C31: a configuration that is accepted satisfies the invariant every operation relies on (at least one operation
  per batch, at least one attempt, positive backoffs below their maximum, a positive scan timeout), and
  normalizing an accepted policy again changes nothing.
\<close>

theorem newClientConfig_invariant:
  assumes "newClientConfig opts = Inr config"
  shows "config_ok config \<and> normalizeRetryPolicy (cc_readRetry config) = Inr (cc_readRetry config)
    \<and> normalizeRetryPolicy (cc_scanRetry config) = Inr (cc_scanRetry config)"
  using newClientConfig_ok [OF assms] by (auto simp: config_ok_def normalizeRetryPolicy_fixpoint)

definition zero_policy :: RetryPolicy where
  "zero_policy = \<lparr>rp_MaxAttempts = 0, rp_InitialBackoff = 0, rp_MaxBackoff = 0, rp_Multiplier = Fin 0, rp_Jitter = Fin 0\<rparr>"

definition zero_options :: ClientOptions where
  "zero_options = \<lparr>co_MaxOperations = 0, co_ReadRetry = zero_policy, co_ScanRetry = zero_policy, co_ScanTimeout = 0,
     co_MaxReceiveMessageBytes = 0, co_MaxSendMessageBytes = 0\<rparr>"

definition default_policy :: RetryPolicy where
  "default_policy = \<lparr>rp_MaxAttempts = 3, rp_InitialBackoff = 100000000, rp_MaxBackoff = 1000000000,
     rp_Multiplier = Fin 2, rp_Jitter = defaultRetryJitter\<rparr>"

lemma normalize_zero_policy: "normalizeRetryPolicy zero_policy = Inr default_policy"
  by (simp add: normalizeRetryPolicy_def zero_policy_def default_policy_def retry_defaults_def f64_eq_def default_defs)

theorem newClientConfig_invariant_witness:
  "\<exists>config. newClientConfig zero_options = Inr config \<and> config_ok config \<and> cc_readRetry config = default_policy"
proof -
  obtain config where c: "newClientConfig zero_options = Inr config" "cc_readRetry config = default_policy"
    by (simp add: newClientConfig_def zero_options_def normalize_zero_policy)
  then show ?thesis using newClientConfig_invariant [OF c(1)] by blast
qed

text \<open>
  C32: backoff grows and stays bounded. From any delay between one nanosecond and \<^verbatim>\<open>MaxBackoff\<close>, the next delay
  is at least the current one and at most \<^verbatim>\<open>MaxBackoff\<close>, for every finite multiplier and delays up to \<^verbatim>\<open>2^53\<close>
  nanoseconds (104 days), with the rounding of \<^verbatim>\<open>float64\<close>.
\<close>

theorem nextBackoff_bounds:
  assumes "retry_ok p" and "rp_Multiplier p = Fin m" and "is_f64 (Fin m)"
    and "1 \<le> c" and "c \<le> rp_MaxBackoff p" and "rp_MaxBackoff p \<le> 2 ^ 53"
  shows "c \<le> nextBackoff oob c p \<and> nextBackoff oob c p \<le> rp_MaxBackoff p"
  using assms by (rule nextBackoff_bounds_lemma)

theorem nextBackoff_bounds_witness:
  "\<forall>oob. 100000000 \<le> nextBackoff oob 100000000 default_policy \<and> nextBackoff oob 100000000 default_policy \<le> 1000000000"
proof -
  have "retry_ok default_policy" using normalizeRetryPolicy_ok [OF normalize_zero_policy] .
  moreover have "is_f64 (Fin 2)"
    using f64_of_int_exact [of 2] by (simp add: is_f64_def f64_of_int_def)
  ultimately show ?thesis
    using nextBackoff_bounds [of default_policy 2 100000000] by (simp add: default_policy_def)
qed

text \<open>
  C33: jitter spreads the delay evenly around the backoff. For a jitter \<open>j\<close> and a random number \<open>r\<close> between 0 and 1, the delay is the backoff times
  \<open>1 - j + 2 j r\<close>, rounded down, with an error of \<^verbatim>\<open>float64\<close> rounding below \<^verbatim>\<open>2^-49\<close> of the backoff, for backoffs up to \<^verbatim>\<open>2^51\<close>
  nanoseconds (26 days). Without jitter, and for a backoff of at most a nanosecond, it is the backoff itself, and it is never negative.
\<close>

theorem jitteredBackoff_spread:
  assumes "0 \<le> j" and "j \<le> 1" and "0 \<le> r" and "r \<le> 1" and "0 \<le> b" and "b \<le> 2 ^ 51"
    and "delay = jitteredBackoff oob (Fin r) b (Fin j)"
  shows "0 \<le> delay \<and> (j = 0 \<or> b \<le> 1 \<longrightarrow> delay = b)
    \<and> (1 < b \<longrightarrow> jittered b j r - of_int b / 2 ^ 49 - 1 < of_int delay \<and> of_int delay \<le> jittered b j r + of_int b / 2 ^ 49)"
proof (cases "j = 0 \<or> b \<le> 1")
  case True
  then have "delay = b" by (auto simp: assms(7) jitteredBackoff_def f64_leq_def f64_eq_def)
  then show ?thesis using True assms(5) by (auto simp: jittered_def add_pos_nonneg)
next
  case False
  then obtain d where d: "delay = \<lfloor>d\<rfloor>" "0 \<le> d" "\<bar>d - jittered b j r\<bar> \<le> of_int b / 2 ^ 49"
    using jitteredBackoff_accurate [OF assms(1-4) _ assms(6), of oob] assms(1) unfolding assms(7) by fastforce
  have "d - 1 < of_int \<lfloor>d\<rfloor>" "of_int \<lfloor>d\<rfloor> \<le> d" by linarith+
  then have "jittered b j r - of_int b / 2 ^ 49 - 1 < of_int delay" "of_int delay \<le> jittered b j r + of_int b / 2 ^ 49"
    using d(1,3) by (simp_all only: abs_le_iff) linarith+
  then show ?thesis using False d(1,2) by simp
qed

theorem jitteredBackoff_spread_witness:
  "\<forall>oob. 1249 \<le> jitteredBackoff oob (Fin (3/4)) 1000 (Fin (1/2)) \<and> jitteredBackoff oob (Fin (3/4)) 1000 (Fin (1/2)) \<le> 1250"
proof
  fix oob
  let ?d = "jitteredBackoff oob (Fin (3/4)) 1000 (Fin (1/2))"
  have "1250 - 1000 / 2 ^ 49 - 1 < (of_int ?d :: rat)" "(of_int ?d :: rat) \<le> 1250 + 1000 / 2 ^ 49"
    using jitteredBackoff_spread [of "1/2" "3/4" 1000 ?d oob] by (simp_all add: jittered_def)
  then have "(of_int 1248 :: rat) < of_int ?d" "(of_int ?d :: rat) < of_int 1251" by simp_all
  then show "1249 \<le> ?d \<and> ?d \<le> 1250" by (simp only: of_int_less_iff) linarith
qed

text \<open>
  The retry policy validation lets a jitter through that is not between 0 and 1: a NaN is neither below 0 nor above
  1, so it is accepted, kept, and the delay computed from it is the implementation-defined conversion of NaN.
\<close>

theorem nan_jitter_accepted:
  "\<exists>p q. rp_Jitter p = NaN \<and> normalizeRetryPolicy p = Inr q \<and> rp_Jitter q = NaN
     \<and> (\<forall>oob r. jitteredBackoff oob r (rp_InitialBackoff q) (rp_Jitter q) = oob NaN)"
proof -
  let ?p = "zero_policy\<lparr>rp_Jitter := NaN\<rparr>" and ?q = "default_policy\<lparr>rp_Jitter := NaN\<rparr>"
  have "normalizeRetryPolicy ?p = Inr ?q"
    by (simp add: normalizeRetryPolicy_def zero_policy_def default_policy_def retry_defaults_def f64_eq_def default_defs)
  moreover have "jitteredBackoff oob r (rp_InitialBackoff ?q) NaN = oob NaN" for oob r
    by (simp add: jitteredBackoff_def f64_leq_def f64_eq_def f64_sub_def default_policy_def f64_to_int64_def)
  ultimately show ?thesis by (intro exI [of _ ?p] exI [of _ ?q]) simp
qed

end
