(* ===== verification/Transport.thy ===== *)
theory Transport
  imports Results Client_Config
begin

text \<open>
  The outside world of the client. What gRPC, contexts, timers and the random source do is a
  record of functions on an abstract state \<open>'s\<close> (\<open>env\<close>), an argument of every operation that
  calls them; \<open>'k\<close> is a connection and \<open>'c\<close> a context. The world also keeps the trace of the calls
  made, which the code does not have: the theorems use it to say what was sent, how often
  and in which order. The RPC stubs are those of \<^verbatim>\<open>api/sink/v1/sink_grpc.pb.go\<close>.
\<close>

section \<open>The world and its trace\<close>

datatype event =
    EvRead pbReadRequest
  | EvWrite pbWriteRequest
  | EvDelete pbDeleteRequest
  | EvExecute pbExecuteRequest
  | EvQuery pbQueryRequest
  | EvCount pbCountRequest
  | EvScan pbScanRequest
  | EvHealth
  | EvSleep int
  | EvClose

record 's world =
  w_st :: 's
  w_trace :: "event list"

record ('k, 'c, 's) env =
  Invoke_Read :: "'k \<Rightarrow> 'c \<Rightarrow> bytes \<Rightarrow> pbReadRequest \<Rightarrow> CallOption list \<Rightarrow> 's \<Rightarrow> pbReadResponse result \<times> 's"
  Invoke_Write :: "'k \<Rightarrow> 'c \<Rightarrow> bytes \<Rightarrow> pbWriteRequest \<Rightarrow> CallOption list \<Rightarrow> 's \<Rightarrow> pbWriteResponse result \<times> 's"
  Invoke_Delete :: "'k \<Rightarrow> 'c \<Rightarrow> bytes \<Rightarrow> pbDeleteRequest \<Rightarrow> CallOption list \<Rightarrow> 's \<Rightarrow> pbDeleteResponse result \<times> 's"
  Invoke_Execute :: "'k \<Rightarrow> 'c \<Rightarrow> bytes \<Rightarrow> pbExecuteRequest \<Rightarrow> CallOption list \<Rightarrow> 's \<Rightarrow> pbExecuteResponse result \<times> 's"
  Invoke_Query :: "'k \<Rightarrow> 'c \<Rightarrow> bytes \<Rightarrow> pbQueryRequest \<Rightarrow> CallOption list \<Rightarrow> 's \<Rightarrow> pbQueryResponse result \<times> 's"
  Invoke_Count :: "'k \<Rightarrow> 'c \<Rightarrow> bytes \<Rightarrow> pbCountRequest \<Rightarrow> CallOption list \<Rightarrow> 's \<Rightarrow> pbCountResponse result \<times> 's"
  Invoke_Scan :: "'k \<Rightarrow> 'c \<Rightarrow> bytes \<Rightarrow> pbScanRequest \<Rightarrow> CallOption list \<Rightarrow> 's \<Rightarrow> pbScanResponse result \<times> 's"
  Health_Check :: "'k \<Rightarrow> 'c \<Rightarrow> CallOption list \<Rightarrow> 's \<Rightarrow> int32w option result \<times> 's"
  conn_Close :: "'k \<Rightarrow> 's \<Rightarrow> go_error option \<times> 's"
  done_before :: "'c \<Rightarrow> int \<Rightarrow> 's \<Rightarrow> bool \<times> 's"
  ctx_Err :: "'c \<Rightarrow> 's \<Rightarrow> go_error option"
  WithTimeout :: "'c \<Rightarrow> int \<Rightarrow> 's \<Rightarrow> 'c"
  rand_Float64 :: "'s \<Rightarrow> float64 \<times> 's"
  float_oob :: "float64 \<Rightarrow> int"

text \<open>A call of the outside world: the new state, and the call at the end of the trace.\<close>

definition call :: "event \<Rightarrow> ('s \<Rightarrow> 'a \<times> 's) \<Rightarrow> 's world \<Rightarrow> 'a \<times> 's world" where
  "call ev f w = (case f (w_st w) of (r, s) \<Rightarrow> (r, \<lparr>w_st = s, w_trace = w_trace w @ [ev]\<rparr>))"

lemma call_trace: "call ev f w = (r, w') \<Longrightarrow> w_trace w' = w_trace w @ [ev]"
  by (auto simp: call_def split: prod.splits)

section \<open>RPC stubs\<close>

definition stub_result :: "'a result \<times> 'w \<Rightarrow> 'a option result \<times> 'w" where
  "stub_result x = (case x of (Inl err, w) \<Rightarrow> (Inl err, w) | (Inr out, w) \<Rightarrow> (Inr (Some out), w))"

definition sinkClient_Read ::
  "('k, 'c, 's) env \<Rightarrow> 'k \<Rightarrow> 'c \<Rightarrow> pbReadRequest \<Rightarrow> CallOption list \<Rightarrow> 's world
     \<Rightarrow> pbReadResponse option result \<times> 's world" where
  "sinkClient_Read env cc ctx req opts w =
     stub_result (call (EvRead req)
       (Invoke_Read env cc ctx ''/sink.v1.Sink/Read'' req (StaticMethod # opts)) w)"

definition sinkClient_Write ::
  "('k, 'c, 's) env \<Rightarrow> 'k \<Rightarrow> 'c \<Rightarrow> pbWriteRequest \<Rightarrow> CallOption list \<Rightarrow> 's world
     \<Rightarrow> pbWriteResponse option result \<times> 's world" where
  "sinkClient_Write env cc ctx req opts w =
     stub_result (call (EvWrite req)
       (Invoke_Write env cc ctx ''/sink.v1.Sink/Write'' req (StaticMethod # opts)) w)"

definition sinkClient_Delete ::
  "('k, 'c, 's) env \<Rightarrow> 'k \<Rightarrow> 'c \<Rightarrow> pbDeleteRequest \<Rightarrow> CallOption list \<Rightarrow> 's world
     \<Rightarrow> pbDeleteResponse option result \<times> 's world" where
  "sinkClient_Delete env cc ctx req opts w =
     stub_result (call (EvDelete req)
       (Invoke_Delete env cc ctx ''/sink.v1.Sink/Delete'' req (StaticMethod # opts)) w)"

definition sinkClient_Execute ::
  "('k, 'c, 's) env \<Rightarrow> 'k \<Rightarrow> 'c \<Rightarrow> pbExecuteRequest \<Rightarrow> CallOption list \<Rightarrow> 's world
     \<Rightarrow> pbExecuteResponse option result \<times> 's world" where
  "sinkClient_Execute env cc ctx req opts w =
     stub_result (call (EvExecute req)
       (Invoke_Execute env cc ctx ''/sink.v1.Sink/Execute'' req (StaticMethod # opts)) w)"

definition sinkClient_Query ::
  "('k, 'c, 's) env \<Rightarrow> 'k \<Rightarrow> 'c \<Rightarrow> pbQueryRequest \<Rightarrow> CallOption list \<Rightarrow> 's world
     \<Rightarrow> pbQueryResponse option result \<times> 's world" where
  "sinkClient_Query env cc ctx req opts w =
     stub_result (call (EvQuery req)
       (Invoke_Query env cc ctx ''/sink.v1.Sink/Query'' req (StaticMethod # opts)) w)"

definition sinkClient_Count ::
  "('k, 'c, 's) env \<Rightarrow> 'k \<Rightarrow> 'c \<Rightarrow> pbCountRequest \<Rightarrow> CallOption list \<Rightarrow> 's world
     \<Rightarrow> pbCountResponse option result \<times> 's world" where
  "sinkClient_Count env cc ctx req opts w =
     stub_result (call (EvCount req)
       (Invoke_Count env cc ctx ''/sink.v1.Sink/Count'' req (StaticMethod # opts)) w)"

definition sinkClient_Scan ::
  "('k, 'c, 's) env \<Rightarrow> 'k \<Rightarrow> 'c \<Rightarrow> pbScanRequest \<Rightarrow> CallOption list \<Rightarrow> 's world
     \<Rightarrow> pbScanResponse option result \<times> 's world" where
  "sinkClient_Scan env cc ctx req opts w =
     stub_result (call (EvScan req)
       (Invoke_Scan env cc ctx ''/sink.v1.Sink/Scan'' req (StaticMethod # opts)) w)"

lemmas stub_defs = sinkClient_Read_def sinkClient_Write_def sinkClient_Delete_def
  sinkClient_Execute_def sinkClient_Query_def sinkClient_Count_def sinkClient_Scan_def

lemma stub_trace:
  "sinkClient_Read env cc ctx rd opts w = (rrd, w') \<Longrightarrow> w_trace w' = w_trace w @ [EvRead rd]"
  "sinkClient_Write env cc ctx wr opts w = (rwr, w') \<Longrightarrow> w_trace w' = w_trace w @ [EvWrite wr]"
  "sinkClient_Delete env cc ctx dl opts w = (rdl, w') \<Longrightarrow> w_trace w' = w_trace w @ [EvDelete dl]"
  "sinkClient_Execute env cc ctx ex opts w = (rex, w') \<Longrightarrow> w_trace w' = w_trace w @ [EvExecute ex]"
  "sinkClient_Query env cc ctx qu opts w = (rqu, w') \<Longrightarrow> w_trace w' = w_trace w @ [EvQuery qu]"
  "sinkClient_Count env cc ctx cn opts w = (rcn, w') \<Longrightarrow> w_trace w' = w_trace w @ [EvCount cn]"
  "sinkClient_Scan env cc ctx sc opts w = (rsc, w') \<Longrightarrow> w_trace w' = w_trace w @ [EvScan sc]"
  by (auto simp: stub_defs stub_result_def dest!: call_trace split: prod.splits sum.splits)

section \<open>Waiting\<close>

text \<open>
  \<^verbatim>\<open>jitteredBackoff\<close> with the random number drawn from the world, as the code draws it: only
  when there is a spread to apply it to.
\<close>

definition draw_backoff ::
  "('k, 'c, 's) env \<Rightarrow> int \<Rightarrow> float64 \<Rightarrow> 's world \<Rightarrow> int \<times> 's world" where
  "draw_backoff env backoff jitter w =
     (if f64_leq jitter (Fin 0) \<or> backoff \<le> 1
      then (jitteredBackoff (float_oob env) (Fin 0) backoff jitter, w)
      else (case rand_Float64 env (w_st w) of
              (r, s) \<Rightarrow> (jitteredBackoff (float_oob env) r backoff jitter, w\<lparr>w_st := s\<rparr>)))"

text \<open>
  The \<^verbatim>\<open>select\<close> of \<^verbatim>\<open>waitForBackoff\<close>: \<open>done_before\<close> says whether the context is done before the
  timer fires. Stopping and draining the timer has no effect outside the function.
\<close>

definition waitForBackoff ::
  "('k, 'c, 's) env \<Rightarrow> 'c \<Rightarrow> int \<Rightarrow> 's world \<Rightarrow> go_error option \<times> 's world" where
  "waitForBackoff env ctx delay w =
     (case call (EvSleep delay) (done_before env ctx delay) w of
        (True, w') \<Rightarrow> (ctx_Err env ctx (w_st w'), w')
      | (False, w') \<Rightarrow> (None, w'))"

definition backoff_wait ::
  "('k, 'c, 's) env \<Rightarrow> 'c \<Rightarrow> int \<Rightarrow> float64 \<Rightarrow> 's world \<Rightarrow> go_error option \<times> 's world" where
  "backoff_wait env ctx backoff jitter w =
     (case draw_backoff env backoff jitter w of (delay, w') \<Rightarrow> waitForBackoff env ctx delay w')"

lemma draw_backoff_trace: "draw_backoff env b j w = (d, w') \<Longrightarrow> w_trace w' = w_trace w"
  by (auto simp: draw_backoff_def split: prod.splits if_splits)

lemma backoff_wait_trace:
  "backoff_wait env ctx b j w = (e, w') \<Longrightarrow> \<exists>delay. w_trace w' = w_trace w @ [EvSleep delay]"
  by (auto simp: backoff_wait_def waitForBackoff_def split: prod.splits bool.splits
      dest!: call_trace draw_backoff_trace)

end
