(* ===== verification/Client.thy ===== *)
theory Client
  imports Transport
begin

text \<open>
  The operations of \<^verbatim>\<open>client.go\<close>: creation of clients, health checks, and the batched \<^verbatim>\<open>Read\<close>, \<^verbatim>\<open>Write\<close>
  and \<^verbatim>\<open>Delete\<close>. A Go result \<^verbatim>\<open>(values, error)\<close> is a pair, because partial results accompany an error.
  The batch loops advance by a configured step that only \<^verbatim>\<open>New\<close> guarantees to be positive, so they are
  partial: \<^const>\<open>None\<close> means the call panics or never returns, and the theorems show that a
  configured client always returns.
\<close>

section \<open>Clients\<close>

record 'k Client =
  cl_rpc :: "'k option"
  cl_health :: "'k option"
  cl_connection :: "'k option"
  cl_config :: clientConfig

definition New :: "'k option \<Rightarrow> ClientOptions \<Rightarrow> 'k Client result" where
  "New connection opts =
     (case connection of
        None \<Rightarrow> Inl (ErrorString ''create Sink client: connection is required'')
      | Some cc \<Rightarrow>
          (case newClientConfig opts of
             Inl err \<Rightarrow> Inl err
           | Inr config \<Rightarrow> Inr \<lparr>cl_rpc = Some cc, cl_health = Some cc, cl_connection = None, cl_config = config\<rparr>))"

text \<open>Dial options, in the order they are passed to \<^verbatim>\<open>grpc.NewClient\<close>; \<open>'x\<close> is a value of the caller's.\<close>

datatype 'x Credentials = NewTLS nat | CallerCredentials 'x

definition VersionTLS12 :: nat where "VersionTLS12 = 0x0303"

datatype 'x DialOption =
    WithDefaultServiceConfig bytes
  | CallerOption 'x
  | WithRefreshingDNS int
  | WithTransportCredentials "'x Credentials"

record 'x DialOptions =
  do_Client :: ClientOptions
  do_TransportCredentials :: "'x option"
  do_GRPCOptions :: "'x list"
  do_DNSRefreshInterval :: int

definition dial_options :: "'x DialOptions \<Rightarrow> 'x DialOption list" where
  "dial_options opts =
     [WithDefaultServiceConfig ''{\"loadBalancingConfig\":[{\"round_robin\":{}}]}'']
     @ map CallerOption (do_GRPCOptions opts)
     @ [WithRefreshingDNS (if do_DNSRefreshInterval opts = 0 then defaultDNSRefreshInterval
                           else do_DNSRefreshInterval opts)]
     @ [WithTransportCredentials (case do_TransportCredentials opts of
          None \<Rightarrow> NewTLS VersionTLS12 | Some c \<Rightarrow> CallerCredentials c)]"

definition close_connection :: "('k, 'c, 's) env \<Rightarrow> 'k \<Rightarrow> 's world \<Rightarrow> go_error option \<times> 's world" where
  "close_connection env k w = call EvClose (conn_Close env k) w"

definition Dial ::
  "('k, 'c, 's) env \<Rightarrow> (bytes \<Rightarrow> 'x DialOption list \<Rightarrow> 'k result) \<Rightarrow> bytes \<Rightarrow> 'x DialOptions \<Rightarrow> 's world
     \<Rightarrow> 'k Client result \<times> 's world" where
  "Dial env grpc_NewClient target opts w =
     (if TrimSpace target = [] then (Inl (ErrorString ''create Sink client: target is required''), w)
      else if do_DNSRefreshInterval opts < 0
      then (Inl (ErrorString ''create Sink client: DNS refresh interval cannot be negative''), w)
      else
        (case grpc_NewClient target (dial_options opts) of
           Inl err \<Rightarrow> (Inl (WrapError ''create Sink connection: '' err), w)
         | Inr connection \<Rightarrow>
             (case New (Some connection) (do_Client opts) of
                Inl err \<Rightarrow> (Inl err, snd (close_connection env connection w))
              | Inr client \<Rightarrow> (Inr (client\<lparr>cl_connection := Some connection\<rparr>), w))))"

definition Close :: "('k, 'c, 's) env \<Rightarrow> 'k Client option \<Rightarrow> 's world \<Rightarrow> go_error option \<times> 's world" where
  "Close env c w =
     (case c of
        None \<Rightarrow> (None, w)
      | Some cl \<Rightarrow> (case cl_connection cl of
            None \<Rightarrow> (None, w)
          | Some connection \<Rightarrow> close_connection env connection w))"

definition Raw :: "'k Client option \<Rightarrow> 'k option" where
  "Raw c = (case c of None \<Rightarrow> None | Some cl \<Rightarrow> cl_rpc cl)"

abbreviation (input) HealthServing :: int32w where "HealthServing \<equiv> 1"

definition CheckHealth ::
  "'v lib \<Rightarrow> ('k, 'c, 's) env \<Rightarrow> 'k Client option \<Rightarrow> 'c \<Rightarrow> 's world \<Rightarrow> go_error option \<times> 's world" where
  "CheckHealth lib env c ctx w =
     (case c of
        None \<Rightarrow> (Some (ErrorString ''check Sink health: client is nil''), w)
      | Some cl \<Rightarrow> (case cl_health cl of
            None \<Rightarrow> (Some (ErrorString ''check Sink health: client is nil''), w)
          | Some cc \<Rightarrow>
              (case call EvHealth (Health_Check env cc ctx (cc_healthCallOptions (cl_config cl))) w of
                 (Inl err, w') \<Rightarrow> (Some (WrapError ''check Sink health: '' err), w')
               | (Inr None, w') \<Rightarrow> (Some (ErrorString ''check Sink health: server returned an empty response''), w')
               | (Inr (Some status), w') \<Rightarrow>
                   (if status \<noteq> HealthServing
                    then (Some (ErrorString (''check Sink health: server status is ''
                            @ EnumStringOf lib ''ServingStatus'' status)), w')
                    else (None, w')))))"

section \<open>Shared helpers\<close>

definition validateCollection :: "'k Client option \<Rightarrow> bytes \<Rightarrow> nat \<Rightarrow> go_error option" where
  "validateCollection c method cnt =
     (if (case c of None \<Rightarrow> True | Some cl \<Rightarrow> cl_rpc cl = None)
      then Some (ErrorString (method @ '' records: client is nil''))
      else if cnt = 0 then Some (ErrorString (method @ '' request must contain operations''))
      else None)"

definition validCompletionMode :: "int32w \<Rightarrow> bool" where
  "validCompletionMode mode \<longleftrightarrow> mode = CompletionWaitUntilApplied \<or> mode = CompletionReturnAfterAccepted
     \<or> mode = CompletionWaitUntilVisible"

definition shift_failure :: "int \<Rightarrow> OperationError option \<Rightarrow> OperationError option" where
  "shift_failure offset f =
     (case f of None \<Rightarrow> None | Some e \<Rightarrow> Some (e\<lparr>oe_OperationIndex := oe_OperationIndex e + offset\<rparr>))"

definition remapReadIndexes :: "ReadResult list \<Rightarrow> int \<Rightarrow> ReadResult list" where
  "remapReadIndexes results offset =
     map (\<lambda>r. r\<lparr>rr_OperationIndex := rr_OperationIndex r + offset,
                rr_Failure := shift_failure offset (rr_Failure r)\<rparr>) results"

definition remapWriteIndexes :: "WriteResult list \<Rightarrow> int \<Rightarrow> WriteResult list" where
  "remapWriteIndexes results offset =
     map (\<lambda>r. r\<lparr>wr_OperationIndex := wr_OperationIndex r + offset,
                wr_Failure := shift_failure offset (wr_Failure r)\<rparr>) results"

definition remapDeleteIndexes :: "DeleteResult list \<Rightarrow> int \<Rightarrow> DeleteResult list" where
  "remapDeleteIndexes results offset =
     map (\<lambda>r. r\<lparr>dr_OperationIndex := dr_OperationIndex r + offset,
                dr_Failure := shift_failure offset (dr_Failure r)\<rparr>) results"

text \<open>The slice expression \<^verbatim>\<open>xs[lo:hi]\<close>: a panic outside \<^verbatim>\<open>0 <= lo <= hi <= len(xs)\<close>.\<close>

definition slice :: "'a list \<Rightarrow> int \<Rightarrow> int \<Rightarrow> 'a list option" where
  "slice xs lo hi =
     (if 0 \<le> lo \<and> lo \<le> hi \<and> hi \<le> int (length xs)
      then Some (take (nat (hi - lo)) (drop (nat lo) xs)) else None)"

text \<open>The loops that check every address, naming the index of the first invalid one.\<close>

fun validate_addresses :: "bytes \<Rightarrow> nat \<Rightarrow> Address list \<Rightarrow> go_error option" where
  "validate_addresses method index [] = None"
| "validate_addresses method index (a # as) =
     (case Address_validate a of
        Some err \<Rightarrow> Some (WrapError (method @ '' operation '' @ itoa index @ '': '') err)
      | None \<Rightarrow> validate_addresses method (Suc index) as)"

section \<open>Clients that can be created\<close>

definition client_ok :: "'k Client \<Rightarrow> bool" where
  "client_ok c \<longleftrightarrow> cl_rpc c \<noteq> None \<and> cl_health c \<noteq> None \<and> config_ok (cl_config c)"

lemma New_ok: "New conn opts = Inr c \<Longrightarrow> client_ok c \<and> cl_connection c = None \<and> cl_rpc c = conn"
  by (auto simp: New_def client_ok_def dest: newClientConfig_ok split: option.splits sum.splits)

lemma client_ok_step: "client_ok c \<Longrightarrow> 0 < cc_maxOperations (cl_config c)"
  by (auto simp: client_ok_def config_ok_def)

lemma client_ok_attempts:
  "client_ok c \<Longrightarrow> 1 \<le> rp_MaxAttempts (cc_readRetry (cl_config c))"
  "client_ok c \<Longrightarrow> 1 \<le> rp_MaxAttempts (cc_scanRetry (cl_config c))"
  by (auto simp: client_ok_def config_ok_def retry_ok_def)

lemma validate_addresses_None:
  "validate_addresses method i as = None \<longleftrightarrow> (\<forall>a\<in>set as. Address_validate a = None)"
  by (induction as arbitrary: i) (auto split: option.splits)

end
