(* ===== verification/Batches.thy ===== *)
theory Batches
  imports Client
begin

text \<open>
  The interface the three batched calls share. A loop takes the slices of at most \<open>m\<close> operations
  in order, performs one step per slice, shifts the indexes of the results by the slice's
  start and stops at the first error, keeping the results so far. The lemmas are proved once from the
  loop's equation: with a positive \<open>m\<close> it returns, it performs exactly the steps of \<^const>\<open>chunks\<close>, and
  the results are numbered through.
\<close>

section \<open>What a batched call does, batch by batch\<close>

fun run_batches ::
  "('o list \<Rightarrow> 'w \<Rightarrow> 'r list result \<times> 'w) \<Rightarrow> ('r list \<Rightarrow> int \<Rightarrow> 'r list) \<Rightarrow> nat \<Rightarrow> 'o list list \<Rightarrow> 'r list \<Rightarrow> 'w
     \<Rightarrow> ('r list \<times> go_error option) \<times> 'w" where
  "run_batches step remap start [] results w = ((results, None), w)"
| "run_batches step remap start (b # bs) results w =
     (case step b w of
        (Inl err, w') \<Rightarrow> ((results, Some err), w')
      | (Inr batch, w') \<Rightarrow>
          run_batches step remap (start + length b) bs (results @ remap batch (int start)) w')"

text \<open>A result list is numbered from \<open>k\<close>, and every failure carries the number of its operation.\<close>

definition numbered :: "('r \<Rightarrow> int) \<Rightarrow> ('r \<Rightarrow> OperationError option) \<Rightarrow> int \<Rightarrow> 'r list \<Rightarrow> bool" where
  "numbered idx fl k rs \<longleftrightarrow>
     (\<forall>i<length rs. idx (rs ! i) = k + int i \<and> (\<forall>e. fl (rs ! i) = Some e \<longrightarrow> oe_OperationIndex e = k + int i))"

lemma numbered_append:
  "numbered idx fl k xs \<Longrightarrow> numbered idx fl (k + int (length xs)) ys \<Longrightarrow> numbered idx fl k (xs @ ys)"
  unfolding numbered_def
proof (intro allI impI)
  fix i
  assume a: "\<forall>i<length xs. idx (xs ! i) = k + int i \<and> (\<forall>e. fl (xs ! i) = Some e \<longrightarrow> oe_OperationIndex e = k + int i)"
    "\<forall>i<length ys. idx (ys ! i) = k + int (length xs) + int i
       \<and> (\<forall>e. fl (ys ! i) = Some e \<longrightarrow> oe_OperationIndex e = k + int (length xs) + int i)"
    "i < length (xs @ ys)"
  show "idx ((xs @ ys) ! i) = k + int i \<and> (\<forall>e. fl ((xs @ ys) ! i) = Some e \<longrightarrow> oe_OperationIndex e = k + int i)"
  proof (cases "i < length xs")
    case True
    then show ?thesis using a(1) by (simp add: nth_append)
  next
    case False
    then have "i - length xs < length ys" "k + int (length xs) + int (i - length xs) = k + int i"
      using a(3) by auto
    then show ?thesis using a(2) False by (metis nth_append)
  qed
qed

lemma chunks_drop_take:
  assumes "start < length xs" and "0 < m"
  shows "chunks m (drop start xs) = take m (drop start xs) # chunks m (drop (start + m) xs)"
  using assms by (simp add: chunks_step add.commute)

section \<open>The loop interface\<close>

locale batch_loop =
  fixes loop :: "'o list \<Rightarrow> int \<Rightarrow> 'r list \<Rightarrow> 'w \<Rightarrow> (('r list \<times> go_error option) \<times> 'w) option"
    and step :: "'o list \<Rightarrow> 'w \<Rightarrow> 'r list result \<times> 'w"
    and remap :: "'r list \<Rightarrow> int \<Rightarrow> 'r list"
    and m :: int
  assumes loop_eq: "loop ops start results w =
     (if start < int (length ops)
      then Option.bind (slice ops start (min (start + m) (int (length ops))))
        (\<lambda>b. case step b w of
               (Inl err, w') \<Rightarrow> Some ((results, Some err), w')
             | (Inr batch, w') \<Rightarrow> loop ops (start + m) (results @ remap batch start) w')
      else Some ((results, None), w))"
begin

lemma loop_stop:
  "\<not> start < int (length ops) \<Longrightarrow> loop ops start results w = Some ((results, None), w)"
  by (subst loop_eq) simp

lemma loop_go:
  assumes "0 < m" and "start < length ops"
  defines "b \<equiv> take (nat m) (drop start ops)"
  shows "loop ops (int start) results w =
    (case step b w of
       (Inl err, w') \<Rightarrow> Some ((results, Some err), w')
     | (Inr batch, w') \<Rightarrow> loop ops (int (start + nat m)) (results @ remap batch (int start)) w')"
proof -
  have "slice ops (int start) (min (int start + m) (int (length ops))) = Some b"
  proof (cases "int start + m \<le> int (length ops)")
    case True
    then show ?thesis using assms by (simp add: slice_def b_def min_def)
  next
    case False
    then show ?thesis using assms by (simp add: slice_def b_def min_def flip: of_nat_diff)
  qed
  moreover have "int start + m = int (start + nat m)" using assms(1) by simp
  ultimately show ?thesis
    using assms(2) by (subst loop_eq) (simp only: if_P of_nat_less_iff Option.bind.simps(2))
qed

lemma loop_run:
  assumes "0 < m"
  shows "loop ops (int start) results w
    = Some (run_batches step remap start (chunks (nat m) (drop start ops)) results w)"
proof (induction "length ops - start" arbitrary: start results w rule: less_induct)
  case less
  show ?case
  proof (cases "start < length ops")
    case False
    then show ?thesis by (simp add: loop_stop)
  next
    case True
    let ?b = "take (nat m) (drop start ops)"
    have len: "start + length ?b = start + nat m \<or> drop (start + nat m) ops = []"
      by auto
    have ch: "chunks (nat m) (drop start ops) = ?b # chunks (nat m) (drop (start + nat m) ops)"
      using True assms by (intro chunks_drop_take) auto
    have IH: "loop ops (int (start + nat m)) rs v
        = Some (run_batches step remap (start + nat m) (chunks (nat m) (drop (start + nat m) ops)) rs v)" for rs v
      using True assms by (intro less) auto
    have shift: "run_batches step remap (start + nat m) (chunks (nat m) (drop (start + nat m) ops)) rs v
        = run_batches step remap (start + length ?b) (chunks (nat m) (drop (start + nat m) ops)) rs v" for rs v
      using len by auto
    obtain r w1 where st: "step ?b w = (r, w1)" by (cases "step ?b w")
    show ?thesis
      by (cases r) (simp_all only: loop_go [OF assms True] ch run_batches.simps st prod.case sum.case IH shift)
  qed
qed

end

section \<open>Numbered results\<close>

locale numbered_batches = batch_loop loop step remap m
  for loop :: "'o list \<Rightarrow> int \<Rightarrow> 'r list \<Rightarrow> 'w \<Rightarrow> (('r list \<times> go_error option) \<times> 'w) option"
    and step :: "'o list \<Rightarrow> 'w \<Rightarrow> 'r list result \<times> 'w"
    and remap :: "'r list \<Rightarrow> int \<Rightarrow> 'r list"
    and m :: int +
  fixes ok :: bool and idx :: "'r \<Rightarrow> int" and fl :: "'r \<Rightarrow> OperationError option"
  assumes step_numbered: "ok \<Longrightarrow> step b w = (Inr rs, w') \<Longrightarrow> length rs = length b \<and> numbered idx fl 0 rs"
    and remap_numbered: "numbered idx fl 0 rs \<Longrightarrow> numbered idx fl k (remap rs k)"
    and remap_length: "length (remap rs k) = length rs"
begin

lemma run_numbered:
  assumes ok and "run_batches step remap start bs results w = ((out, err), w')"
    and "numbered idx fl 0 results" and "length results = start"
  shows "numbered idx fl 0 out \<and> (err = None \<longrightarrow> length out = start + length (concat bs))
     \<and> (err \<noteq> None \<longrightarrow> (\<exists>k<length bs. length out = start + length (concat (take k bs))))"
  using assms
proof (induction bs arbitrary: start results w)
  case Nil
  then show ?case by simp
next
  case (Cons b bs)
  show ?case
  proof (cases "step b w")
    case (Pair r w1)
    show ?thesis
    proof (cases r)
      case (Inl e)
      then show ?thesis using Cons.prems Pair by (auto intro!: exI [of _ 0])
    next
      case (Inr batch)
      have sn: "length batch = length b" "numbered idx fl 0 batch"
        using step_numbered [OF Cons.prems(1)] Pair Inr by auto
      have "numbered idx fl 0 (results @ remap batch (int start))"
        using Cons.prems(3,4) remap_numbered [OF sn(2), of "int start"] by (intro numbered_append) auto
      then have "numbered idx fl 0 out \<and> (err = None \<longrightarrow> length out = start + length b + length (concat bs))
         \<and> (err \<noteq> None \<longrightarrow> (\<exists>k<length bs. length out = start + length b + length (concat (take k bs))))"
        using Cons.prems Pair Inr sn by (intro Cons.IH [of _ "results @ remap batch (int start)" w1])
          (auto simp: remap_length)
      moreover have "\<exists>k<length (b # bs). length out = start + length (concat (take k (b # bs)))"
        if "k < length bs" "length out = start + length b + length (concat (take k bs))" for k
        using that by (intro exI [of _ "Suc k"]) auto
      ultimately show ?thesis by auto
    qed
  qed
qed

text \<open>Results in request order, numbered through; with an error, those of the leading batches.\<close>

lemma loop_numbered:
  assumes ok and "0 < m" and "loop ops 0 [] w = Some ((out, err), w')"
  shows "numbered idx fl 0 out \<and> (err = None \<longrightarrow> length out = length ops)
     \<and> (err \<noteq> None \<longrightarrow> (\<exists>k<length (chunks (nat m) ops). length out = length (concat (take k (chunks (nat m) ops)))))"
proof -
  have "run_batches step remap 0 (chunks (nat m) ops) [] w = ((out, err), w')"
    using loop_run [of ops 0 "[]" w] assms by simp
  from run_numbered [OF assms(1) this] show ?thesis
    using assms(2) by (simp add: numbered_def concat_chunks)
qed

end

section \<open>Results answer their own operation\<close>

text \<open>
  \<open>answered op i r\<close>: the result \<open>r\<close> with number \<open>i\<close> is an answer to the operation \<open>op\<close>. When every
  step answers the operations of its batch one by one, the batched call answers the
  operations of the whole collection one by one.
\<close>

definition answers :: "('o \<Rightarrow> nat \<Rightarrow> 'r \<Rightarrow> bool) \<Rightarrow> nat \<Rightarrow> 'o list \<Rightarrow> 'r list \<Rightarrow> bool" where
  "answers answered k ops rs \<longleftrightarrow> length rs \<le> length ops \<and> (\<forall>i<length rs. answered (ops ! i) (k + i) (rs ! i))"

lemma answers_append:
  assumes "answers P k xs rs" and "length rs = length xs" and "answers P (k + length xs) ys rs'"
  shows "answers P k (xs @ ys) (rs @ rs')"
  unfolding answers_def
proof (intro conjI allI impI)
  show "length (rs @ rs') \<le> length (xs @ ys)" using assms by (simp add: answers_def)
  fix i assume i: "i < length (rs @ rs')"
  show "P ((xs @ ys) ! i) (k + i) ((rs @ rs') ! i)"
  proof (cases "i < length rs")
    case True
    then show ?thesis using assms by (simp add: answers_def nth_append)
  next
    case False
    then have "i - length xs < length rs'" "k + length xs + (i - length xs) = k + i" using i assms(2) by auto
    then have "P (ys ! (i - length xs)) (k + i) (rs' ! (i - length xs))"
      using assms(3) unfolding answers_def by metis
    then show ?thesis using False assms(2) by (simp add: nth_append)
  qed
qed

locale answered_batches = batch_loop loop step remap m
  for loop :: "'o list \<Rightarrow> int \<Rightarrow> 'r list \<Rightarrow> 'w \<Rightarrow> (('r list \<times> go_error option) \<times> 'w) option"
    and step :: "'o list \<Rightarrow> 'w \<Rightarrow> 'r list result \<times> 'w"
    and remap :: "'r list \<Rightarrow> int \<Rightarrow> 'r list"
    and m :: int +
  fixes ok :: bool and answered :: "'o \<Rightarrow> nat \<Rightarrow> 'r \<Rightarrow> bool"
  assumes step_answered: "ok \<Longrightarrow> step b w = (Inr rs, w') \<Longrightarrow> length rs = length b \<and> answers answered 0 b rs"
    and remap_answered: "answers answered 0 b rs \<Longrightarrow> answers answered k b (remap rs (int k))"
    and remap_size: "length (remap rs k) = length rs"
begin

lemma run_answered:
  assumes ok and "run_batches step remap start bs results w = ((out, err), w')"
    and "answers answered 0 pre results" and "length results = length pre" and "start = length pre"
  shows "answers answered 0 (pre @ concat bs) out"
  using assms
proof (induction bs arbitrary: start pre results w)
  case Nil
  then show ?case by simp
next
  case (Cons b bs)
  obtain r w1 where st: "step b w = (r, w1)" by (cases "step b w")
  show ?case
  proof (cases r)
    case (Inl e)
    then have "out = results" using Cons.prems(2) st by simp
    then show ?thesis
      using Cons.prems(3,4) answers_append [of answered 0 pre results "b @ concat bs" "[]"] by (simp add: answers_def)
  next
    case (Inr batch)
    have b: "length batch = length b" "answers answered (length pre) b (remap batch (int (length pre)))"
      using step_answered [OF Cons.prems(1)] st Inr remap_answered by auto
    have "answers answered 0 ((pre @ b) @ concat bs) out"
      using Cons.prems st Inr b answers_append [OF Cons.prems(3,4), of b]
      by (intro Cons.IH [of "start + length b" "results @ remap batch (int start)" w1]) (auto simp: remap_size)
    then show ?thesis by simp
  qed
qed

lemma loop_answered:
  assumes ok and "0 < m" and "loop ops 0 [] w = Some ((out, err), w')"
  shows "answers answered 0 ops out"
proof -
  have "run_batches step remap 0 (chunks (nat m) ops) [] w = ((out, err), w')"
    using loop_run [of ops 0 "[]" w] assms by simp
  from run_answered [OF assms(1) this, of "[]"] show ?thesis
    using assms(2) by (simp add: answers_def concat_chunks)
qed

end

text \<open>
  What may be assumed of a server: \<open>ans op p\<close> holds of every result \<open>p\<close> it returns with the index of the
  operation \<open>op\<close> of the request.
\<close>

definition honest ::
  "('k \<Rightarrow> 'c \<Rightarrow> bytes \<Rightarrow> 'req \<Rightarrow> CallOption list \<Rightarrow> 's \<Rightarrow> 'resp result \<times> 's) \<Rightarrow> ('req \<Rightarrow> 'o option list)
     \<Rightarrow> ('resp \<Rightarrow> 'p option list) \<Rightarrow> ('p \<Rightarrow> uint32w) \<Rightarrow> ('o \<Rightarrow> 'p \<Rightarrow> bool) \<Rightarrow> bool" where
  "honest invoke operations results opindex ans \<longleftrightarrow>
     (\<forall>k c name req opts s resp s' p op. invoke k c name req opts s = (Inr resp, s') \<longrightarrow>
        Some p \<in> set (results resp) \<longrightarrow> unat (opindex p) < length (operations req) \<longrightarrow>
        operations req ! unat (opindex p) = Some op \<longrightarrow> ans op p)"

section \<open>The calls a batched call makes\<close>

text \<open>
  \<open>sent b evs\<close> describes the calls one step may make for the batch \<open>b\<close>. The trace of a batched
  call is then the concatenation of such traces for the leading batches, for all of them
  when it succeeds.
\<close>

locale traced_batches = batch_loop loop step remap m
  for loop :: "'o list \<Rightarrow> int \<Rightarrow> 'r list \<Rightarrow> 's world \<Rightarrow> (('r list \<times> go_error option) \<times> 's world) option"
    and step :: "'o list \<Rightarrow> 's world \<Rightarrow> 'r list result \<times> 's world"
    and remap :: "'r list \<Rightarrow> int \<Rightarrow> 'r list"
    and m :: int +
  fixes ok :: bool and sent :: "'o list \<Rightarrow> event list \<Rightarrow> bool"
  assumes step_sent: "ok \<Longrightarrow> step b w = (r, w') \<Longrightarrow> \<exists>evs. w_trace w' = w_trace w @ evs \<and> sent b evs"
begin

lemma run_sent:
  assumes ok and "run_batches step remap start bs results w = ((out, err), w')"
  shows "\<exists>k\<le>length bs. \<exists>evss. w_trace w' = w_trace w @ concat evss \<and> list_all2 sent (take k bs) evss
     \<and> (err = None \<longrightarrow> k = length bs)"
  using assms
proof (induction bs arbitrary: start results w)
  case Nil
  then show ?case by (auto intro!: exI [of _ "[]"])
next
  case (Cons b bs)
  obtain r w1 where st: "step b w = (r, w1)" by (cases "step b w")
  obtain evs where evs: "w_trace w1 = w_trace w @ evs" "sent b evs"
    using step_sent [OF assms(1) st] by auto
  show ?case
  proof (cases r)
    case (Inl e)
    then show ?thesis using Cons.prems st evs by (auto intro!: exI [of _ "Suc 0"] exI [of _ "[evs]"])
  next
    case (Inr batch)
    then obtain k evss where "k \<le> length bs" "w_trace w' = w_trace w1 @ concat evss"
      "list_all2 sent (take k bs) evss" "err = None \<longrightarrow> k = length bs"
      using Cons.IH [OF Cons.prems(1), of "start + length b" "results @ remap batch (int start)" w1] Cons.prems st
      by auto
    then show ?thesis using evs by (intro exI [of _ "Suc k"] conjI exI [of _ "evs # evss"]) auto
  qed
qed

lemma loop_sent:
  assumes ok and "0 < m" and "loop ops 0 [] w = Some ((out, err), w')"
  shows "\<exists>k\<le>length (chunks (nat m) ops). \<exists>evss. w_trace w' = w_trace w @ concat evss
     \<and> list_all2 sent (take k (chunks (nat m) ops)) evss \<and> (err = None \<longrightarrow> k = length (chunks (nat m) ops))"
  using run_sent [of 0 "chunks (nat m) ops" "[]" w out err w'] loop_run [of ops 0 "[]" w] assms by simp

end

text \<open>A call that makes exactly one request per batch.\<close>

locale single_shot = batch_loop loop step remap m
  for loop :: "'o list \<Rightarrow> int \<Rightarrow> 'r list \<Rightarrow> 's world \<Rightarrow> (('r list \<times> go_error option) \<times> 's world) option"
    and step :: "'o list \<Rightarrow> 's world \<Rightarrow> 'r list result \<times> 's world"
    and remap :: "'r list \<Rightarrow> int \<Rightarrow> 'r list"
    and m :: int +
  fixes request :: "'o list \<Rightarrow> event"
  assumes step_trace: "w_trace (snd (step b w)) = w_trace w @ [request b]"

sublocale single_shot \<subseteq> one: traced_batches loop step remap m True "\<lambda>b evs. evs = [request b]"
proof
  fix b w r w'
  assume "step b w = (r, w')"
  then show "\<exists>evs. w_trace w' = w_trace w @ evs \<and> evs = [request b]"
    using step_trace [of b w] by simp
qed

lemma list_all2_singletons: "list_all2 (\<lambda>b evs. evs = [f b]) bs evss \<Longrightarrow> concat evss = map f bs"
  by (induction rule: list_all2_induct) auto

context single_shot
begin

lemma loop_trace:
  assumes "0 < m" and "loop ops 0 [] w = Some ((out, err), w')"
  shows "\<exists>k\<le>length (chunks (nat m) ops). w_trace w' = w_trace w @ map request (take k (chunks (nat m) ops))
     \<and> (err = None \<longrightarrow> k = length (chunks (nat m) ops))"
  using one.loop_sent [OF TrueI assms] by (auto dest!: list_all2_singletons)

end

section \<open>Shifting indexes keeps results numbered\<close>

lemma operationFailure_at:
  "operationFailure j f = Inr e \<Longrightarrow> operationFailure i f = Inr (e\<lparr>oe_OperationIndex := int i\<rparr>)"
  by (auto simp: operationFailure_def split: option.splits if_splits)

lemma shift_failure_Some [simp]:
  "shift_failure k f = Some e \<longleftrightarrow>
     (\<exists>e'. f = Some e' \<and> e = e'\<lparr>oe_OperationIndex := oe_OperationIndex e' + k\<rparr>)"
  by (auto simp: shift_failure_def split: option.splits)

lemma remap_numbered_lemmas:
  "numbered rr_OperationIndex rr_Failure 0 rs \<Longrightarrow> numbered rr_OperationIndex rr_Failure k (remapReadIndexes rs k)"
  "numbered wr_OperationIndex wr_Failure 0 ws \<Longrightarrow> numbered wr_OperationIndex wr_Failure k (remapWriteIndexes ws k)"
  "numbered dr_OperationIndex dr_Failure 0 ds \<Longrightarrow> numbered dr_OperationIndex dr_Failure k (remapDeleteIndexes ds k)"
  by (auto simp: numbered_def remapReadIndexes_def remapWriteIndexes_def remapDeleteIndexes_def)

lemma remap_lengths [simp]:
  "length (remapReadIndexes rs k) = length rs"
  "length (remapWriteIndexes ws k) = length ws"
  "length (remapDeleteIndexes ds k) = length ds"
  by (simp_all add: remapReadIndexes_def remapWriteIndexes_def remapDeleteIndexes_def)

end
