(* ===== verification/Client_Read.thy ===== *)
theory Client_Read
  imports Batches
begin

text \<open>
  \<^verbatim>\<open>Read\<close> and \<^verbatim>\<open>readOperationsWithRetry\<close> of \<^verbatim>\<open>client.go\<close>. A batch is read in at most \<^verbatim>\<open>MaxAttempts\<close> requests;
  every request after the first repeats only operations whose last result was a retryable
  failure, or the whole pending list after an unavailable transport. The returned results are in
  request order whatever the attempts were.
\<close>

section \<open>Retried reads\<close>

abbreviation (input) codes_Unavailable :: nat where "codes_Unavailable \<equiv> 14"

type_synonym pendingRead = "nat \<times> pbReadOperation"

definition read_request :: "pbReadOperation list \<Rightarrow> pbReadRequest" where
  "read_request ops = \<lparr>pbReadRequest_Operations = map Some ops, pbReadRequest_unknownFields = []\<rparr>"

definition at_index :: "nat \<Rightarrow> ReadResult \<Rightarrow> ReadResult" where
  "at_index i r = r\<lparr>rr_OperationIndex := int i,
     rr_Failure := map_option (\<lambda>e. e\<lparr>oe_OperationIndex := int i\<rparr>) (rr_Failure r)\<rparr>"

definition retryable_failure :: "ReadResult \<Rightarrow> bool" where
  "retryable_failure r = (case rr_Failure r of None \<Rightarrow> False | Some e \<Rightarrow> oe_Retryable e)"

text \<open>The loop over the decoded results: the updated results and the work left (\<^verbatim>\<open>next\<close>).\<close>

fun record_decoded ::
  "bool \<Rightarrow> (pendingRead \<times> ReadResult) list \<Rightarrow> ReadResult list \<Rightarrow> ReadResult list \<times> pendingRead list" where
  "record_decoded again [] results = (results, [])"
| "record_decoded again ((work, result) # rest) results =
     (let result = at_index (fst work) result;
          (results', left) = record_decoded again rest (results[fst work := result])
      in (results', if again \<and> retryable_failure result then work # left else left))"

function readAttempts ::
  "'v lib \<Rightarrow> ('k, 'c, 's) env \<Rightarrow> 'k \<Rightarrow> clientConfig \<Rightarrow> 'c \<Rightarrow> int \<Rightarrow> int \<Rightarrow> pendingRead list \<Rightarrow> ReadResult list
     \<Rightarrow> 's world \<Rightarrow> ReadResult list result \<times> 's world" where
  "readAttempts lib env rpc config ctx attempt backoff pending results w =
     (let retry = cc_readRetry config
      in if attempt \<le> rp_MaxAttempts retry then
           (case sinkClient_Read env rpc ctx (read_request (map snd pending)) (cc_sinkCallOptions config) w of
              (Inl err, w1) \<Rightarrow>
                if attempt = rp_MaxAttempts retry \<or> status_Code lib err \<noteq> codes_Unavailable then (Inl err, w1)
                else (case backoff_wait env ctx backoff (rp_Jitter retry) w1 of
                        (Some err, w2) \<Rightarrow> (Inl err, w2)
                      | (None, w2) \<Rightarrow>
                          readAttempts lib env rpc config ctx (attempt + 1)
                            (nextBackoff (float_oob env) backoff retry) pending results w2)
            | (Inr response, w1) \<Rightarrow>
                (case decodeReadResponse lib response (length pending) of
                   Inl err \<Rightarrow> (Inl err, w1)
                 | Inr decoded \<Rightarrow>
                     (case record_decoded (attempt < rp_MaxAttempts retry) (zip pending decoded) results of
                        (results', left) \<Rightarrow>
                          if length left = 0 then (Inr results', w1)
                          else (case backoff_wait env ctx backoff (rp_Jitter retry) w1 of
                                  (Some err, w2) \<Rightarrow> (Inl err, w2)
                                | (None, w2) \<Rightarrow>
                                    readAttempts lib env rpc config ctx (attempt + 1)
                                      (nextBackoff (float_oob env) backoff retry) left results' w2))))
         else (Inr results, w))"
  by pat_completeness auto
termination
  by (relation "measure (\<lambda>(lib, env, rpc, config, ctx, attempt, backoff, pending, results, w).
        nat (rp_MaxAttempts (cc_readRetry config) + 1 - attempt))") auto

declare readAttempts.simps [simp del]

definition readOperationsWithRetry ::
  "'v lib \<Rightarrow> ('k, 'c, 's) env \<Rightarrow> 'k \<Rightarrow> clientConfig \<Rightarrow> 'c \<Rightarrow> pbReadOperation list \<Rightarrow> 's world
     \<Rightarrow> ReadResult list result \<times> 's world" where
  "readOperationsWithRetry lib env rpc config ctx operations w =
     readAttempts lib env rpc config ctx 1 (rp_InitialBackoff (cc_readRetry config))
       (zip [0..<length operations] operations) (replicate (length operations) empty_ReadResult) w"

section \<open>Read\<close>

definition read_operation :: "Address \<Rightarrow> pbReadOperation" where
  "read_operation a = \<lparr>pbReadOperation_Address = Some (Address_toProto a),
     pbReadOperation_unknownFields = []\<rparr>"

definition readBatch ::
  "'v lib \<Rightarrow> ('k, 'c, 's) env \<Rightarrow> 'k \<Rightarrow> clientConfig \<Rightarrow> 'c \<Rightarrow> pbReadOperation list \<Rightarrow> 's world
     \<Rightarrow> ReadResult list result \<times> 's world" where
  "readBatch lib env rpc config ctx operations w =
     (case readOperationsWithRetry lib env rpc config ctx operations w of
        (Inl err, w') \<Rightarrow> (Inl (WrapError ''read records: '' err), w')
      | (Inr batch, w') \<Rightarrow> (Inr batch, w'))"

partial_function (option) Read_loop ::
  "'v lib \<Rightarrow> ('k, 'c, 's) env \<Rightarrow> 'k \<Rightarrow> clientConfig \<Rightarrow> 'c \<Rightarrow> pbReadOperation list \<Rightarrow> int
     \<Rightarrow> ReadResult list \<Rightarrow> 's world \<Rightarrow> ((ReadResult list \<times> go_error option) \<times> 's world) option" where
  "Read_loop lib env rpc config ctx operations start results w =
     (if start < int (length operations)
      then Option.bind (slice operations start (min (start + cc_maxOperations config) (int (length operations))))
        (\<lambda>b. case readBatch lib env rpc config ctx b w of
               (Inl err, w') \<Rightarrow> Some ((results, Some err), w')
             | (Inr batch, w') \<Rightarrow>
                 Read_loop lib env rpc config ctx operations (start + cc_maxOperations config)
                   (results @ remapReadIndexes batch start) w')
      else Some ((results, None), w))"

declare Read_loop.simps [code]

definition Read ::
  "'v lib \<Rightarrow> ('k, 'c, 's) env \<Rightarrow> 'k Client option \<Rightarrow> 'c \<Rightarrow> Address list \<Rightarrow> 's world
     \<Rightarrow> ((ReadResult list \<times> go_error option) \<times> 's world) option" where
  "Read lib env c ctx addresses w =
     (case validateCollection c ''read'' (length addresses) of
        Some err \<Rightarrow> Some (([], Some err), w)
      | None \<Rightarrow>
          (case validate_addresses ''read'' 0 addresses of
             Some err \<Rightarrow> Some (([], Some err), w)
           | None \<Rightarrow> Read_loop lib env (the (cl_rpc (the c))) (cl_config (the c)) ctx
                       (map read_operation addresses) 0 [] w))"

section \<open>What one attempt records\<close>

text \<open>What the loop leaves: recorded results at the pending indexes, nothing else changed.\<close>

definition recorded ::
  "bool \<Rightarrow> (pendingRead \<times> ReadResult) list \<Rightarrow> ReadResult list \<Rightarrow> ReadResult list \<Rightarrow> pendingRead list \<Rightarrow> bool" where
  "recorded again prs results results' left \<longleftrightarrow>
     length results' = length results \<and>
     (\<forall>i. i \<notin> (fst \<circ> fst) ` set prs \<longrightarrow> results' ! i = results ! i) \<and>
     (\<forall>p\<in>set prs. results' ! fst (fst p) = at_index (fst (fst p)) (snd p)) \<and>
     left = (if again then map fst (filter (\<lambda>p. retryable_failure (snd p)) prs) else [])"

lemma retryable_at_index [simp]: "retryable_failure (at_index i r) = retryable_failure r"
  by (simp add: retryable_failure_def at_index_def split: option.split)

lemma record_decoded_recorded:
  assumes "distinct (map (fst \<circ> fst) prs)" and "\<forall>p\<in>set prs. fst (fst p) < length results"
    and "record_decoded again prs results = (results', left)"
  shows "recorded again prs results results' left"
  using assms
proof (induction prs arbitrary: results results' left)
  case Nil
  then show ?case by (simp add: recorded_def)
next
  case (Cons p prs)
  obtain work result where p: "p = (work, result)" by (cases p)
  let ?results1 = "results[fst work := at_index (fst work) result]"
  obtain left1 where rd: "record_decoded again prs ?results1 = (results', left1)"
    and l: "left = (if again \<and> retryable_failure result then work # left1 else left1)"
    using Cons.prems(3) p by (auto simp: Let_def split: prod.splits)
  have IH: "recorded again prs ?results1 results' left1"
    using Cons.prems p by (intro Cons.IH [OF _ _ rd]) auto
  have "fst work \<notin> (fst \<circ> fst) ` set prs" using Cons.prems(1) p by simp
  then have "results' ! fst work = at_index (fst work) result"
    using IH Cons.prems(2) p by (simp add: recorded_def)
  then show ?case
    using IH p l by (auto simp: recorded_def)
qed

section \<open>One attempt and what follows it\<close>

text \<open>\<open>Q op r\<close> is what the theorems want to know of a decoded result \<open>r\<close> for the operation \<open>op\<close>.\<close>

definition decoded_ok ::
  "(pbReadOperation \<Rightarrow> ReadResult \<Rightarrow> bool) \<Rightarrow> pendingRead list \<Rightarrow> ReadResult list \<Rightarrow> bool" where
  "decoded_ok Q pending decoded \<longleftrightarrow> list_all2 (\<lambda>p r. Q (snd p) r) pending decoded"

lemma decoded_ok_length: "decoded_ok Q pending decoded \<Longrightarrow> length decoded = length pending"
  by (simp add: decoded_ok_def list_all2_iff)

definition promises ::
  "'v lib \<Rightarrow> ('k, 'c, 's) env \<Rightarrow> (pbReadOperation \<Rightarrow> ReadResult \<Rightarrow> bool) \<Rightarrow> bool" where
  "promises lib env Q \<longleftrightarrow> (\<forall>rpc ctx opts w w' ops response decoded.
     sinkClient_Read env rpc ctx (read_request ops) opts w = (Inr response, w') \<longrightarrow>
     decodeReadResponse lib response (length ops) = Inr decoded \<longrightarrow> list_all2 Q ops decoded)"

definition continues ::
  "(pbReadOperation \<Rightarrow> ReadResult \<Rightarrow> bool) \<Rightarrow> pendingRead list \<Rightarrow> ReadResult list \<Rightarrow> pendingRead list
     \<Rightarrow> ReadResult list \<Rightarrow> bool" where
  "continues Q pending results left results' \<longleftrightarrow>
     left = pending \<and> results' = results
     \<or> (\<exists>decoded. decoded_ok Q pending decoded \<and> left \<noteq> []
          \<and> recorded True (zip pending decoded) results results' left)"

definition pending_ok :: "pendingRead list \<Rightarrow> ReadResult list \<Rightarrow> bool" where
  "pending_ok pending results \<longleftrightarrow> distinct (map fst pending) \<and> (\<forall>p\<in>set pending. fst p < length results)"

lemma decodeReadResponse_length: "decodeReadResponse lib resp n = Inr rs \<Longrightarrow> length rs = n"
  by (auto simp: decodeReadResponse_def dest: read_loop.decode_complete(1) split: option.splits if_splits)

lemma recorded_other:
  "recorded again (zip pending decoded) results results' left \<Longrightarrow> i \<notin> fst ` set pending \<Longrightarrow>
     results' ! i = results ! i"
  by (fastforce simp: recorded_def dest: set_zip_leftD)

lemma recorded_length: "recorded again prs results results' left \<Longrightarrow> length results' = length results"
  by (simp add: recorded_def)

lemma record_decoded_pending:
  assumes "pending_ok pending results" and "length decoded = length pending"
    and "record_decoded again (zip pending decoded) results = (results', left)"
  shows "recorded again (zip pending decoded) results results' left"
proof (rule record_decoded_recorded [OF _ _ assms(3)])
  have "map (fst \<circ> fst) (zip pending decoded) = map fst pending"
    using assms(2) by (metis map_fst_zip map_map)
  then show "distinct (map (fst \<circ> fst) (zip pending decoded))"
    using assms(1) by (simp add: pending_ok_def)
  show "\<forall>p\<in>set (zip pending decoded). fst (fst p) < length results"
    using assms(1) by (fastforce simp: pending_ok_def dest: set_zip_leftD)
qed

lemma readAttempts_cases:
  assumes eq: "readAttempts lib env rpc config ctx attempt backoff pending results w = (r, w')"
    and att: "attempt \<le> rp_MaxAttempts (cc_readRetry config)" and pend: "pending_ok pending results"
    and Q: "promises lib env Q"
  defines "t \<equiv> w_trace w @ [EvRead (read_request (map snd pending))]"
  obtains (fail) err where "r = Inl err" "w_trace w' = t"
  | (cancel) err d where "attempt < rp_MaxAttempts (cc_readRetry config)" "r = Inl err" "w_trace w' = t @ [EvSleep d]"
  | (retry) w2 d left results' where "attempt < rp_MaxAttempts (cc_readRetry config)" "w_trace w2 = t @ [EvSleep d]"
      "continues Q pending results left results'"
      "readAttempts lib env rpc config ctx (attempt + 1)
         (nextBackoff (float_oob env) backoff (cc_readRetry config)) left results' w2 = (r, w')"
  | (ok) decoded results' where "decoded_ok Q pending decoded" "w_trace w' = t" "r = Inr results'"
      "recorded (attempt < rp_MaxAttempts (cc_readRetry config)) (zip pending decoded) results results' []"
proof -
  let ?retry = "cc_readRetry config"
  obtain r1 w1 where rd: "sinkClient_Read env rpc ctx (read_request (map snd pending)) (cc_sinkCallOptions config) w
      = (r1, w1)" by (cases "sinkClient_Read env rpc ctx (read_request (map snd pending)) (cc_sinkCallOptions config) w")
  have t1: "w_trace w1 = t" using stub_trace(1) [OF rd] by (simp add: t_def)
  obtain e2 w2 where wt: "backoff_wait env ctx backoff (rp_Jitter ?retry) w1 = (e2, w2)"
    by (cases "backoff_wait env ctx backoff (rp_Jitter ?retry) w1")
  obtain d where t2: "w_trace w2 = t @ [EvSleep d]" using backoff_wait_trace [OF wt] t1 by auto
  note unfold = eq [unfolded readAttempts.simps [of lib env rpc config ctx attempt] Let_def if_P [OF att] rd prod.case]
  show thesis
  proof (cases r1)
    case (Inl err)
    note u = unfold [unfolded Inl sum.case wt]
    show ?thesis
    proof (cases "attempt = rp_MaxAttempts ?retry \<or> status_Code lib err \<noteq> codes_Unavailable")
      case True
      then show ?thesis using u t1 by (intro fail) auto
    next
      case False
      then have lt: "attempt < rp_MaxAttempts ?retry" using att by simp
      show ?thesis
      proof (cases e2)
        case None
        then show ?thesis using u False lt t2 by (intro retry [of w2 d pending results]) (auto simp: continues_def)
      next
        case (Some e)
        then show ?thesis using u False lt t2 by (intro cancel [of e d]) auto
      qed
    qed
  next
    case (Inr response)
    note u = unfold [unfolded Inr sum.case wt]
    show ?thesis
    proof (cases "decodeReadResponse lib response (length pending)")
      case (Inl err)
      then show ?thesis using u t1 by (intro fail [of err]) auto
    next
      case (Inr decoded)
      obtain results' left
        where rec: "record_decoded (attempt < rp_MaxAttempts ?retry) (zip pending decoded) results = (results', left)"
        by (cases "record_decoded (attempt < rp_MaxAttempts ?retry) (zip pending decoded) results")
      have len: "length decoded = length pending" by (rule decodeReadResponse_length [OF Inr])
      have dec: "decoded_ok Q pending decoded"
        using Q rd Inr \<open>r1 = Inr response\<close> unfolding promises_def decoded_ok_def
        by (fastforce simp: list_all2_map1)
      note R = record_decoded_pending [OF pend len rec]
      show ?thesis
      proof (cases "left = []")
        case True
        then show ?thesis using u Inr rec t1 dec R by (intro ok [of decoded results']) auto
      next
        case False
        then have lt: "attempt < rp_MaxAttempts ?retry" using R by (auto simp: recorded_def split: if_splits)
        have c: "continues Q pending results left results'"
          using R lt dec False by (auto simp: continues_def)
        show ?thesis
        proof (cases e2)
          case None
          then show ?thesis using u Inr rec lt t2 c False by (intro retry [of w2 d left results']) auto
        next
          case (Some e)
          then show ?thesis using u Inr rec lt t2 False by (intro cancel [of e d]) auto
        qed
      qed
    qed
  qed
qed

section \<open>The requests of a batch\<close>

text \<open>
  The calls a batch may make with \<open>n\<close> attempts left: one request for the pending operations,
  then either nothing, or a wait that is cancelled, or a wait and the calls for what is still
  pending, a subsequence of what was pending before.
\<close>

inductive read_trace :: "nat \<Rightarrow> pbReadOperation list \<Rightarrow> event list \<Rightarrow> bool" where
  last: "read_trace (Suc n) ops [EvRead (read_request ops)]"
| cancelled: "read_trace (Suc (Suc n)) ops [EvRead (read_request ops), EvSleep d]"
| again: "read_trace n ops' evs \<Longrightarrow> subseq ops' ops \<Longrightarrow> (ops \<noteq> [] \<longrightarrow> ops' \<noteq> []) \<Longrightarrow>
    read_trace (Suc n) ops (EvRead (read_request ops) # EvSleep d # evs)"

definition reads :: "event list \<Rightarrow> pbReadRequest list" where
  "reads evs = concat (map (\<lambda>e. case e of EvRead r \<Rightarrow> [r] | _ \<Rightarrow> []) evs)"

lemma reads_simps [simp]:
  "reads [] = []" "reads (EvRead r # evs) = r # reads evs" "reads (EvSleep d # evs) = reads evs"
  "reads (xs @ ys) = reads xs @ reads ys"
  by (simp_all add: reads_def)

lemma read_trace_bound: "read_trace n ops evs \<Longrightarrow> 1 \<le> length (reads evs) \<and> length (reads evs) \<le> n"
  by (induction rule: read_trace.induct) auto

lemma read_trace_first: "read_trace n ops evs \<Longrightarrow> \<exists>rest. reads evs = read_request ops # rest"
  by (induction rule: read_trace.induct) auto

lemma read_trace_requests:
  "read_trace n ops evs \<Longrightarrow> req \<in> set (reads evs) \<Longrightarrow> \<exists>ops'. subseq ops' ops \<and> req = read_request ops'"
  by (induction rule: read_trace.induct) (auto intro: subseq_order.order_trans)

lemma subseq_filter_zip:
  "length ys = length xs \<Longrightarrow> subseq (map fst (filter P (zip xs ys))) xs"
  by (metis map_fst_zip subseq_filter_left subseq_map)

lemma continues_props:
  assumes "continues Q pending results left results'" and "pending_ok pending results"
  shows "subseq left pending" and "pending_ok left results'" and "length results' = length results"
    and "pending \<noteq> [] \<longrightarrow> left \<noteq> []"
proof -
  show sub: "subseq left pending"
    using assms(1) by (auto simp: continues_def recorded_def subseq_filter_zip dest: decoded_ok_length)
  show len: "length results' = length results"
    using assms(1) by (auto simp: continues_def recorded_def)
  show "pending \<noteq> [] \<longrightarrow> left \<noteq> []" using assms(1) by (auto simp: continues_def)
  show "pending_ok left results'"
    using assms(2) sub len subseq_set [OF sub] subseq_keeps_distinct [OF subseq_map [OF sub, of fst]]
    by (auto simp: pending_ok_def)
qed

text \<open>The result at a pending index comes from a decoded result for that operation.\<close>

definition result_for :: "(pbReadOperation \<Rightarrow> ReadResult \<Rightarrow> bool) \<Rightarrow> ReadResult list \<Rightarrow> pendingRead \<Rightarrow> bool" where
  "result_for Q results p \<longleftrightarrow> (\<exists>r. Q (snd p) r \<and> results ! fst p = at_index (fst p) r)"

lemma recorded_result:
  assumes "recorded again (zip pending decoded) results results' left" and "decoded_ok Q pending decoded"
    and "p \<in> set pending"
  shows "result_for Q results' p \<and> (again \<and> p \<notin> set left \<longrightarrow> \<not> retryable_failure (results' ! fst p))"
proof -
  obtain q where q: "(p, q) \<in> set (zip pending decoded)"
    using assms(3) decoded_ok_length [OF assms(2)] by (metis in_set_impl_in_set_zip1)
  then have v: "results' ! fst p = at_index (fst p) q" using assms(1) by (auto simp: recorded_def)
  moreover have "Q (snd p) q" using assms(2) q by (auto simp: decoded_ok_def list_all2_iff)
  moreover have "again \<and> p \<notin> set left \<longrightarrow> \<not> retryable_failure q" using assms(1) q by (force simp: recorded_def)
  ultimately show ?thesis by (auto simp: result_for_def)
qed

lemma continues_settled:
  assumes "continues Q pending results left results'" and "p \<in> set pending" and "p \<notin> set left"
  shows "result_for Q results' p \<and> \<not> retryable_failure (results' ! fst p)"
  using assms by (auto simp: continues_def dest: recorded_result)

lemma continues_other:
  "continues Q pending results left results' \<Longrightarrow> i \<notin> fst ` set pending \<Longrightarrow> results' ! i = results ! i"
  by (auto simp: continues_def dest: recorded_other)

text \<open>The whole retry loop, from any attempt on.\<close>

definition attempt_post ::
  "(pbReadOperation \<Rightarrow> ReadResult \<Rightarrow> bool) \<Rightarrow> int \<Rightarrow> pendingRead list \<Rightarrow> ReadResult list \<Rightarrow> ReadResult list result \<Rightarrow> event list \<Rightarrow> bool" where
  "attempt_post Q n pending results r evs \<longleftrightarrow>
     read_trace (nat n) (map snd pending) evs \<and>
     (\<forall>out. r = Inr out \<longrightarrow>
        length out = length results
        \<and> (\<forall>i. i \<notin> fst ` set pending \<longrightarrow> out ! i = results ! i)
        \<and> (\<forall>p\<in>set pending. result_for Q out p
              \<and> (retryable_failure (out ! fst p) \<longrightarrow> int (length (reads evs)) = n)))"

lemma readAttempts_post:
  assumes "readAttempts lib env rpc config ctx attempt backoff pending results w = (r, w')"
    and "attempt \<le> rp_MaxAttempts (cc_readRetry config)" and "pending_ok pending results"
    and "promises lib env Q"
  shows "\<exists>evs. w_trace w' = w_trace w @ evs
    \<and> attempt_post Q (rp_MaxAttempts (cc_readRetry config) + 1 - attempt) pending results r evs"
  using assms
proof (induction "nat (rp_MaxAttempts (cc_readRetry config) - attempt)"
    arbitrary: attempt backoff pending results w rule: less_induct)
  case less
  let ?M = "rp_MaxAttempts (cc_readRetry config)" and ?ev = "EvRead (read_request (map snd pending))"
  obtain n where n: "nat (?M + 1 - attempt) = Suc n" "attempt < ?M \<longrightarrow> (\<exists>k. n = Suc k)"
    "n = nat (?M - attempt)"
  proof (rule that [OF _ _ refl])
    show "nat (?M + 1 - attempt) = Suc (nat (?M - attempt))" using less.prems(2) by auto
    show "attempt < ?M \<longrightarrow> (\<exists>k. nat (?M - attempt) = Suc k)" by (auto intro: not0_implies_Suc)
  qed
  from less.prems show ?case
  proof (cases rule: readAttempts_cases)
    case (fail err)
    then show ?thesis using n(1) by (intro exI [of _ "[?ev]"]) (auto simp: attempt_post_def intro: read_trace.intros)
  next
    case (cancel err d)
    then show ?thesis using n
      by (intro exI [of _ "[?ev, EvSleep d]"]) (auto simp: attempt_post_def intro: read_trace.intros)
  next
    case (ok decoded results')
    have "result_for Q results' p \<and> (retryable_failure (results' ! fst p) \<longrightarrow> attempt = ?M)" if "p \<in> set pending" for p
      using recorded_result [OF ok(4,1) that] less.prems(2) by auto
    then show ?thesis using ok(2,3) n(1) recorded_length [OF ok(4)] recorded_other [OF ok(4)]
      by (intro exI [of _ "[?ev]"]) (auto simp: attempt_post_def intro: read_trace.intros)
  next
    case (retry w2 d left results')
    note c = continues_props [OF retry(3) less.prems(3)]
    obtain evs where evs: "w_trace w' = w_trace w2 @ evs" "attempt_post Q (?M + 1 - (attempt + 1)) left results' r evs"
      using less.hyps [of "attempt + 1", OF _ retry(4)] retry(1) c(2) less.prems(4) by auto
    have "read_trace n (map snd left) evs" using evs(2) n by (simp add: attempt_post_def)
    then have tr: "read_trace (Suc n) (map snd pending) (?ev # EvSleep d # evs)"
      using c(1,4) by (intro read_trace.again) (auto intro: subseq_map)
    have "result_for Q out p \<and> (retryable_failure (out ! fst p) \<longrightarrow> int (length (reads evs)) = ?M - attempt)"
      if "r = Inr out" "p \<in> set pending" for out p
    proof (cases "p \<in> set left")
      case True
      then show ?thesis using evs(2) that by (auto simp: attempt_post_def)
    next
      case False
      have "fst p \<notin> fst ` set left"
      proof
        assume "fst p \<in> fst ` set left"
        then obtain q where q: "q \<in> set left" "fst q = fst p" by auto
        then have "q \<in> set pending" using subseq_set [OF c(1)] by auto
        then have "q = p" using q that(2) less.prems(3) by (auto simp: pending_ok_def distinct_map dest: inj_onD)
        then show False using q False by simp
      qed
      then have "out ! fst p = results' ! fst p" using evs(2) that by (auto simp: attempt_post_def)
      then show ?thesis
        using continues_settled [OF retry(3) that(2) False] by (simp add: result_for_def)
    qed
    moreover have "out ! i = results ! i" if "r = Inr out" "i \<notin> fst ` set pending" for out i
    proof -
      have "i \<notin> fst ` set left" using that(2) subseq_set [OF c(1)] by auto
      then show ?thesis
        using evs(2) that continues_other [OF retry(3)] by (auto simp: attempt_post_def)
    qed
    ultimately have "attempt_post Q (?M + 1 - attempt) pending results r (?ev # EvSleep d # evs)"
      using tr n(1) evs(2) c(3) by (auto simp: attempt_post_def)
    then show ?thesis using evs(1) retry(2) by (intro exI [of _ "?ev # EvSleep d # evs"]) auto
  qed
qed

section \<open>A batch of reads\<close>

lemma readOperationsWithRetry_post:
  assumes "1 \<le> rp_MaxAttempts (cc_readRetry config)"
    and "readOperationsWithRetry lib env rpc config ctx ops w = (r, w')" and "promises lib env Q"
  shows "\<exists>evs. w_trace w' = w_trace w @ evs
    \<and> attempt_post Q (rp_MaxAttempts (cc_readRetry config)) (zip [0..<length ops] ops)
         (replicate (length ops) empty_ReadResult) r evs"
proof -
  have "pending_ok (zip [0..<length ops] ops) (replicate (length ops) empty_ReadResult)"
    by (auto simp: pending_ok_def dest: set_zip_leftD)
  from readAttempts_post [OF assms(2) [unfolded readOperationsWithRetry_def] assms(1) this assms(3)]
  show ?thesis by simp
qed

lemma promises_nothing: "promises lib env (\<lambda>op r. True)"
  by (auto simp: promises_def list_all2_iff dest: decodeReadResponse_length)

text \<open>The calls of one batch, and its results.\<close>

definition read_batch_sent :: "int \<Rightarrow> pbReadOperation list \<Rightarrow> event list \<Rightarrow> bool" where
  "read_batch_sent maxAttempts ops evs \<longleftrightarrow> read_trace (nat maxAttempts) ops evs"

lemma readBatch_sent:
  assumes "1 \<le> rp_MaxAttempts (cc_readRetry config)" and "readBatch lib env rpc config ctx ops w = (r, w')"
  shows "\<exists>evs. w_trace w' = w_trace w @ evs \<and> read_batch_sent (rp_MaxAttempts (cc_readRetry config)) ops evs"
proof -
  obtain r' where "readOperationsWithRetry lib env rpc config ctx ops w = (r', w')"
    using assms(2) by (auto simp: readBatch_def split: prod.splits sum.splits)
  from readOperationsWithRetry_post [OF assms(1) this promises_nothing] show ?thesis
    by (auto simp: attempt_post_def read_batch_sent_def)
qed

lemma readBatch_post:
  assumes "1 \<le> rp_MaxAttempts (cc_readRetry config)" and "readBatch lib env rpc config ctx ops w = (Inr rs, w')"
    and "promises lib env Q"
  shows "length rs = length ops \<and> (\<exists>evs. w_trace w' = w_trace w @ evs \<and> (\<forall>i<length ops.
    result_for Q rs (i, ops ! i)
    \<and> (retryable_failure (rs ! i) \<longrightarrow> int (length (reads evs)) = rp_MaxAttempts (cc_readRetry config))))"
proof -
  have "readOperationsWithRetry lib env rpc config ctx ops w = (Inr rs, w')"
    using assms(2) by (auto simp: readBatch_def split: prod.splits sum.splits)
  from readOperationsWithRetry_post [OF assms(1) this assms(3)]
  obtain evs where evs: "w_trace w' = w_trace w @ evs" and len: "length rs = length ops"
    and p: "\<forall>p\<in>set (zip [0..<length ops] ops). result_for Q rs p
        \<and> (retryable_failure (rs ! fst p) \<longrightarrow> int (length (reads evs)) = rp_MaxAttempts (cc_readRetry config))"
    by (auto simp: attempt_post_def)
  have "(i, ops ! i) \<in> set (zip [0..<length ops] ops)" if "i < length ops" for i
    using that by (auto simp: set_zip intro!: exI [of _ i])
  then show ?thesis using evs len p by fastforce
qed

lemma readBatch_settled:
  assumes "1 \<le> rp_MaxAttempts (cc_readRetry config)" and "readBatch lib env rpc config ctx ops w = (Inr rs, w')"
  shows "length rs = length ops \<and> numbered rr_OperationIndex rr_Failure 0 rs \<and>
    (\<exists>evs. w_trace w' = w_trace w @ evs \<and> (\<forall>x\<in>set rs. retryable_failure x \<longrightarrow>
       int (length (reads evs)) = rp_MaxAttempts (cc_readRetry config)))"
  using readBatch_post [OF assms promises_nothing]
  by (fastforce simp: numbered_def result_for_def at_index_def in_set_conv_nth)

interpretation read_batches: numbered_batches
  "Read_loop lib env rpc config ctx" "readBatch lib env rpc config ctx" remapReadIndexes
  "cc_maxOperations config" "1 \<le> rp_MaxAttempts (cc_readRetry config)" rr_OperationIndex rr_Failure
  for lib :: "'v lib" and env :: "('k, 'c, 's) env" and rpc config ctx
  by (unfold_locales, rule Read_loop.simps, simp only: readBatch_settled, erule remap_numbered_lemmas,
      rule remap_lengths)

interpretation read_sent: traced_batches
  "Read_loop lib env rpc config ctx" "readBatch lib env rpc config ctx" remapReadIndexes
  "cc_maxOperations config" "1 \<le> rp_MaxAttempts (cc_readRetry config)"
  "read_batch_sent (rp_MaxAttempts (cc_readRetry config))"
  for lib :: "'v lib" and env :: "('k, 'c, 's) env" and rpc config ctx
  by unfold_locales (rule readBatch_sent)

section \<open>Every result answers its own operation\<close>

text \<open>The result is the conversion of a server's result for the operation.\<close>

definition read_answered ::
  "'v lib \<Rightarrow> (pbReadOperation \<Rightarrow> pbReadResult \<Rightarrow> bool) \<Rightarrow> pbReadOperation \<Rightarrow> nat \<Rightarrow> ReadResult \<Rightarrow> bool" where
  "read_answered lib ans op i r \<longleftrightarrow> (\<exists>p. ans op p \<and> readResultFromProto lib i p = Inr r)"

abbreviation honest_read :: "('k, 'c, 's) env \<Rightarrow> (pbReadOperation \<Rightarrow> pbReadResult \<Rightarrow> bool) \<Rightarrow> bool" where
  "honest_read env \<equiv> honest (Invoke_Read env) pbReadRequest_Operations pbReadResponse_Results
     pbReadResult_OperationIndex"

lemma readResultFromProto_at:
  "readResultFromProto lib j p = Inr r \<Longrightarrow> readResultFromProto lib i p = Inr (at_index i r)"
  by (auto simp: readResultFromProto_def Let_def at_index_def dest: operationFailure_at [of j _ _ i]
      split: if_splits sum.splits)

lemma read_answered_at: "read_answered lib ans op j r \<Longrightarrow> read_answered lib ans op i (at_index i r)"
  by (auto simp: read_answered_def intro: readResultFromProto_at)

lemma read_answered_index:
  assumes "read_answered lib ans op i r"
  shows "at_index i r = r"
proof -
  obtain p where p: "readResultFromProto lib i p = Inr r" using assms by (auto simp: read_answered_def)
  from readResultFromProto_at [OF p, of i] p show ?thesis by simp
qed

lemma honest_promises:
  assumes "honest_read env ans"
  shows "promises lib env (\<lambda>op r. \<exists>j. read_answered lib ans op j r)"
  unfolding promises_def
proof (intro allI impI)
  fix rpc ctx opts w w' ops response decoded
  assume call: "sinkClient_Read env rpc ctx (read_request ops) opts w = (Inr response, w')"
    and dec: "decodeReadResponse lib response (length ops) = Inr decoded"
  obtain resp s where resp: "response = Some resp"
    and inv: "Invoke_Read env rpc ctx ''/sink.v1.Sink/Read'' (read_request ops) (StaticMethod # opts) (w_st w) = (Inr resp, s)"
    using call by (auto simp: sinkClient_Read_def stub_result_def call_def split: prod.splits sum.splits)
  have l: "length (pbReadResponse_Results resp) = length ops"
    and d: "decodeReadResults lib (pbReadResponse_Results resp) (replicate (length ops) False)
      (replicate (length ops) empty_ReadResult) = Inr decoded"
    using dec resp by (auto simp: decodeReadResponse_def split: if_splits)
  note c = read_loop.decode_complete [OF d l]
  have "\<exists>j. read_answered lib ans (ops ! i) j (decoded ! i)" if "i < length ops" for i
  proof -
    obtain q where q: "Some q \<in> set (pbReadResponse_Results resp)" "unat (pbReadResult_OperationIndex q) = i"
      "readResultFromProto lib i q = Inr (decoded ! i)" using c(3) \<open>i < length ops\<close> by blast
    have "ans (ops ! i) q"
      using assms inv q(1,2) that unfolding honest_def by (fastforce simp: read_request_def)
    then show ?thesis using q(3) by (auto simp: read_answered_def)
  qed
  then show "list_all2 (\<lambda>op r. \<exists>j. read_answered lib ans op j r) ops decoded"
    using c(1) by (simp add: list_all2_conv_all_nth)
qed

lemma readBatch_answers:
  assumes "1 \<le> rp_MaxAttempts (cc_readRetry config) \<and> honest_read env ans"
    and "readBatch lib env rpc config ctx ops w = (Inr rs, w')"
  shows "length rs = length ops \<and> answers (read_answered lib ans) 0 ops rs"
  using readBatch_post [OF _ assms(2) honest_promises] assms(1) read_answered_at
  by (fastforce simp: answers_def result_for_def)

lemma remapRead_answers:
  assumes "answers (read_answered lib ans) 0 ops rs"
  shows "answers (read_answered lib ans) k ops (remapReadIndexes rs (int k))"
proof -
  have shift: "remapReadIndexes rs (int k) ! i = at_index (k + i) (at_index i (rs ! i))" if "i < length rs" "at_index i (rs ! i) = rs ! i" for i
  proof -
    have "remapReadIndexes rs (int k) ! i = remapReadIndexes [at_index i (rs ! i)] (int k) ! 0"
      using that by (simp add: remapReadIndexes_def)
    then show ?thesis by (simp add: remapReadIndexes_def at_index_def shift_failure_def split: option.split)
  qed
  have "remapReadIndexes rs (int k) ! i = at_index (k + i) (rs ! i)" if "i < length rs" for i
    using shift [OF that] assms that read_answered_index by (fastforce simp: answers_def)
  then show ?thesis using assms read_answered_at by (fastforce simp: answers_def)
qed

interpretation read_answers: answered_batches
  "Read_loop lib env rpc config ctx" "readBatch lib env rpc config ctx" remapReadIndexes
  "cc_maxOperations config" "1 \<le> rp_MaxAttempts (cc_readRetry config) \<and> honest_read env ans" "read_answered lib ans"
  for lib :: "'v lib" and env :: "('k, 'c, 's) env" and rpc config ctx ans
  by (unfold_locales, erule readBatch_answers, assumption, erule remapRead_answers, rule remap_lengths)

lemma Read_unfold:
  assumes "Read lib env (Some c) ctx as w = Some ((rs, err), w')"
  obtains (rejected) "rs = []" "err \<noteq> None" "w' = w"
  | (sent) "Read_loop lib env (the (cl_rpc c)) (cl_config c) ctx (map read_operation as) 0 [] w
      = Some ((rs, err), w')"
  using assms by (auto simp: Read_def dest!: sym [of "Some _"] split: option.splits)

text \<open>The calls of a whole \<^verbatim>\<open>Read\<close>: those of its leading batches.\<close>

lemma Read_sent:
  assumes "client_ok c" and "Read lib env (Some c) ctx addresses w = Some ((rs, err), w')"
  defines "bs \<equiv> chunks (nat (cc_maxOperations (cl_config c))) (map read_operation addresses)"
  shows "\<exists>k\<le>length bs. \<exists>evss. w_trace w' = w_trace w @ concat evss
     \<and> list_all2 (read_trace (nat (rp_MaxAttempts (cc_readRetry (cl_config c))))) (take k bs) evss
     \<and> (err = None \<longrightarrow> k = length bs)"
  using assms(2)
proof (cases rule: Read_unfold)
  case rejected
  then show ?thesis by (intro exI [of _ 0]) auto
next
  case sent
  from read_sent.loop_sent [OF client_ok_attempts(1) [OF assms(1)] client_ok_step [OF assms(1)] this]
  show ?thesis unfolding bs_def read_batch_sent_def [abs_def] .
qed

end
