(* ===== verification/Client_Write.thy ===== *)
theory Client_Write
  imports Batches
begin

text \<open>
  \<^verbatim>\<open>Write\<close>, \<^verbatim>\<open>writeBatch\<close> and \<^verbatim>\<open>Delete\<close> of \<^verbatim>\<open>client.go\<close>. Mutations are sent at most once: one request per
  batch of operations, in order, nothing after a failure, and no repetition.
\<close>

section \<open>Write\<close>

fun Write_validate_operations :: "'v lib \<Rightarrow> int32w \<Rightarrow> nat \<Rightarrow> WriteOperation list \<Rightarrow> go_error option" where
  "Write_validate_operations lib mode index [] = None"
| "Write_validate_operations lib mode index (op # ops) =
     (if wo_returnDocument op \<and> mode = CompletionReturnAfterAccepted
      then Some (ErrorString ''returned write documents require synchronous completion'')
      else (case WriteOperation_validate lib op of
              Some err \<Rightarrow> Some (WrapError (''write operation '' @ itoa index @ '': '') err)
            | None \<Rightarrow> Write_validate_operations lib mode (Suc index) ops))"

text \<open>
  The Lua programs of a batch, each digest once, in the order of their first use. \<open>seen\<close> is the
  set \<^verbatim>\<open>seenLuaPrograms\<close>.
\<close>

fun lua_programs :: "bytes list \<Rightarrow> WriteOperation list \<Rightarrow> pbLuaProgram option list" where
  "lua_programs seen [] = []"
| "lua_programs seen (op # ops) =
     (if wo_action op = writeActionMerge then
        (let digest = lua_sha256 (mo_program (wo_merge op))
         in if digest \<notin> set seen
            then Some \<lparr>pbLuaProgram_Source = lua_source (mo_program (wo_merge op)),
                       pbLuaProgram_Sha256 = digest, pbLuaProgram_unknownFields = []\<rparr>
                 # lua_programs (digest # seen) ops
            else lua_programs seen ops)
      else lua_programs seen ops)"

definition write_request :: "int32w \<Rightarrow> WriteOperation list \<Rightarrow> pbWriteRequest" where
  "write_request mode ops =
     \<lparr>pbWriteRequest_CompletionMode = mode,
      pbWriteRequest_Operations = map (\<lambda>op. Some (WriteOperation_toProto op)) ops,
      pbWriteRequest_LuaPrograms = lua_programs [] ops,
      pbWriteRequest_unknownFields = []\<rparr>"

definition omits_document :: "WriteOperation \<Rightarrow> WriteResult \<Rightarrow> bool" where
  "omits_document op r \<longleftrightarrow>
     wo_returnDocument op \<and> wr_Status r = WriteApplied \<and> length (doc_payload (wr_Document r)) = 0"

definition writeBatch ::
  "'v lib \<Rightarrow> ('k, 'c, 's) env \<Rightarrow> 'k \<Rightarrow> clientConfig \<Rightarrow> 'c \<Rightarrow> int32w \<Rightarrow> WriteOperation list \<Rightarrow> 's world
     \<Rightarrow> WriteResult list result \<times> 's world" where
  "writeBatch lib env rpc config ctx mode operations w =
     (case sinkClient_Write env rpc ctx (write_request mode operations) (cc_sinkCallOptions config) w of
        (Inl err, w') \<Rightarrow> (Inl (WrapError ''write records: '' err), w')
      | (Inr response, w') \<Rightarrow>
          (case decodeWriteResponse lib response (length operations) of
             Inl err \<Rightarrow> (Inl err, w')
           | Inr results \<Rightarrow>
               if list_ex (\<lambda>(op, r). omits_document op r) (zip operations results)
               then (Inl (protocolError ''Write'' ''applied operation omitted the requested document''), w')
               else (Inr results, w')))"

partial_function (option) Write_loop ::
  "'v lib \<Rightarrow> ('k, 'c, 's) env \<Rightarrow> 'k \<Rightarrow> clientConfig \<Rightarrow> 'c \<Rightarrow> int32w \<Rightarrow> WriteOperation list \<Rightarrow> int
     \<Rightarrow> WriteResult list \<Rightarrow> 's world \<Rightarrow> ((WriteResult list \<times> go_error option) \<times> 's world) option" where
  "Write_loop lib env rpc config ctx mode operations start results w =
     (if start < int (length operations)
      then Option.bind (slice operations start (min (start + cc_maxOperations config) (int (length operations))))
        (\<lambda>b. case writeBatch lib env rpc config ctx mode b w of
               (Inl err, w') \<Rightarrow> Some ((results, Some err), w')
             | (Inr batch, w') \<Rightarrow>
                 Write_loop lib env rpc config ctx mode operations (start + cc_maxOperations config)
                   (results @ remapWriteIndexes batch start) w')
      else Some ((results, None), w))"

declare Write_loop.simps [code]

definition Write ::
  "'v lib \<Rightarrow> ('k, 'c, 's) env \<Rightarrow> 'k Client option \<Rightarrow> 'c \<Rightarrow> int32w \<Rightarrow> WriteOperation list \<Rightarrow> 's world
     \<Rightarrow> ((WriteResult list \<times> go_error option) \<times> 's world) option" where
  "Write lib env c ctx completionMode operations w =
     (case validateCollection c ''write'' (length operations) of
        Some err \<Rightarrow> Some (([], Some err), w)
      | None \<Rightarrow>
          if \<not> validCompletionMode completionMode
          then Some (([], Some (ErrorString ''write request has an invalid completion mode'')), w)
          else (case Write_validate_operations lib completionMode 0 operations of
                  Some err \<Rightarrow> Some (([], Some err), w)
                | None \<Rightarrow> Write_loop lib env (the (cl_rpc (the c))) (cl_config (the c)) ctx
                            completionMode operations 0 [] w))"

section \<open>Delete\<close>

definition delete_operation :: "Address \<Rightarrow> pbDeleteOperation" where
  "delete_operation a = \<lparr>pbDeleteOperation_Address = Some (Address_toProto a),
     pbDeleteOperation_unknownFields = []\<rparr>"

definition delete_request :: "int32w \<Rightarrow> pbDeleteOperation list \<Rightarrow> pbDeleteRequest" where
  "delete_request mode ops = \<lparr>pbDeleteRequest_CompletionMode = mode,
     pbDeleteRequest_Operations = map Some ops, pbDeleteRequest_unknownFields = []\<rparr>"

definition deleteBatch ::
  "'v lib \<Rightarrow> ('k, 'c, 's) env \<Rightarrow> 'k \<Rightarrow> clientConfig \<Rightarrow> 'c \<Rightarrow> int32w \<Rightarrow> pbDeleteOperation list \<Rightarrow> 's world
     \<Rightarrow> DeleteResult list result \<times> 's world" where
  "deleteBatch lib env rpc config ctx mode operations w =
     (case sinkClient_Delete env rpc ctx (delete_request mode operations) (cc_sinkCallOptions config) w of
        (Inl err, w') \<Rightarrow> (Inl (WrapError ''delete records: '' err), w')
      | (Inr response, w') \<Rightarrow> (decodeDeleteResponse lib response (length operations), w'))"

partial_function (option) Delete_loop ::
  "'v lib \<Rightarrow> ('k, 'c, 's) env \<Rightarrow> 'k \<Rightarrow> clientConfig \<Rightarrow> 'c \<Rightarrow> int32w \<Rightarrow> pbDeleteOperation list \<Rightarrow> int
     \<Rightarrow> DeleteResult list \<Rightarrow> 's world \<Rightarrow> ((DeleteResult list \<times> go_error option) \<times> 's world) option" where
  "Delete_loop lib env rpc config ctx mode operations start results w =
     (if start < int (length operations)
      then Option.bind (slice operations start (min (start + cc_maxOperations config) (int (length operations))))
        (\<lambda>b. case deleteBatch lib env rpc config ctx mode b w of
               (Inl err, w') \<Rightarrow> Some ((results, Some err), w')
             | (Inr batch, w') \<Rightarrow>
                 Delete_loop lib env rpc config ctx mode operations (start + cc_maxOperations config)
                   (results @ remapDeleteIndexes batch start) w')
      else Some ((results, None), w))"

declare Delete_loop.simps [code]

definition Delete ::
  "'v lib \<Rightarrow> ('k, 'c, 's) env \<Rightarrow> 'k Client option \<Rightarrow> 'c \<Rightarrow> int32w \<Rightarrow> Address list \<Rightarrow> 's world
     \<Rightarrow> ((DeleteResult list \<times> go_error option) \<times> 's world) option" where
  "Delete lib env c ctx completionMode addresses w =
     (case validateCollection c ''delete'' (length addresses) of
        Some err \<Rightarrow> Some (([], Some err), w)
      | None \<Rightarrow>
          if \<not> validCompletionMode completionMode
          then Some (([], Some (ErrorString ''delete request has an invalid completion mode'')), w)
          else (case validate_addresses ''delete'' 0 addresses of
                  Some err \<Rightarrow> Some (([], Some err), w)
                | None \<Rightarrow> Delete_loop lib env (the (cl_rpc (the c))) (cl_config (the c)) ctx
                            completionMode (map delete_operation addresses) 0 [] w))"

section \<open>The steps answer for their batch\<close>

lemma operationFailure_index: "operationFailure i f = Inr e \<Longrightarrow> oe_OperationIndex e = int i"
  by (auto simp: operationFailure_def split: option.splits if_splits)

lemma writeResultFromProto_index:
  assumes "writeResultFromProto lib i p = Inr r"
  shows "wr_OperationIndex r = int i \<and> (\<forall>e. wr_Failure r = Some e \<longrightarrow> oe_OperationIndex e = int i)"
  using assms
  by (auto simp: writeResultFromProto_def Let_def dest: operationFailure_index
      split: option.splits if_splits sum.splits)

lemma deleteResultFromProto_index:
  assumes "deleteResultFromProto lib i p = Inr r"
  shows "dr_OperationIndex r = int i \<and> (\<forall>e. dr_Failure r = Some e \<longrightarrow> oe_OperationIndex e = int i)"
  using assms
  by (auto simp: deleteResultFromProto_def Let_def dest: operationFailure_index
      split: option.splits if_splits sum.splits)

lemma decodeWriteResponse_numbered:
  assumes "decodeWriteResponse lib resp n = Inr rs"
  shows "length rs = n \<and> numbered wr_OperationIndex wr_Failure 0 rs"
proof -
  obtain r :: pbWriteResponse where l: "length (pbWriteResponse_Results r) = n"
    and d: "decodeWriteResults lib (pbWriteResponse_Results r) (replicate n False)
      (replicate n empty_WriteResult) = Inr rs"
    using assms by (auto simp: decodeWriteResponse_def split: option.splits if_splits)
  note c = write_loop.decode_complete [OF d l]
  show ?thesis
    using c(1) c(3) writeResultFromProto_index unfolding numbered_def by fastforce
qed

lemma decodeDeleteResponse_numbered:
  assumes "decodeDeleteResponse lib resp n = Inr rs"
  shows "length rs = n \<and> numbered dr_OperationIndex dr_Failure 0 rs"
proof -
  obtain r :: pbDeleteResponse where l: "length (pbDeleteResponse_Results r) = n"
    and d: "decodeDeleteResults lib (pbDeleteResponse_Results r) (replicate n False)
      (replicate n empty_DeleteResult) = Inr rs"
    using assms by (auto simp: decodeDeleteResponse_def split: option.splits if_splits)
  note c = delete_loop.decode_complete [OF d l]
  show ?thesis
    using c(1) c(3) deleteResultFromProto_index unfolding numbered_def by fastforce
qed

lemma writeBatch_numbered:
  "writeBatch lib env rpc config ctx mode b w = (Inr rs, w') \<Longrightarrow>
     length rs = length b \<and> numbered wr_OperationIndex wr_Failure 0 rs"
  by (auto simp: writeBatch_def decodeWriteResponse_numbered split: prod.splits sum.splits if_splits)

lemma deleteBatch_numbered:
  "deleteBatch lib env rpc config ctx mode b w = (Inr rs, w') \<Longrightarrow>
     length rs = length b \<and> numbered dr_OperationIndex dr_Failure 0 rs"
  by (auto simp: deleteBatch_def decodeDeleteResponse_numbered split: prod.splits sum.splits)

lemma writeBatch_trace:
  "w_trace (snd (writeBatch lib env rpc config ctx mode b w)) = w_trace w @ [EvWrite (write_request mode b)]"
  by (auto simp: writeBatch_def dest: stub_trace split: prod.split sum.split)

lemma deleteBatch_trace:
  "w_trace (snd (deleteBatch lib env rpc config ctx mode b w)) = w_trace w @ [EvDelete (delete_request mode b)]"
  by (auto simp: deleteBatch_def dest: stub_trace split: prod.split sum.split)

interpretation write_batches: numbered_batches
  "Write_loop lib env rpc config ctx mode" "writeBatch lib env rpc config ctx mode" remapWriteIndexes
  "cc_maxOperations config" True wr_OperationIndex wr_Failure
  for lib :: "'v lib" and env :: "('k, 'c, 's) env" and rpc config ctx mode
  by (unfold_locales, rule Write_loop.simps, erule writeBatch_numbered, erule remap_numbered_lemmas, rule remap_lengths)

interpretation delete_batches: numbered_batches
  "Delete_loop lib env rpc config ctx mode" "deleteBatch lib env rpc config ctx mode" remapDeleteIndexes
  "cc_maxOperations config" True dr_OperationIndex dr_Failure
  for lib :: "'v lib" and env :: "('k, 'c, 's) env" and rpc config ctx mode
  by (unfold_locales, rule Delete_loop.simps, erule deleteBatch_numbered, erule remap_numbered_lemmas, rule remap_lengths)

interpretation write_once: single_shot
  "Write_loop lib env rpc config ctx mode" "writeBatch lib env rpc config ctx mode" remapWriteIndexes
  "cc_maxOperations config" "\<lambda>b. EvWrite (write_request mode b)"
  for lib :: "'v lib" and env :: "('k, 'c, 's) env" and rpc config ctx mode
  by unfold_locales (rule writeBatch_trace)

interpretation delete_once: single_shot
  "Delete_loop lib env rpc config ctx mode" "deleteBatch lib env rpc config ctx mode" remapDeleteIndexes
  "cc_maxOperations config" "\<lambda>b. EvDelete (delete_request mode b)"
  for lib :: "'v lib" and env :: "('k, 'c, 's) env" and rpc config ctx mode
  by unfold_locales (rule deleteBatch_trace)

section \<open>Every result answers its own operation\<close>

definition write_answered ::
  "'v lib \<Rightarrow> (pbWriteOperation \<Rightarrow> pbWriteResult \<Rightarrow> bool) \<Rightarrow> WriteOperation \<Rightarrow> nat \<Rightarrow> WriteResult \<Rightarrow> bool" where
  "write_answered lib ans op i r \<longleftrightarrow>
     (\<exists>p. ans (WriteOperation_toProto op) p \<and> writeResultFromProto lib i p = Inr r)"

definition delete_answered ::
  "'v lib \<Rightarrow> (pbDeleteOperation \<Rightarrow> pbDeleteResult \<Rightarrow> bool) \<Rightarrow> pbDeleteOperation \<Rightarrow> nat \<Rightarrow> DeleteResult \<Rightarrow> bool" where
  "delete_answered lib ans op i r \<longleftrightarrow> (\<exists>p. ans op p \<and> deleteResultFromProto lib i p = Inr r)"

abbreviation honest_write :: "('k, 'c, 's) env \<Rightarrow> (pbWriteOperation \<Rightarrow> pbWriteResult \<Rightarrow> bool) \<Rightarrow> bool" where
  "honest_write env \<equiv> honest (Invoke_Write env) pbWriteRequest_Operations pbWriteResponse_Results
     pbWriteResult_OperationIndex"

abbreviation honest_delete :: "('k, 'c, 's) env \<Rightarrow> (pbDeleteOperation \<Rightarrow> pbDeleteResult \<Rightarrow> bool) \<Rightarrow> bool" where
  "honest_delete env \<equiv> honest (Invoke_Delete env) pbDeleteRequest_Operations pbDeleteResponse_Results
     pbDeleteResult_OperationIndex"

lemma writeResultFromProto_shift:
  assumes "writeResultFromProto lib i p = Inr r"
  shows "writeResultFromProto lib (k + i) p = Inr (remapWriteIndexes [r] (int k) ! 0)"
  using assms
  by (auto simp: writeResultFromProto_def Let_def remapWriteIndexes_def shift_failure_def operationFailure_def
      split: if_splits sum.splits option.splits)

lemma deleteResultFromProto_shift:
  assumes "deleteResultFromProto lib i p = Inr r"
  shows "deleteResultFromProto lib (k + i) p = Inr (remapDeleteIndexes [r] (int k) ! 0)"
  using assms
  by (auto simp: deleteResultFromProto_def Let_def remapDeleteIndexes_def shift_failure_def operationFailure_def
      split: if_splits sum.splits option.splits)

lemma writeBatch_answers:
  assumes "honest_write env ans" and "writeBatch lib env rpc config ctx mode ops w = (Inr rs, w')"
  shows "length rs = length ops \<and> answers (write_answered lib ans) 0 ops rs"
proof -
  obtain resp s where
    inv: "Invoke_Write env rpc ctx ''/sink.v1.Sink/Write'' (write_request mode ops)
      (StaticMethod # cc_sinkCallOptions config) (w_st w) = (Inr resp, s)"
    and l: "length (pbWriteResponse_Results resp) = length ops"
    and d: "decodeWriteResults lib (pbWriteResponse_Results resp) (replicate (length ops) False)
      (replicate (length ops) empty_WriteResult) = Inr rs"
    using assms(2) by (auto simp: writeBatch_def sinkClient_Write_def stub_result_def call_def decodeWriteResponse_def
        split: prod.splits sum.splits if_splits)
  note c = write_loop.decode_complete [OF d l]
  have "write_answered lib ans (ops ! i) i (rs ! i)" if "i < length ops" for i
  proof -
    obtain q where q: "Some q \<in> set (pbWriteResponse_Results resp)" "unat (pbWriteResult_OperationIndex q) = i"
      "writeResultFromProto lib i q = Inr (rs ! i)" using c(3) \<open>i < length ops\<close> by blast
    have "ans (WriteOperation_toProto (ops ! i)) q"
      using assms(1) inv q(1,2) that unfolding honest_def by (fastforce simp: write_request_def)
    then show ?thesis using q(3) by (auto simp: write_answered_def)
  qed
  then show ?thesis using c(1) by (simp add: answers_def)
qed

lemma deleteBatch_answers:
  assumes "honest_delete env ans" and "deleteBatch lib env rpc config ctx mode ops w = (Inr rs, w')"
  shows "length rs = length ops \<and> answers (delete_answered lib ans) 0 ops rs"
proof -
  obtain resp s where
    inv: "Invoke_Delete env rpc ctx ''/sink.v1.Sink/Delete'' (delete_request mode ops)
      (StaticMethod # cc_sinkCallOptions config) (w_st w) = (Inr resp, s)"
    and l: "length (pbDeleteResponse_Results resp) = length ops"
    and d: "decodeDeleteResults lib (pbDeleteResponse_Results resp) (replicate (length ops) False)
      (replicate (length ops) empty_DeleteResult) = Inr rs"
    using assms(2) by (auto simp: deleteBatch_def sinkClient_Delete_def stub_result_def call_def decodeDeleteResponse_def
        split: prod.splits sum.splits if_splits)
  note c = delete_loop.decode_complete [OF d l]
  have "delete_answered lib ans (ops ! i) i (rs ! i)" if "i < length ops" for i
  proof -
    obtain q where q: "Some q \<in> set (pbDeleteResponse_Results resp)" "unat (pbDeleteResult_OperationIndex q) = i"
      "deleteResultFromProto lib i q = Inr (rs ! i)" using c(3) \<open>i < length ops\<close> by blast
    have "ans (ops ! i) q"
      using assms(1) inv q(1,2) that unfolding honest_def by (fastforce simp: delete_request_def)
    then show ?thesis using q(3) by (auto simp: delete_answered_def)
  qed
  then show ?thesis using c(1) by (simp add: answers_def)
qed

lemma remapWrite_answers:
  assumes "answers (write_answered lib ans) 0 ops rs"
  shows "answers (write_answered lib ans) k ops (remapWriteIndexes rs (int k))"
  using assms writeResultFromProto_shift [of lib _ _ _ k]
  by (fastforce simp: answers_def write_answered_def remapWriteIndexes_def)

lemma remapDelete_answers:
  assumes "answers (delete_answered lib ans) 0 ops rs"
  shows "answers (delete_answered lib ans) k ops (remapDeleteIndexes rs (int k))"
  using assms deleteResultFromProto_shift [of lib _ _ _ k]
  by (fastforce simp: answers_def delete_answered_def remapDeleteIndexes_def)

interpretation write_answers: answered_batches
  "Write_loop lib env rpc config ctx mode" "writeBatch lib env rpc config ctx mode" remapWriteIndexes
  "cc_maxOperations config" "honest_write env ans" "write_answered lib ans"
  for lib :: "'v lib" and env :: "('k, 'c, 's) env" and rpc config ctx mode ans
  by (unfold_locales, erule writeBatch_answers, assumption, erule remapWrite_answers, rule remap_lengths)

interpretation delete_answers: answered_batches
  "Delete_loop lib env rpc config ctx mode" "deleteBatch lib env rpc config ctx mode" remapDeleteIndexes
  "cc_maxOperations config" "honest_delete env ans" "delete_answered lib ans"
  for lib :: "'v lib" and env :: "('k, 'c, 's) env" and rpc config ctx mode ans
  by (unfold_locales, erule deleteBatch_answers, assumption, erule remapDelete_answers, rule remap_lengths)

section \<open>Validation before sending\<close>

lemma Write_validate_operations_None:
  "Write_validate_operations lib mode i ops = None \<longleftrightarrow>
     (\<forall>op\<in>set ops. \<not> (wo_returnDocument op \<and> mode = CompletionReturnAfterAccepted)
        \<and> WriteOperation_validate lib op = None)"
  by (induction ops arbitrary: i) (auto split: option.splits)

lemma Write_unfold:
  assumes "Write lib env (Some c) ctx mode ops w = Some ((rs, err), w')"
  obtains (rejected) "rs = []" "err \<noteq> None" "w' = w"
  | (sent) "Write_loop lib env (the (cl_rpc c)) (cl_config c) ctx mode ops 0 [] w = Some ((rs, err), w')"
  using assms by (auto simp: Write_def dest!: sym [of "Some _"] split: option.splits if_splits)

lemma Delete_unfold:
  assumes "Delete lib env (Some c) ctx mode as w = Some ((rs, err), w')"
  obtains (rejected) "rs = []" "err \<noteq> None" "w' = w"
  | (sent) "Delete_loop lib env (the (cl_rpc c)) (cl_config c) ctx mode (map delete_operation as) 0 [] w
      = Some ((rs, err), w')"
  using assms by (auto simp: Delete_def dest!: sym [of "Some _"] split: option.splits if_splits)

lemma Write_sent:
  assumes "client_ok c" and "Write lib env (Some c) ctx mode ops w = Some ((rs, err), w')"
  defines "bs \<equiv> chunks (nat (cc_maxOperations (cl_config c))) ops"
  shows "\<exists>k\<le>length bs. w_trace w' = w_trace w @ map (\<lambda>b. EvWrite (write_request mode b)) (take k bs)
     \<and> (err = None \<longrightarrow> k = length bs \<and> length rs = length ops)"
  using assms(2)
proof (cases rule: Write_unfold)
  case rejected
  then show ?thesis by (intro exI [of _ 0]) auto
next
  case sent
  note m = client_ok_step [OF assms(1)]
  show ?thesis
    using write_once.loop_trace [OF m sent] write_batches.loop_numbered [OF TrueI m sent] unfolding bs_def by blast
qed

lemma Delete_sent:
  assumes "client_ok c" and "Delete lib env (Some c) ctx mode addresses w = Some ((rs, err), w')"
  defines "bs \<equiv> chunks (nat (cc_maxOperations (cl_config c))) (map delete_operation addresses)"
  shows "\<exists>k\<le>length bs. w_trace w' = w_trace w @ map (\<lambda>b. EvDelete (delete_request mode b)) (take k bs)
     \<and> (err = None \<longrightarrow> k = length bs)"
  using assms(2)
proof (cases rule: Delete_unfold)
  case rejected
  then show ?thesis by (intro exI [of _ 0]) auto
next
  case sent
  from delete_once.loop_trace [OF client_ok_step [OF assms(1)] this] show ?thesis
    unfolding bs_def .
qed

lemma Write_numbered:
  assumes "client_ok c" and "Write lib env (Some c) ctx mode ops w = Some ((rs, err), w')"
  shows "numbered wr_OperationIndex wr_Failure 0 rs \<and> (err = None \<longrightarrow> length rs = length ops)
    \<and> (err \<noteq> None \<longrightarrow> (\<exists>k. length rs = k * nat (cc_maxOperations (cl_config c)) \<and> (rs = [] \<or> length rs < length ops)))"
  using assms(2)
proof (cases rule: Write_unfold)
  case rejected
  then show ?thesis by (auto simp: numbered_def intro!: exI [of _ 0])
next
  case sent
  from write_batches.loop_numbered [OF TrueI client_ok_step [OF assms(1)] this]
  show ?thesis using chunks_prefix by fastforce
qed

lemma Delete_numbered:
  assumes "client_ok c" and "Delete lib env (Some c) ctx mode as w = Some ((rs, err), w')"
  shows "numbered dr_OperationIndex dr_Failure 0 rs \<and> (err = None \<longrightarrow> length rs = length as)
    \<and> (err \<noteq> None \<longrightarrow> (\<exists>k. length rs = k * nat (cc_maxOperations (cl_config c)) \<and> (rs = [] \<or> length rs < length as)))"
  using assms(2)
proof (cases rule: Delete_unfold)
  case rejected
  then show ?thesis by (auto simp: numbered_def intro!: exI [of _ 0])
next
  case sent
  from delete_batches.loop_numbered [OF TrueI client_ok_step [OF assms(1)] this]
  show ?thesis using chunks_prefix by fastforce
qed

section \<open>The Lua programs of a batch\<close>

definition program_digests :: "pbLuaProgram option list \<Rightarrow> bytes list" where
  "program_digests ps = map (\<lambda>p. pbLuaProgram_Sha256 (the p)) ps"

definition merge_digest :: "WriteOperation \<Rightarrow> bytes" where
  "merge_digest op = lua_sha256 (mo_program (wo_merge op))"

lemma lua_programs_digests:
  "distinct (program_digests (lua_programs seen ops)) \<and> None \<notin> set (lua_programs seen ops)
   \<and> set (program_digests (lua_programs seen ops))
       = merge_digest ` {op \<in> set ops. wo_action op = writeActionMerge} - set seen"
proof (induction ops arbitrary: seen)
  case Nil
  then show ?case by (simp add: program_digests_def)
next
  case (Cons op ops)
  then show ?case
    using Cons.IH [of seen] Cons.IH [of "merge_digest op # seen"]
    by (auto simp: Let_def program_digests_def merge_digest_def)
qed

lemma lua_programs_source:
  assumes "Some p \<in> set (lua_programs seen ops)"
  shows "\<exists>op\<in>set ops. wo_action op = writeActionMerge \<and> pbLuaProgram_Source p = lua_source (mo_program (wo_merge op))
    \<and> pbLuaProgram_Sha256 p = merge_digest op"
  using assms
  by (induction seen ops rule: lua_programs.induct) (auto simp: Let_def merge_digest_def split: if_splits)

end
