(* ===== verification/Go_Mime.thy ===== *)
theory Go_Mime
  imports Sink_Errors
begin

text \<open>
  The part of Go's \<^verbatim>\<open>mime\<close> and \<^verbatim>\<open>net/http\<close> packages the native commands use:
  \<^verbatim>\<open>mime.ParseMediaType\<close> (its media type and its error) and \<^verbatim>\<open>http.Header.Add\<close> with the canonical
  spelling of header names.
\<close>

section \<open>Tokens\<close>

definition isTokenChar :: "char \<Rightarrow> bool" where
  "isTokenChar c \<longleftrightarrow> 0x20 < ord c \<and> ord c < 0x7F \<and> c \<notin> set ''()<>@,;:/[]?='' \<and> ord c \<noteq> 34 \<and> ord c \<noteq> 92"

definition isTSpecial :: "char \<Rightarrow> bool" where
  "isTSpecial c \<longleftrightarrow> c \<in> set ''()<>@,;:/[]?='' \<or> ord c = 34 \<or> ord c = 92"

definition consumeToken :: "bytes \<Rightarrow> bytes \<times> bytes" where
  "consumeToken v = (takeWhile isTokenChar v, dropWhile isTokenChar v)"

text \<open>
  \<^verbatim>\<open>strings.ToLower\<close> for a string that must turn out to be ASCII: besides the ASCII capitals, only
  U+0130 and U+212A have an ASCII lower case; everything else keeps a byte outside ASCII.
\<close>

fun ToLower :: "bytes \<Rightarrow> bytes" where
  "ToLower [] = []"
| "ToLower (a # s) =
     (case s of
        b # c # t \<Rightarrow> if ord a = 0xE2 \<and> ord b = 0x84 \<and> ord c = 0xAA then CHR ''k'' # ToLower t
                      else if ord a = 0xC4 \<and> ord b = 0xB0 then CHR ''i'' # ToLower (c # t)
                      else ascii_lower a # ToLower s
      | [b] \<Rightarrow> if ord a = 0xC4 \<and> ord b = 0xB0 then ''i'' else ascii_lower a # ToLower s
      | [] \<Rightarrow> [ascii_lower a])"

definition checkMediaTypeDisposition :: "bytes \<Rightarrow> go_error option" where
  "checkMediaTypeDisposition s =
     (case consumeToken s of (typ, rest) \<Rightarrow>
        if typ = [] then Some (LibError ''mime: no media type'')
        else if rest = [] then None
        else if hd rest \<noteq> CHR ''/'' then Some (LibError ''mime: expected slash after first token'')
        else (case consumeToken (tl rest) of (subtype, rest') \<Rightarrow>
                if subtype = [] then Some (LibError ''mime: expected token after slash'')
                else if rest' \<noteq> [] then Some (LibError ''mime: unexpected content after media subtype'')
                else None))"

section \<open>Parameters\<close>

text \<open>The rest of a quoted string after its opening quote; \<^const>\<open>None\<close> when it does not close.\<close>

fun quoted_value :: "bytes \<Rightarrow> (bytes \<times> bytes) option" where
  "quoted_value [] = None"
| "quoted_value (r # v) =
     (if ord r = 34 then Some ([], v)
      else if ord r = 92 \<and> v \<noteq> [] \<and> isTSpecial (hd v)
      then map_option (\<lambda>(b, rest). (hd v # b, rest)) (quoted_value (tl v))
      else if ord r = 13 \<or> ord r = 10 then None
      else map_option (\<lambda>(b, rest). (r # b, rest)) (quoted_value v))"

definition consumeValue :: "bytes \<Rightarrow> bytes \<times> bytes" where
  "consumeValue v =
     (if v = [] then ([], [])
      else if ord (hd v) \<noteq> 34 then consumeToken v
      else (case quoted_value (tl v) of None \<Rightarrow> ([], v) | Some r \<Rightarrow> r))"

abbreviation TrimLeftSpace :: "bytes \<Rightarrow> bytes" where
  "TrimLeftSpace \<equiv> trim_runes space_runes"

definition consumeMediaParam :: "bytes \<Rightarrow> bytes \<times> bytes \<times> bytes" where
  "consumeMediaParam v =
     (let rest = TrimLeftSpace v
      in if rest = [] \<or> hd rest \<noteq> CHR '';'' then ([], [], v)
         else (case consumeToken (TrimLeftSpace (tl rest)) of (param, rest) \<Rightarrow>
           if ToLower param = [] then ([], [], v)
           else (let rest = TrimLeftSpace rest
             in if rest = [] \<or> hd rest \<noteq> CHR ''='' then ([], [], v)
                else (let rest = TrimLeftSpace (tl rest)
                  in (case consumeValue rest of (value, rest2) \<Rightarrow>
                        if value = [] \<and> rest2 = rest then ([], [], v)
                        else (ToLower param, value, rest2))))))"

lemma length_TrimLeftSpace: "length (TrimLeftSpace v) \<le> length v"
  using trim_runes_suffix by (rule suffix_length_le)

lemma consumeToken_length: "consumeToken v = (t, r) \<Longrightarrow> length r \<le> length v"
  by (auto simp: consumeToken_def length_dropWhile_le)

lemma quoted_value_length: "quoted_value v = Some (b, r) \<Longrightarrow> length r \<le> length v"
proof (induction v arbitrary: b rule: quoted_value.induct)
  case (2 c v)
  then show ?case by (cases v) (fastforce split: if_splits)+
qed simp

lemma consumeValue_length: "consumeValue v = (b, r) \<Longrightarrow> length r \<le> length v"
  by (cases v) (auto simp: consumeValue_def dest!: consumeToken_length quoted_value_length
      split: if_splits option.splits)

lemma consumeMediaParam_shorter:
  assumes "consumeMediaParam v = (key, value, rest)" and "key \<noteq> []"
  shows "length rest < length v"
proof -
  obtain param r1 where r0: "TrimLeftSpace v \<noteq> []"
    and r1: "consumeToken (TrimLeftSpace (tl (TrimLeftSpace v))) = (param, r1)"
    and val: "consumeValue (TrimLeftSpace (tl (TrimLeftSpace r1))) = (value, rest)"
    using assms by (auto simp: consumeMediaParam_def Let_def split: if_splits prod.splits)
  have "length rest \<le> length (tl (TrimLeftSpace r1))"
    using consumeValue_length [OF val] length_TrimLeftSpace order_trans by blast
  also have "\<dots> \<le> length r1" using length_TrimLeftSpace [of r1] by simp
  also have "\<dots> \<le> length (tl (TrimLeftSpace v))"
    using consumeToken_length [OF r1] length_TrimLeftSpace order_trans by blast
  also have "\<dots> < length (TrimLeftSpace v)" using r0 by (cases "TrimLeftSpace v") auto
  also have "\<dots> \<le> length v" by (rule length_TrimLeftSpace)
  finally show ?thesis .
qed

text \<open>
  The loop over the parameters: an error, or acceptance. \<open>seen\<close> holds the parameters so far; the names
  with a \<^verbatim>\<open>*\<close> live in maps of their own, but their full names never meet the others, so one
  association list is enough.
\<close>

function media_params :: "bytes \<Rightarrow> (bytes \<times> bytes) list \<Rightarrow> go_error option" where
  "media_params v seen =
     (let v = TrimLeftSpace v
      in if v = [] then None
         else (case consumeMediaParam v of (key, value, rest) \<Rightarrow>
           if key = [] then
             (if TrimSpace rest = '';'' then None else Some (LibError ''mime: invalid media parameter''))
           else (case map_of seen key of
                   Some old \<Rightarrow> if old \<noteq> value then Some (LibError ''mime: duplicate parameter name'')
                                 else media_params rest seen
                 | None \<Rightarrow> media_params rest ((key, value) # seen))))"
  by pat_completeness auto
termination
  by (relation "measure (\<lambda>(v, seen). length v)")
    (auto dest!: consumeMediaParam_shorter [OF sym] intro: less_le_trans [OF _ length_TrimLeftSpace])

declare media_params.simps [simp del]

definition ParseMediaType :: "bytes \<Rightarrow> bytes result" where
  "ParseMediaType v =
     (let base = takeWhile (\<lambda>c. c \<noteq> CHR '';'') v;
          mediatype = TrimSpace (ToLower base)
      in case checkMediaTypeDisposition mediatype of
           Some err \<Rightarrow> Inl err
         | None \<Rightarrow> (case media_params (drop (length base) v) [] of
                      Some err \<Rightarrow> Inl err
                    | None \<Rightarrow> Inr mediatype))"

section \<open>Header names\<close>

definition validHeaderFieldByte :: "char \<Rightarrow> bool" where
  "validHeaderFieldByte c \<longleftrightarrow> 97 \<le> ord c \<and> ord c \<le> 122 \<or> 65 \<le> ord c \<and> ord c \<le> 90 \<or> 48 \<le> ord c \<and> ord c \<le> 57
     \<or> c \<in> set ''!#$%&*+-.^_|~'' \<or> ord c = 39 \<or> ord c = 96"

definition ascii_upper :: "char \<Rightarrow> char" where
  "ascii_upper c = (if 97 \<le> ord c \<and> ord c \<le> 122 then chr (ord c - 32) else c)"

fun canonical_case :: "bool \<Rightarrow> bytes \<Rightarrow> bytes" where
  "canonical_case upper [] = []"
| "canonical_case upper (c # s) =
     (let c' = (if upper then ascii_upper c else ascii_lower c) in c' # canonical_case (c' = CHR ''-'') s)"

definition CanonicalHeaderKey :: "bytes \<Rightarrow> bytes" where
  "CanonicalHeaderKey s = (if list_all validHeaderFieldByte s then canonical_case True s else s)"

fun header_append :: "bytes \<Rightarrow> bytes \<Rightarrow> http_Header \<Rightarrow> http_Header" where
  "header_append key value [] = [(key, [value])]"
| "header_append key value ((k, vs) # h) =
     (if k = key then (k, vs @ [value]) # h else (k, vs) # header_append key value h)"

definition Header_Add :: "http_Header \<Rightarrow> bytes \<Rightarrow> bytes \<Rightarrow> http_Header" where
  "Header_Add h key value = header_append (CanonicalHeaderKey key) value h"

lemma fst_header_append: "fst ` set (header_append k v h) = insert k (fst ` set h)"
  by (induction k v h rule: header_append.induct) auto

lemma header_append_distinct: "distinct (map fst h) \<Longrightarrow> distinct (map fst (header_append k v h))"
  using fst_header_append by (induction k v h rule: header_append.induct) (auto simp: image_iff)

lemma header_append_lookup:
  "map_of (header_append k v h) =
     (map_of h)(k \<mapsto> (case map_of h k of None \<Rightarrow> [v] | Some vs \<Rightarrow> vs @ [v]))"
  by (induction k v h rule: header_append.induct) (auto split: option.splits)

end
