(* ===== verification/Native.thy ===== *)
theory Native
  imports Client Go_Mime "HOL-Library.Char_ord" "HOL-Library.List_Lexorder"
begin

text \<open>
  \<^verbatim>\<open>native.go\<close> and \<^verbatim>\<open>query.go\<close>: native commands, and the operations that send them. \<^verbatim>\<open>Execute\<close>, \<^verbatim>\<open>Query\<close>
  and \<^verbatim>\<open>Count\<close> make at most one request. \<^verbatim>\<open>Scan\<close> repeats the same request, and only after an
  admission rejection that is explicitly marked. A page is returned only when it respects the
  requested size and all its documents are valid.
\<close>

section \<open>Commands\<close>

record Command =
  cmd_URI :: bytes
  cmd_Method :: bytes
  cmd_Path :: bytes
  cmd_Query :: bytes
  cmd_Headers :: http_Header
  cmd_ContentType :: bytes
  cmd_Payload :: bytes

definition empty_Command :: Command where
  "empty_Command = \<lparr>cmd_URI = [], cmd_Method = [], cmd_Path = [], cmd_Query = [], cmd_Headers = [],
     cmd_ContentType = [], cmd_Payload = []\<rparr>"

text \<open>The Go type of a value, as far as \<^verbatim>\<open>reflect\<close> is used: pointers, maps and the rest.\<close>

datatype go_type = Pointer go_type | Map | OtherKind

fun strip_pointers :: "go_type \<Rightarrow> go_type" where
  "strip_pointers (Pointer t) = strip_pointers t"
| "strip_pointers t = t"

text \<open>\<open>type_of\<close> is \<^verbatim>\<open>reflect.TypeOf\<close> on the abstract values; \<^const>\<open>None\<close> is a nil interface.\<close>

definition NewBSONCommand :: "'v lib \<Rightarrow> ('v \<Rightarrow> go_type) \<Rightarrow> bytes \<Rightarrow> 'v option \<Rightarrow> Command result" where
  "NewBSONCommand lib type_of target v =
     (case (Parse target, v) of
        (Inr address, Some x) \<Rightarrow>
          if strip_pointers (type_of x) = Map
          then Inl (ErrorString ''BSON commands must preserve field order; use a struct, bson.D, or bson.Raw'')
          else (case bson_Marshal lib x of
                  Inl err \<Rightarrow> Inl (WrapError ''encode BSON command: '' err)
                | Inr payload \<Rightarrow>
                    Inr (empty_Command\<lparr>cmd_URI := Address_value address,
                           cmd_ContentType := ''application/bson'', cmd_Payload := payload\<rparr>))
      | _ \<Rightarrow> Inl (ErrorString ''BSON command requires a canonical resource URI and ordered value''))"

text \<open>The loop over the header map, in the order the map is visited: the names, or an error.\<close>

fun header_names :: "http_Header \<Rightarrow> bytes list result" where
  "header_names [] = Inr []"
| "header_names ((name, values) # rest) =
     (if name = [] \<or> length values = 0 then Inl (ErrorString ''native header requires a name and values'')
      else if EqualFold name ''Content-Type'' then Inl (ErrorString ''set ContentType directly, not in Headers'')
      else (case header_names rest of Inl err \<Rightarrow> Inl err | Inr names \<Rightarrow> Inr (name # names)))"

definition header_values :: "http_Header \<Rightarrow> bytes \<Rightarrow> bytes list" where
  "header_values h name = (case map_of h name of None \<Rightarrow> [] | Some vs \<Rightarrow> vs)"

definition check_content_type :: "'v lib \<Rightarrow> Command \<Rightarrow> go_error option" where
  "check_content_type lib c =
     (if cmd_ContentType c = [] then None
      else (case ParseMediaType (cmd_ContentType c) of
              Inl err \<Rightarrow> Some (WrapError ''invalid native ContentType: '' err)
            | Inr mediaType \<Rightarrow>
                if mediaType = ''application/bson'' \<and> length (cmd_Payload c) > 0
                then (case bson_Validate lib (cmd_Payload c) of
                        Some err \<Rightarrow> Some (WrapError ''invalid BSON command: '' err) | None \<Rightarrow> None)
                else None))"

definition Command_toProto :: "'v lib \<Rightarrow> Command \<Rightarrow> pbCommand result" where
  "Command_toProto lib c =
     (case Parse (cmd_URI c) of
        Inl err \<Rightarrow> Inl (WrapError ''native command URI: '' err)
      | Inr _ \<Rightarrow>
          if length (cmd_Payload c) > 0 \<and> cmd_ContentType c = []
          then Inl (ErrorString ''native payload requires ContentType'')
          else (case check_content_type lib c of
                  Some err \<Rightarrow> Inl err
                | None \<Rightarrow>
                    (case header_names (cmd_Headers c) of
                       Inl err \<Rightarrow> Inl err
                     | Inr names \<Rightarrow>
                         Inr \<lparr>pbCommand_Uri = cmd_URI c, pbCommand_Method = cmd_Method c,
                              pbCommand_Path = cmd_Path c, pbCommand_Query = cmd_Query c,
                              pbCommand_Headers =
                                map (\<lambda>name. Some \<lparr>pbHeader_Name = name,
                                       pbHeader_Values = header_values (cmd_Headers c) name,
                                       pbHeader_unknownFields = []\<rparr>) (sort names),
                              pbCommand_ContentType = cmd_ContentType c, pbCommand_Payload = cmd_Payload c,
                              pbCommand_unknownFields = []\<rparr>)))"

section \<open>Execute\<close>

definition rpc_of :: "'k Client option \<Rightarrow> 'k option" where
  "rpc_of c = (case c of None \<Rightarrow> None | Some cl \<Rightarrow> cl_rpc cl)"

definition empty_ExecuteResponse :: ExecuteResponse where
  "empty_ExecuteResponse = \<lparr>xr_ContentType = [], xr_Payload = [], xr_Success = False, xr_StatusCode = 0, xr_Headers = []\<rparr>"

definition response_headers :: "pbHeader option list \<Rightarrow> http_Header" where
  "response_headers hs =
     foldl (\<lambda>h ph. case ph of None \<Rightarrow> h
                     | Some p \<Rightarrow> foldl (\<lambda>h v. Header_Add h (pbHeader_Name p) v) h (pbHeader_Values p)) [] hs"

definition Execute ::
  "'v lib \<Rightarrow> ('k, 'c, 's) env \<Rightarrow> 'k Client option \<Rightarrow> 'c \<Rightarrow> Command \<Rightarrow> 's world
     \<Rightarrow> (ExecuteResponse \<times> go_error option) \<times> 's world" where
  "Execute lib env c ctx command w =
     (case rpc_of c of
        None \<Rightarrow> ((empty_ExecuteResponse, Some (ErrorString ''execute native command: client is required'')), w)
      | Some rpc \<Rightarrow>
          (case Command_toProto lib command of
             Inl err \<Rightarrow> ((empty_ExecuteResponse, Some err), w)
           | Inr pcommand \<Rightarrow>
               (case sinkClient_Execute env rpc ctx
                       \<lparr>pbExecuteRequest_Command = Some pcommand, pbExecuteRequest_unknownFields = []\<rparr>
                       (cc_sinkCallOptions (cl_config (the c))) w of
                  (Inl err, w') \<Rightarrow> ((empty_ExecuteResponse, Some (WrapError ''execute native command: '' err)), w')
                | (Inr None, w') \<Rightarrow> ((empty_ExecuteResponse, Some (protocolError ''Execute'' ''response is empty'')), w')
                | (Inr (Some response), w') \<Rightarrow>
                    (let result = \<lparr>xr_ContentType = pbExecuteResponse_ContentType response,
                                   xr_Payload = pbExecuteResponse_Payload response,
                                   xr_Success = pbExecuteResponse_Success response,
                                   xr_StatusCode = uint (pbExecuteResponse_StatusCode response),
                                   xr_Headers = response_headers (pbExecuteResponse_Headers response)\<rparr>
                     in if \<not> xr_Success result then ((result, Some (NativeErr result)), w')
                        else ((result, None), w')))))"

definition ExecuteResponse_Decode ::
  "(bytes \<Rightarrow> 'd result) \<Rightarrow> (bytes \<Rightarrow> 'd result) \<Rightarrow> (bytes \<Rightarrow> bytes) \<Rightarrow> ExecuteResponse \<Rightarrow> 'd result" where
  "ExecuteResponse_Decode json_Unmarshal bson_Unmarshal quote r =
     (case ParseMediaType (xr_ContentType r) of
        Inl err \<Rightarrow> Inl (WrapError ''decode native response content type: '' err)
      | Inr contentType \<Rightarrow>
          if contentType = ''application/bson'' then bson_Unmarshal (xr_Payload r)
          else if contentType = ''application/json'' \<or> HasSuffix contentType ''+json''
          then json_Unmarshal (xr_Payload r)
          else Inl (ErrorString (''native content type '' @ quote (xr_ContentType r)
                      @ '' requires decoding Payload directly'')))"

section \<open>Pages\<close>

record Projection =
  pj_Fields :: "bytes list"
  pj_Exclude :: bool

fun projection_fields_ok :: "bytes list \<Rightarrow> bytes list \<Rightarrow> bool" where
  "projection_fields_ok seen [] = True"
| "projection_fields_ok seen (field # rest) =
     (if TrimSpace field = [] \<or> \<not> utf8_Valid field \<or> field \<in> set seen then False
      else projection_fields_ok (field # seen) rest)"

definition Projection_toProto :: "Projection option \<Rightarrow> pbProjection option result" where
  "Projection_toProto p =
     (case p of
        None \<Rightarrow> Inr None
      | Some pj \<Rightarrow>
          if \<not> projection_fields_ok [] (pj_Fields pj)
          then Inl (ErrorString ''projection fields must be nonempty, valid UTF-8 and unique'')
          else Inr (Some \<lparr>pbProjection_Fields = pj_Fields pj, pbProjection_Exclude = pj_Exclude pj,
                          pbProjection_unknownFields = []\<rparr>))"

text \<open>The loop that converts the documents of a page.\<close>

fun page_documents :: "'v lib \<Rightarrow> bytes \<Rightarrow> pbDocument option list \<Rightarrow> Document list result" where
  "page_documents lib method [] = Inr []"
| "page_documents lib method (raw # rest) =
     (case documentFromProto lib raw of
        Inl err \<Rightarrow> Inl (protocolError method (error_text lib err))
      | Inr document \<Rightarrow>
          (case page_documents lib method rest of
             Inl err \<Rightarrow> Inl err
           | Inr documents \<Rightarrow> Inr (document # documents)))"

section \<open>Query and Count\<close>

record SortField =
  sf_Field :: bytes
  sf_Descending :: bool

record QueryRequest =
  qr_Command :: Command
  qr_Page :: int
  qr_PageSize :: int
  qr_Sort :: "SortField list"
  qr_Projection :: "Projection option"

record Page =
  pg_Documents :: "Document list"
  pg_HasMore :: bool

definition empty_Page :: Page where
  "empty_Page = \<lparr>pg_Documents = [], pg_HasMore = False\<rparr>"

fun sort_fields :: "bytes list \<Rightarrow> SortField list \<Rightarrow> pbSortField option list result" where
  "sort_fields seen [] = Inr []"
| "sort_fields seen (f # fs) =
     (if TrimSpace (sf_Field f) = [] \<or> sf_Field f \<in> set seen
      then Inl (ErrorString ''sort fields must be nonempty and unique'')
      else (case sort_fields (sf_Field f # seen) fs of
              Inl err \<Rightarrow> Inl err
            | Inr items \<Rightarrow>
                Inr (Some \<lparr>pbSortField_Field = sf_Field f, pbSortField_Descending = sf_Descending f,
                           pbSortField_unknownFields = []\<rparr> # items)))"

text \<open>The request \<^verbatim>\<open>Query\<close> sends, or the error it returns before sending anything.\<close>

definition query_request :: "'v lib \<Rightarrow> QueryRequest \<Rightarrow> pbQueryRequest result" where
  "query_request lib req =
     (if qr_Page req < 0 \<or> qr_Page req > 2 ^ 32 - 1 \<or> qr_PageSize req < 0 \<or> qr_PageSize req > 1000
      then Inl (ErrorString ''query requires a nonnegative uint32 page and page size between 0 and 1000'')
      else (case Command_toProto lib (qr_Command req) of
              Inl err \<Rightarrow> Inl err
            | Inr command \<Rightarrow>
                (case sort_fields [] (qr_Sort req) of
                   Inl err \<Rightarrow> Inl err
                 | Inr items \<Rightarrow>
                     (case Projection_toProto (qr_Projection req) of
                        Inl err \<Rightarrow> Inl err
                      | Inr projection \<Rightarrow>
                          Inr \<lparr>pbQueryRequest_Command = Some command,
                               pbQueryRequest_Page = word_of_int (qr_Page req),
                               pbQueryRequest_PageSize = word_of_int (qr_PageSize req),
                               pbQueryRequest_Sort = items, pbQueryRequest_Projection = projection,
                               pbQueryRequest_unknownFields = []\<rparr>))))"

definition query_page :: "'v lib \<Rightarrow> int \<Rightarrow> pbQueryResponse \<Rightarrow> Page \<times> go_error option" where
  "query_page lib requested response =
     (let pageSize = (if requested = 0 then 100 else requested);
          got = int (length (pbQueryResponse_Documents response))
      in if got > pageSize \<or> pbQueryResponse_HasMore response \<and> got \<noteq> pageSize
         then (empty_Page, Some (protocolError ''Query'' ''invalid page length or has_more''))
         else (case page_documents lib ''Query'' (pbQueryResponse_Documents response) of
                 Inl err \<Rightarrow> (empty_Page, Some err)
               | Inr documents \<Rightarrow>
                   (\<lparr>pg_Documents = documents, pg_HasMore = pbQueryResponse_HasMore response\<rparr>, None)))"

definition Query ::
  "'v lib \<Rightarrow> ('k, 'c, 's) env \<Rightarrow> 'k Client option \<Rightarrow> 'c \<Rightarrow> QueryRequest \<Rightarrow> 's world
     \<Rightarrow> (Page \<times> go_error option) \<times> 's world" where
  "Query lib env c ctx req w =
     (case rpc_of c of
        None \<Rightarrow> ((empty_Page, Some (ErrorString ''query requires a client'')), w)
      | Some rpc \<Rightarrow>
          (case query_request lib req of
             Inl err \<Rightarrow> ((empty_Page, Some err), w)
           | Inr request \<Rightarrow>
               (case sinkClient_Query env rpc ctx request (cc_sinkCallOptions (cl_config (the c))) w of
                  (Inl err, w') \<Rightarrow> ((empty_Page, Some (WrapError ''query native page: '' err)), w')
                | (Inr None, w') \<Rightarrow> ((empty_Page, Some (protocolError ''Query'' ''response is empty'')), w')
                | (Inr (Some response), w') \<Rightarrow> (query_page lib (qr_PageSize req) response, w'))))"

record CountResponse =
  ct_Count :: uint64w
  ct_Estimated :: bool

definition empty_CountResponse :: CountResponse where
  "empty_CountResponse = \<lparr>ct_Count = 0, ct_Estimated = False\<rparr>"

definition Count ::
  "'v lib \<Rightarrow> ('k, 'c, 's) env \<Rightarrow> 'k Client option \<Rightarrow> 'c \<Rightarrow> Command \<Rightarrow> 's world
     \<Rightarrow> (CountResponse \<times> go_error option) \<times> 's world" where
  "Count lib env c ctx command w =
     (case rpc_of c of
        None \<Rightarrow> ((empty_CountResponse, Some (ErrorString ''count requires a client'')), w)
      | Some rpc \<Rightarrow>
          (case Command_toProto lib command of
             Inl err \<Rightarrow> ((empty_CountResponse, Some err), w)
           | Inr pcommand \<Rightarrow>
               (case sinkClient_Count env rpc ctx
                       \<lparr>pbCountRequest_Command = Some pcommand, pbCountRequest_unknownFields = []\<rparr>
                       (cc_sinkCallOptions (cl_config (the c))) w of
                  (Inl err, w') \<Rightarrow> ((empty_CountResponse, Some (WrapError ''count native query: '' err)), w')
                | (Inr None, w') \<Rightarrow> ((empty_CountResponse, Some (protocolError ''Count'' ''response is empty'')), w')
                | (Inr (Some response), w') \<Rightarrow>
                    ((\<lparr>ct_Count = pbCountResponse_Count response,
                       ct_Estimated = pbCountResponse_Estimated response\<rparr>, None), w'))))"

section \<open>Scan\<close>

record ScanRequest =
  sr_Command :: Command
  sr_BatchSize :: int
  sr_Cursor :: bytes
  sr_Projection :: "Projection option"

record ScanResponse =
  sp_Documents :: "Document list"
  sp_NextCursor :: bytes

definition empty_ScanResponse :: ScanResponse where
  "empty_ScanResponse = \<lparr>sp_Documents = [], sp_NextCursor = []\<rparr>"

definition maxCursorBytes :: nat where "maxCursorBytes = 65536"

abbreviation (input) codes_ResourceExhausted :: nat where "codes_ResourceExhausted \<equiv> 8"

text \<open>
  A detail of a gRPC status is an \<^verbatim>\<open>ErrorInfo\<close> with a domain and a reason, or something else
  (\<^const>\<open>None\<close>).
\<close>

definition retryableScanAdmission :: "'v lib \<Rightarrow> go_error \<Rightarrow> bool" where
  "retryableScanAdmission lib err \<longleftrightarrow>
     status_Code lib err = codes_ResourceExhausted \<and>
     list_ex (\<lambda>d. d = Some (''sink'', ''SCAN_ADMISSION_REJECTED'')) (status_Details lib err)"

definition scan_request :: "'v lib \<Rightarrow> ScanRequest \<Rightarrow> pbScanRequest result" where
  "scan_request lib req =
     (if sr_BatchSize req < 0 \<or> sr_BatchSize req > 1000
      then Inl (ErrorString ''scan batch size must be between 0 and 1000'')
      else if length (sr_Cursor req) > maxCursorBytes then Inl (ErrorString ''scan cursor exceeds byte limit'')
      else (case Command_toProto lib (sr_Command req) of
              Inl err \<Rightarrow> Inl err
            | Inr command \<Rightarrow>
                (case Projection_toProto (sr_Projection req) of
                   Inl err \<Rightarrow> Inl err
                 | Inr projection \<Rightarrow>
                     Inr \<lparr>pbScanRequest_Command = Some command,
                          pbScanRequest_BatchSize = word_of_int (sr_BatchSize req),
                          pbScanRequest_Cursor = sr_Cursor req, pbScanRequest_Projection = projection,
                          pbScanRequest_unknownFields = []\<rparr>)))"

text \<open>
  The retry loop. \<open>Inl\<close> is a return from inside the loop; \<open>Inr\<close> holds the variables
  \<^verbatim>\<open>response\<close> and \<^verbatim>\<open>err\<close> after it.
\<close>

function scanAttempts ::
  "'v lib \<Rightarrow> ('k, 'c, 's) env \<Rightarrow> 'k \<Rightarrow> clientConfig \<Rightarrow> 'c \<Rightarrow> pbScanRequest \<Rightarrow> int \<Rightarrow> int
     \<Rightarrow> pbScanResponse option \<Rightarrow> go_error option \<Rightarrow> 's world
     \<Rightarrow> (go_error + pbScanResponse option \<times> go_error option) \<times> 's world" where
  "scanAttempts lib env rpc config ctx request attempt backoff response err w =
     (let retry = cc_scanRetry config
      in if attempt \<le> rp_MaxAttempts retry then
           (case ctx_Err env ctx (w_st w) of
              Some e \<Rightarrow> (Inl (WrapError ''scan page: '' (status_FromContextError lib e)), w)
            | None \<Rightarrow>
                (case sinkClient_Scan env rpc ctx request (cc_sinkCallOptions config) w of
                   (Inr response', w1) \<Rightarrow> (Inr (response', None), w1)
                 | (Inl e, w1) \<Rightarrow>
                     if attempt = rp_MaxAttempts retry \<or> \<not> retryableScanAdmission lib e
                     then (Inr (None, Some e), w1)
                     else (case backoff_wait env ctx backoff (rp_Jitter retry) w1 of
                             (Some e', w2) \<Rightarrow> (Inl (WrapError ''scan page: '' (status_FromContextError lib e')), w2)
                           | (None, w2) \<Rightarrow>
                               scanAttempts lib env rpc config ctx request (attempt + 1)
                                 (nextBackoff (float_oob env) backoff retry) None (Some e) w2)))
         else (Inr (response, err), w))"
  by pat_completeness auto
termination
  by (relation "measure (\<lambda>(lib, env, rpc, config, ctx, request, attempt, backoff, response, err, w).
        nat (rp_MaxAttempts (cc_scanRetry config) + 1 - attempt))") auto

declare scanAttempts.simps [simp del]

definition scan_page :: "'v lib \<Rightarrow> int \<Rightarrow> pbScanResponse \<Rightarrow> ScanResponse \<times> go_error option" where
  "scan_page lib requested response =
     (let limit = (if requested = 0 then 100 else requested);
          got = length (pbScanResponse_Documents response);
          cursor = length (pbScanResponse_NextCursor response)
      in if int got > limit \<or> cursor > maxCursorBytes \<or> cursor > 0 \<and> got = 0
         then (empty_ScanResponse, Some (protocolError ''Scan'' ''invalid page or continuation cursor''))
         else (case page_documents lib ''Scan'' (pbScanResponse_Documents response) of
                 Inl err \<Rightarrow> (empty_ScanResponse, Some err)
               | Inr documents \<Rightarrow>
                   (\<lparr>sp_Documents = documents, sp_NextCursor = pbScanResponse_NextCursor response\<rparr>, None)))"

definition Scan ::
  "'v lib \<Rightarrow> ('k, 'c, 's) env \<Rightarrow> 'k Client option \<Rightarrow> 'c \<Rightarrow> ScanRequest \<Rightarrow> 's world
     \<Rightarrow> (ScanResponse \<times> go_error option) \<times> 's world" where
  "Scan lib env c ctx req w =
     (case rpc_of c of
        None \<Rightarrow> ((empty_ScanResponse, Some (ErrorString ''scan requires a client'')), w)
      | Some rpc \<Rightarrow>
          (case scan_request lib req of
             Inl err \<Rightarrow> ((empty_ScanResponse, Some err), w)
           | Inr request \<Rightarrow>
               (let config = cl_config (the c);
                    ctx' = WithTimeout env ctx (cc_scanTimeout config) (w_st w)
                in case scanAttempts lib env rpc config ctx' request 1
                          (rp_InitialBackoff (cc_scanRetry config)) None None w of
                     (Inl err, w') \<Rightarrow> ((empty_ScanResponse, Some err), w')
                   | (Inr (_, Some err), w') \<Rightarrow> ((empty_ScanResponse, Some (WrapError ''scan page: '' err)), w')
                   | (Inr (None, None), w') \<Rightarrow>
                       ((empty_ScanResponse, Some (protocolError ''Scan'' ''response is empty'')), w')
                   | (Inr (Some response, None), w') \<Rightarrow> (scan_page lib (sr_BatchSize req) response, w'))))"

section \<open>What a command message holds\<close>

definition header_ok :: "bytes \<times> bytes list \<Rightarrow> bool" where
  "header_ok h \<longleftrightarrow> fst h \<noteq> [] \<and> snd h \<noteq> [] \<and> \<not> EqualFold (fst h) ''Content-Type''"

lemma header_names_Inr: "header_names h = Inr names \<longleftrightarrow> names = map fst h \<and> list_all header_ok h"
proof (induction h arbitrary: names)
  case Nil
  then show ?case by auto
next
  case (Cons p h)
  show ?case
    using Cons.IH [of "map fst h"] Cons.IH
    by (cases p; cases "header_names h") (auto simp: header_ok_def)
qed

lemma Command_toProto_InrD:
  assumes "Command_toProto lib c = Inr p"
  shows "\<exists>a. Parse (cmd_URI c) = Inr a" and "cmd_Payload c \<noteq> [] \<longrightarrow> cmd_ContentType c \<noteq> []"
    and "check_content_type lib c = None" and "list_all header_ok (cmd_Headers c)"
    and "p = \<lparr>pbCommand_Uri = cmd_URI c, pbCommand_Method = cmd_Method c, pbCommand_Path = cmd_Path c,
           pbCommand_Query = cmd_Query c,
           pbCommand_Headers = map (\<lambda>name. Some \<lparr>pbHeader_Name = name,
              pbHeader_Values = header_values (cmd_Headers c) name, pbHeader_unknownFields = []\<rparr>)
              (sort (map fst (cmd_Headers c))),
           pbCommand_ContentType = cmd_ContentType c, pbCommand_Payload = cmd_Payload c,
           pbCommand_unknownFields = []\<rparr>"
  using assms
  by (auto simp: Command_toProto_def header_names_Inr split: sum.splits if_splits option.splits)

lemma Command_toProto_InrI:
  assumes "Parse (cmd_URI c) = Inr a" and "cmd_Payload c \<noteq> [] \<longrightarrow> cmd_ContentType c \<noteq> []"
    and "check_content_type lib c = None" and "list_all header_ok (cmd_Headers c)"
  shows "\<exists>p. Command_toProto lib c = Inr p"
  using assms header_names_Inr [of "cmd_Headers c" "map fst (cmd_Headers c)"]
  by (auto simp: Command_toProto_def)

lemma sort_of_mset: "mset xs = mset ys \<Longrightarrow> sort xs = sort (ys :: bytes list)"
  by (metis mset_sort properties_for_sort sorted_sort)

lemma map_of_distinct_set_eq:
  assumes "distinct (map fst xs)" and "distinct (map fst ys)" and "set xs = set ys"
  shows "map_of xs = map_of ys"
proof
  fix k
  show "map_of xs k = map_of ys k"
    using map_of_eq_Some_iff [OF assms(1), of k] map_of_eq_Some_iff [OF assms(2), of k] assms(3)
    by (metis not_None_eq)
qed

text \<open>Two visiting orders of the same header map give the same message.\<close>

lemma Command_toProto_order:
  assumes "Command_toProto lib c = Inr p" and "distinct (map fst (cmd_Headers c))"
    and "mset h = mset (cmd_Headers c)"
  shows "Command_toProto lib (c\<lparr>cmd_Headers := h\<rparr>) = Inr p"
proof -
  note D = Command_toProto_InrD [OF assms(1)]
  let ?c = "c\<lparr>cmd_Headers := h\<rparr>"
  have hset: "set h = set (cmd_Headers c)" using assms(3) by (metis set_mset_mset)
  have hm: "mset (map fst h) = mset (map fst (cmd_Headers c))" using assms(3) by simp
  then have names: "sort (map fst h) = sort (map fst (cmd_Headers c))" by (rule sort_of_mset)
  have dist: "distinct (map fst h)" using hm assms(2) by (metis mset_eq_imp_distinct_iff)
  have look: "map_of h = map_of (cmd_Headers c)"
    using dist assms(2) hset by (rule map_of_distinct_set_eq)
  have oks: "list_all header_ok h" using D(4) hset by (simp add: list_all_conv_set)
  have "check_content_type lib ?c = check_content_type lib c" by (simp add: check_content_type_def split: sum.split)
  then obtain q where q: "Command_toProto lib ?c = Inr q"
    using D(1-3) oks Command_toProto_InrI [of ?c _ lib] by auto
  show ?thesis
    using Command_toProto_InrD(5) [OF q] D(5) q names look by (simp add: header_values_def)
qed

section \<open>Documents of a page\<close>

lemma page_documents_Inr:
  "page_documents lib method raws = Inr ds \<longleftrightarrow> list_all2 (\<lambda>raw d. documentFromProto lib raw = Inr d) raws ds"
proof (induction raws arbitrary: ds)
  case Nil
  then show ?case by auto
next
  case (Cons raw raws)
  show ?case
    using Cons.IH
    by (cases "documentFromProto lib raw"; cases "page_documents lib method raws")
      (auto simp: list_all2_Cons1)
qed

lemma page_documents_valid:
  assumes "page_documents lib method raws = Inr ds"
  shows "length ds = length raws \<and> (\<forall>d\<in>set ds. Document_validate lib d = None)"
proof -
  have L: "list_all2 (\<lambda>raw d. documentFromProto lib raw = Inr d) raws ds"
    using assms by (simp add: page_documents_Inr)
  have "\<forall>d\<in>set ds. \<exists>raw. documentFromProto lib raw = Inr d"
    using L by (induction rule: list_all2_induct) auto
  then show ?thesis using list_all2_lengthD [OF L] by (auto dest: documentFromProto_valid)
qed

lemma query_page_ok:
  assumes "query_page lib n response = (page, None)" and "0 \<le> n"
  shows "int (length (pg_Documents page)) \<le> (if n = 0 then 100 else n)
     \<and> (pg_HasMore page \<longrightarrow> int (length (pg_Documents page)) = (if n = 0 then 100 else n))
     \<and> (\<forall>d\<in>set (pg_Documents page). Document_validate lib d = None)"
  using assms by (auto simp: query_page_def Let_def dest!: page_documents_valid split: if_splits sum.splits)

lemma scan_page_ok:
  assumes "scan_page lib n response = (page, None)"
  shows "int (length (sp_Documents page)) \<le> (if n = 0 then 100 else n)
     \<and> length (sp_NextCursor page) \<le> maxCursorBytes
     \<and> (sp_NextCursor page \<noteq> [] \<longrightarrow> sp_Documents page \<noteq> [])
     \<and> (\<forall>d\<in>set (sp_Documents page). Document_validate lib d = None)"
proof -
  obtain ds where ds: "page_documents lib ''Scan'' (pbScanResponse_Documents response) = Inr ds"
    and page: "page = \<lparr>sp_Documents = ds, sp_NextCursor = pbScanResponse_NextCursor response\<rparr>"
    and ok: "\<not> (int (length (pbScanResponse_Documents response)) > (if n = 0 then 100 else n)
      \<or> length (pbScanResponse_NextCursor response) > maxCursorBytes
      \<or> length (pbScanResponse_NextCursor response) > 0 \<and> length (pbScanResponse_Documents response) = 0)"
    using assms by (auto simp: scan_page_def Let_def split: if_splits sum.splits)
  show ?thesis using page_documents_valid [OF ds] page ok by auto
qed

section \<open>Response headers\<close>

definition values_for :: "bytes \<Rightarrow> pbHeader option list \<Rightarrow> bytes list" where
  "values_for k hs = concat (map (\<lambda>ph. case ph of None \<Rightarrow> []
     | Some p \<Rightarrow> if CanonicalHeaderKey (pbHeader_Name p) = k then pbHeader_Values p else []) hs)"

definition lookup_values :: "http_Header \<Rightarrow> bytes \<Rightarrow> bytes list" where
  "lookup_values h k = (case map_of h k of None \<Rightarrow> [] | Some vs \<Rightarrow> vs)"

lemma lookup_Header_Add:
  "lookup_values (Header_Add h key v) k
     = lookup_values h k @ (if CanonicalHeaderKey key = k then [v] else [])"
  by (auto simp: lookup_values_def Header_Add_def header_append_lookup split: option.splits)

lemma lookup_Header_Add_list:
  "lookup_values (foldl (\<lambda>h v. Header_Add h key v) h vs) k
     = lookup_values h k @ (if CanonicalHeaderKey key = k then vs else [])"
  by (induction vs arbitrary: h) (auto simp: lookup_Header_Add)

lemma lookup_response_headers: "lookup_values (response_headers hs) k = values_for k hs"
proof -
  have "lookup_values (foldl (\<lambda>h ph. case ph of None \<Rightarrow> h
          | Some p \<Rightarrow> foldl (\<lambda>h v. Header_Add h (pbHeader_Name p) v) h (pbHeader_Values p)) h hs) k
      = lookup_values h k @ values_for k hs" for h
    by (induction hs arbitrary: h) (auto simp: values_for_def lookup_Header_Add_list split: option.splits)
  from this [of "[]"] show ?thesis by (simp add: response_headers_def lookup_values_def)
qed

section \<open>The requests of a scan\<close>

inductive scan_trace :: "nat \<Rightarrow> pbScanRequest \<Rightarrow> event list \<Rightarrow> bool" where
  expired: "scan_trace n req []"
| last: "scan_trace (Suc n) req [EvScan req]"
| again: "scan_trace n req evs \<Longrightarrow> scan_trace (Suc n) req (EvScan req # EvSleep d # evs)"

definition scans :: "event list \<Rightarrow> pbScanRequest list" where
  "scans evs = concat (map (\<lambda>e. case e of EvScan r \<Rightarrow> [r] | _ \<Rightarrow> []) evs)"

lemma scans_simps [simp]:
  "scans [] = []" "scans (EvScan r # evs) = r # scans evs" "scans (EvSleep d # evs) = scans evs"
  by (simp_all add: scans_def)

lemma scan_trace_same: "scan_trace n req evs \<Longrightarrow> length (scans evs) \<le> n \<and> set (scans evs) \<subseteq> {req}"
  by (induction rule: scan_trace.induct) auto

lemma scanAttempts_trace:
  assumes "scanAttempts lib env rpc config ctx request attempt backoff response err w = (r, w')"
    and "attempt \<le> rp_MaxAttempts (cc_scanRetry config) + 1"
  shows "\<exists>evs. w_trace w' = w_trace w @ evs
    \<and> scan_trace (nat (rp_MaxAttempts (cc_scanRetry config) + 1 - attempt)) request evs"
  using assms
proof (induction "nat (rp_MaxAttempts (cc_scanRetry config) + 1 - attempt)"
    arbitrary: attempt backoff response err w)
  case 0
  then have "\<not> attempt \<le> rp_MaxAttempts (cc_scanRetry config)" by simp
  then show ?case using "0.prems"
    by (auto simp: scanAttempts.simps [of lib env rpc config ctx request attempt] Let_def intro: scan_trace.expired)
next
  case (Suc n)
  let ?M = "rp_MaxAttempts (cc_scanRetry config)"
  have att: "attempt \<le> ?M" and n: "n = nat (?M + 1 - (attempt + 1))" "nat (?M + 1 - attempt) = Suc n"
    using Suc.hyps(2) by auto
  note u = Suc.prems(1) [unfolded scanAttempts.simps [of lib env rpc config ctx request attempt] Let_def if_P [OF att]]
  show ?case
  proof (cases "ctx_Err env ctx (w_st w)")
    case (Some e)
    then show ?thesis using u by (auto intro: scan_trace.expired)
  next
    case None
    obtain r1 w1 where rd: "sinkClient_Scan env rpc ctx request (cc_sinkCallOptions config) w = (r1, w1)"
      by (cases "sinkClient_Scan env rpc ctx request (cc_sinkCallOptions config) w")
    have t1: "w_trace w1 = w_trace w @ [EvScan request]" using stub_trace(7) [OF rd] .
    have last: "\<exists>evs. w_trace w1 = w_trace w @ evs \<and> scan_trace (Suc n) request evs"
      using t1 by (auto intro: scan_trace.last)
    show ?thesis
    proof (cases "(\<exists>x. r1 = Inr x) \<or> (\<exists>e. r1 = Inl e \<and> (attempt = ?M \<or> \<not> retryableScanAdmission lib e))")
      case True
      then show ?thesis using u None rd last n(2) by auto
    next
      case False
      then obtain e where e: "r1 = Inl e" "attempt \<noteq> ?M" "retryableScanAdmission lib e" by (cases r1) auto
      obtain e2 w2 where wt: "backoff_wait env ctx backoff (rp_Jitter (cc_scanRetry config)) w1 = (e2, w2)"
        by (cases "backoff_wait env ctx backoff (rp_Jitter (cc_scanRetry config)) w1")
      obtain d where t2: "w_trace w2 = w_trace w @ [EvScan request, EvSleep d]"
        using backoff_wait_trace [OF wt] t1 by auto
      show ?thesis
      proof (cases e2)
        case (Some e')
        then have "w' = w2" using u None rd e wt by simp
        then show ?thesis using t2 n(2) scan_trace.again [OF scan_trace.expired [of n request]] by auto
      next
        case none: None
        have "scanAttempts lib env rpc config ctx request (attempt + 1)
            (nextBackoff (float_oob env) backoff (cc_scanRetry config)) None (Some e) w2 = (r, w')"
          using u None rd e wt none by simp
        from Suc.hyps(1) [OF n(1) this] att obtain evs
          where "w_trace w' = w_trace w2 @ evs" "scan_trace n request evs" using n(1) by auto
        then show ?thesis using t2 n(2) by (auto intro!: exI [of _ "EvScan request # EvSleep d # evs"] scan_trace.again)
      qed
    qed
  qed
qed

section \<open>What the operations send\<close>

lemma Execute_sent:
  "w_trace (snd (Execute lib env c ctx cmd w)) = w_trace w @
     (case (rpc_of c, Command_toProto lib cmd) of
        (Some _, Inr p) \<Rightarrow> [EvExecute \<lparr>pbExecuteRequest_Command = Some p, pbExecuteRequest_unknownFields = []\<rparr>] | _ \<Rightarrow> [])"
  by (auto simp: Execute_def Let_def dest!: stub_trace split: option.split sum.split prod.split)

lemma Query_sent:
  "w_trace (snd (Query lib env c ctx req w)) = w_trace w @
     (case (rpc_of c, query_request lib req) of (Some _, Inr q) \<Rightarrow> [EvQuery q] | _ \<Rightarrow> [])"
  by (auto simp: Query_def dest!: stub_trace split: option.split sum.split prod.split)

lemma Count_sent:
  "w_trace (snd (Count lib env c ctx cmd w)) = w_trace w @
     (case (rpc_of c, Command_toProto lib cmd) of
        (Some _, Inr p) \<Rightarrow> [EvCount \<lparr>pbCountRequest_Command = Some p, pbCountRequest_unknownFields = []\<rparr>] | _ \<Rightarrow> [])"
  by (auto simp: Count_def dest!: stub_trace split: option.split sum.split prod.split)

lemma Scan_unfold:
  assumes "Scan lib env (Some c) ctx req w = ((page, err), w')"
  obtains (rejected) "err \<noteq> None" "page = empty_ScanResponse" "w' = w"
  | (sent) rpc request r where "cl_rpc c = Some rpc" "scan_request lib req = Inr request"
      "scanAttempts lib env rpc (cl_config c) (WithTimeout env ctx (cc_scanTimeout (cl_config c)) (w_st w)) request 1
         (rp_InitialBackoff (cc_scanRetry (cl_config c))) None None w = (r, w')"
      "(page, err) = (case r of Inl e \<Rightarrow> (empty_ScanResponse, Some e)
         | Inr (_, Some e) \<Rightarrow> (empty_ScanResponse, Some (WrapError ''scan page: '' e))
         | Inr (None, None) \<Rightarrow> (empty_ScanResponse, Some (protocolError ''Scan'' ''response is empty''))
         | Inr (Some resp, None) \<Rightarrow> scan_page lib (sr_BatchSize req) resp)"
proof (cases "cl_rpc c")
  case None
  then show thesis using assms rejected by (auto simp: Scan_def rpc_of_def)
next
  case (Some rpc)
  show thesis
  proof (cases "scan_request lib req")
    case (Inl e)
    then show thesis using assms Some rejected by (auto simp: Scan_def rpc_of_def)
  next
    case (Inr request)
    obtain r w1 where r: "scanAttempts lib env rpc (cl_config c)
        (WithTimeout env ctx (cc_scanTimeout (cl_config c)) (w_st w)) request 1
        (rp_InitialBackoff (cc_scanRetry (cl_config c))) None None w = (r, w1)"
      by (cases "scanAttempts lib env rpc (cl_config c)
        (WithTimeout env ctx (cc_scanTimeout (cl_config c)) (w_st w)) request 1
        (rp_InitialBackoff (cc_scanRetry (cl_config c))) None None w")
    then have "w1 = w'" using assms Some Inr
      by (auto simp: Scan_def rpc_of_def Let_def split: sum.splits option.splits prod.splits)
    then show thesis using assms Some Inr r
      by (intro sent [OF Some Inr]) (auto simp: Scan_def rpc_of_def Let_def split: sum.splits option.splits prod.splits)
  qed
qed

text \<open>A page returned without an error is an accepted one.\<close>

lemma Query_page:
  assumes "Query lib env c ctx req w = ((page, None), w')"
  defines "n \<equiv> if qr_PageSize req = 0 then 100 else qr_PageSize req"
  shows "int (length (pg_Documents page)) \<le> n \<and> (pg_HasMore page \<longrightarrow> int (length (pg_Documents page)) = n)
    \<and> (\<forall>d\<in>set (pg_Documents page). Document_validate lib d = None)"
proof -
  obtain response where "query_page lib (qr_PageSize req) response = (page, None)" and "0 \<le> qr_PageSize req"
    using assms(1) by (auto simp: Query_def query_request_def split: option.splits sum.splits prod.splits if_splits)
  then show ?thesis unfolding n_def by (rule query_page_ok)
qed

lemma scan_request_next:
  assumes "scan_request lib req = Inr q" and "length cursor \<le> maxCursorBytes"
  shows "\<exists>q'. scan_request lib (req\<lparr>sr_Cursor := cursor\<rparr>) = Inr q' \<and> pbScanRequest_Cursor q' = cursor"
  using assms by (auto simp: scan_request_def split: if_splits sum.splits)

lemma Scan_page:
  assumes "Scan lib env c ctx req w = ((page, None), w')"
  shows "int (length (sp_Documents page)) \<le> (if sr_BatchSize req = 0 then 100 else sr_BatchSize req)
    \<and> (sp_NextCursor page \<noteq> [] \<longrightarrow> sp_Documents page \<noteq> [])
    \<and> (\<forall>d\<in>set (sp_Documents page). Document_validate lib d = None)
    \<and> (\<exists>q. scan_request lib (req\<lparr>sr_Cursor := sp_NextCursor page\<rparr>) = Inr q \<and> pbScanRequest_Cursor q = sp_NextCursor page)"
proof -
  obtain q response where "scan_request lib req = Inr q" and "scan_page lib (sr_BatchSize req) response = (page, None)"
    using assms by (auto simp: Scan_def Let_def split: option.splits sum.splits prod.splits)
  then show ?thesis using scan_page_ok scan_request_next by blast
qed

text \<open>Without a marked rejection the first answer ends the loop.\<close>

lemma scanAttempts_unmarked:
  assumes "scanAttempts lib env rpc config ctx request attempt backoff response err w = (r, w')"
    and "\<And>e w1. sinkClient_Scan env rpc ctx request (cc_sinkCallOptions config) w = (Inl e, w1) \<Longrightarrow>
      \<not> retryableScanAdmission lib e"
  shows "w' = w \<or> w_trace w' = w_trace w @ [EvScan request]"
  using assms
  by (auto simp: scanAttempts.simps [of lib env rpc config ctx request attempt] Let_def dest!: stub_trace
      split: if_splits option.splits sum.splits prod.splits)

lemma Command_toProto_not_native: "Command_toProto lib c \<noteq> Inl (NativeErr r)"
proof -
  have h: "header_names h \<noteq> Inl (NativeErr r)" for h
    by (induction h rule: header_names.induct) (auto split: sum.splits)
  have c: "check_content_type lib c \<noteq> Some (NativeErr r)"
    by (auto simp: check_content_type_def split: sum.splits option.splits)
  show ?thesis
    using h [of "cmd_Headers c"] c
    by (auto simp: Command_toProto_def split: sum.splits option.splits)
qed

lemma query_request_command:
  assumes "query_request lib req = Inr q"
  shows "\<exists>p. pbQueryRequest_Command q = Some p \<and> Command_toProto lib (qr_Command req) = Inr p"
  using assms by (auto simp: query_request_def split: if_splits sum.splits)

lemma scan_request_command:
  assumes "scan_request lib req = Inr q"
  shows "\<exists>p. pbScanRequest_Command q = Some p \<and> Command_toProto lib (sr_Command req) = Inr p"
  using assms by (auto simp: scan_request_def split: if_splits sum.splits)

section \<open>Properties\<close>

text \<open>
  C35: the message of a command does not depend on the order in which Go visits the header map: for every
  order of the same headers the message is the same, and its headers are sorted by name.
\<close>

theorem Command_headers_order:
  assumes "Command_toProto lib c = Inr p" and "distinct (map fst (cmd_Headers c))"
    and "mset h = mset (cmd_Headers c)"
  shows "Command_toProto lib (c\<lparr>cmd_Headers := h\<rparr>) = Inr p
    \<and> sorted (map (\<lambda>x. pbHeader_Name (the x)) (pbCommand_Headers p))"
proof
  show "Command_toProto lib (c\<lparr>cmd_Headers := h\<rparr>) = Inr p" using assms by (rule Command_toProto_order)
  have "map (\<lambda>x. pbHeader_Name (the x)) (pbCommand_Headers p) = sort (map fst (cmd_Headers c))"
    unfolding Command_toProto_InrD(5) [OF assms(1)] by (simp add: comp_def)
  then show "sorted (map (\<lambda>x. pbHeader_Name (the x)) (pbCommand_Headers p))" by simp
qed

definition ex_command :: Command where
  "ex_command = empty_Command\<lparr>cmd_URI := ''sink://s'', cmd_Headers := [(''b'', [''1'']), (''a'', [''2'', ''3''])]\<rparr>"

lemma ex_command_ok: "\<exists>p. Command_toProto lib ex_command = Inr p"
proof -
  have "canonical \<lparr>Address_value = ''sink://s'', Address_store = ''s'', Address_segments = []\<rparr>"
    by (simp add: canonical_def render_def ValidStore_def in_range_def MaxAddressBytes_def)
  from canonical_Parse [OF this] show ?thesis
    by (intro Command_toProto_InrI) (auto simp: ex_command_def empty_Command_def check_content_type_def header_ok_def
        EqualFold_def)
qed

theorem Command_headers_order_witness:
  "\<forall>lib :: unit lib. \<exists>p. Command_toProto lib (ex_command\<lparr>cmd_Headers := [(''a'', [''2'', ''3'']), (''b'', [''1''])]\<rparr>) = Inr p
     \<and> sorted (map (\<lambda>x. pbHeader_Name (the x)) (pbCommand_Headers p))"
proof
  fix lib :: "unit lib"
  obtain p where p: "Command_toProto lib ex_command = Inr p" using ex_command_ok by blast
  have "distinct (map fst (cmd_Headers ex_command))"
    "mset [(''a'', [''2'', ''3'']), (''b'', [''1''])] = mset (cmd_Headers ex_command)"
    by (simp_all add: ex_command_def empty_Command_def add_mset_commute)
  from Command_headers_order [OF p this] show "\<exists>p. Command_toProto lib (ex_command\<lparr>cmd_Headers :=
      [(''a'', [''2'', ''3'']), (''b'', [''1''])]\<rparr>) = Inr p
     \<and> sorted (map (\<lambda>x. pbHeader_Name (the x)) (pbCommand_Headers p))" by blast
qed

text \<open>
  The headers of a native response hold, under the canonical spelling of a name, all the values the server sent for
  any spelling of it, in the order of the response, and nothing else.
\<close>

theorem response_headers_collect: "lookup_values (response_headers hs) k = values_for k hs"
  by (rule lookup_response_headers)

end
