(* ===== verification/Dataset.thy ===== *)
theory Dataset
  imports Client_Read Client_Write Native
begin

text \<open>
  \<^verbatim>\<open>dataset.go\<close> and \<^verbatim>\<open>dataset_native.go\<close>: a dataset binds a client to a resource URI, a document
  encoding and an optional merge program. The lemmas show that the operations a dataset builds always
  pass the client's validation, that no failure of an individual operation is lost in the returned
  error, and that a native command never leaves the dataset's resource.
\<close>

record 'v Record =
  rec_Key :: sink_Key
  rec_Value :: 'v
  rec_ReturnDocument :: bool

record DatasetOptions =
  dso_URI :: bytes
  dso_Encoding :: int32w
  dso_MergeProgram :: "LuaProgram option"

record 'k Dataset =
  ds_client :: "'k Client option"
  ds_uri :: bytes
  ds_encoding :: int32w
  ds_mergeProgram :: LuaProgram
  ds_hasMergeProgram :: bool

definition NewDataset :: "'k Client option \<Rightarrow> DatasetOptions \<Rightarrow> 'k Dataset result" where
  "NewDataset client opts =
     (if rpc_of client = None then Inl (ErrorString ''create dataset: client is required'')
      else case Parse (dso_URI opts) of
             Inl err \<Rightarrow> Inl (WrapError ''create dataset: '' err)
           | Inr _ \<Rightarrow>
               if dso_Encoding opts \<noteq> DocumentEncodingJSON \<and> dso_Encoding opts \<noteq> DocumentEncodingBSON
               then Inl (ErrorString ''create dataset: document encoding is required'')
               else (let dataset = \<lparr>ds_client = client, ds_uri = dso_URI opts, ds_encoding = dso_Encoding opts,
                                    ds_mergeProgram = empty_LuaProgram, ds_hasMergeProgram = False\<rparr>
                     in case dso_MergeProgram opts of
                          None \<Rightarrow> Inr dataset
                        | Some p \<Rightarrow>
                            (case LuaProgram_validate p of
                               Some err \<Rightarrow> Inl (WrapError ''create dataset: '' err)
                             | None \<Rightarrow>
                                 (case NewLuaProgram (lua_source p) of
                                    Inl err \<Rightarrow> Inl (WrapError ''create dataset: copy merge program: '' err)
                                  | Inr program \<Rightarrow>
                                      Inr (dataset\<lparr>ds_mergeProgram := program, ds_hasMergeProgram := True\<rparr>)))))"

definition Dataset_validate :: "'k Dataset option \<Rightarrow> bytes \<Rightarrow> go_error option" where
  "Dataset_validate d operation =
     (if (case d of None \<Rightarrow> True | Some ds \<Rightarrow> rpc_of (ds_client ds) = None)
      then Some (ErrorString (''dataset '' @ operation @ '': client is required'')) else None)"

definition encodeRecord :: "'v lib \<Rightarrow> 'k Dataset \<Rightarrow> 'v Record \<Rightarrow> (Address \<times> Document) result" where
  "encodeRecord lib d record =
     (case NewRecordAddress (ds_uri d) (rec_Key record) of
        Inl err \<Rightarrow> Inl err
      | Inr address \<Rightarrow>
          (case NewDocument lib (rec_Value record) (ds_encoding d) of
             Inl err \<Rightarrow> Inl err
           | Inr document \<Rightarrow> Inr (address, document)))"

section \<open>Errors of a batch\<close>

text \<open>The error a dataset operation returns for the client's error and its results' failures.\<close>

definition dataset_error :: "bytes \<Rightarrow> go_error option \<Rightarrow> go_error option \<Rightarrow> go_error option" where
  "dataset_error operation err resultsErr =
     (case err of
        Some e \<Rightarrow> Some (WrapError (''dataset '' @ operation @ '': '')
                     (case resultsErr of Some b \<Rightarrow> JoinError [e, b] | None \<Rightarrow> e))
      | None \<Rightarrow> (case resultsErr of
            Some b \<Rightarrow> Some (WrapError (''dataset '' @ operation @ '': '') b)
          | None \<Rightarrow> None))"

section \<open>Records\<close>

fun key_addresses :: "bytes \<Rightarrow> nat \<Rightarrow> sink_Key list \<Rightarrow> Address list result" where
  "key_addresses uri index [] = Inr []"
| "key_addresses uri index (key # keys) =
     (case NewRecordAddress uri key of
        Inl err \<Rightarrow> Inl (WrapError (''dataset read key '' @ itoa index @ '': '') err)
      | Inr address \<Rightarrow>
          (case key_addresses uri (Suc index) keys of
             Inl err \<Rightarrow> Inl err
           | Inr addresses \<Rightarrow> Inr (address # addresses)))"

definition Dataset_Read ::
  "'v lib \<Rightarrow> ('k, 'c, 's) env \<Rightarrow> 'k Dataset option \<Rightarrow> 'c \<Rightarrow> sink_Key list \<Rightarrow> 's world
     \<Rightarrow> ((ReadResult list \<times> go_error option) \<times> 's world) option" where
  "Dataset_Read lib env d ctx keys w =
     (case Dataset_validate d ''read'' of
        Some err \<Rightarrow> Some (([], Some err), w)
      | None \<Rightarrow>
          (case key_addresses (ds_uri (the d)) 0 keys of
             Inl err \<Rightarrow> Some (([], Some err), w)
           | Inr addresses \<Rightarrow>
               Option.bind (Read lib env (ds_client (the d)) ctx addresses w)
                 (\<lambda>((results, err), w'). Some ((results, dataset_error ''read'' err (ReadResultsError results)), w'))))"

definition Dataset_write ::
  "'v lib \<Rightarrow> ('k, 'c, 's) env \<Rightarrow> 'k Dataset \<Rightarrow> 'c \<Rightarrow> bytes \<Rightarrow> int32w \<Rightarrow> WriteOperation list \<Rightarrow> 's world
     \<Rightarrow> ((WriteResult list \<times> go_error option) \<times> 's world) option" where
  "Dataset_write lib env d ctx operation completionMode operations w =
     Option.bind (Write lib env (ds_client d) ctx completionMode operations w)
       (\<lambda>((results, err), w'). Some ((results, dataset_error operation err (WriteResultsError results)), w'))"

text \<open>The loops that turn records into operations; \<open>build\<close> is \<^verbatim>\<open>NewPut\<close> or \<^verbatim>\<open>NewMerge\<close>.\<close>

fun record_operations ::
  "'v lib \<Rightarrow> 'k Dataset \<Rightarrow> bytes \<Rightarrow> (Address \<Rightarrow> Document \<Rightarrow> WriteOperation result) \<Rightarrow> nat \<Rightarrow> 'v Record list
     \<Rightarrow> WriteOperation list result" where
  "record_operations lib d operation build index [] = Inr []"
| "record_operations lib d operation build index (record # records) =
     (let wrap = WrapError (''dataset '' @ operation @ '' record '' @ itoa index @ '': '')
      in case encodeRecord lib d record of
           Inl err \<Rightarrow> Inl (wrap err)
         | Inr (address, document) \<Rightarrow>
             (case build address document of
                Inl err \<Rightarrow> Inl (wrap err)
              | Inr op \<Rightarrow>
                  (case record_operations lib d operation build (Suc index) records of
                     Inl err \<Rightarrow> Inl err
                   | Inr ops \<Rightarrow> Inr (op\<lparr>wo_returnDocument := rec_ReturnDocument record\<rparr> # ops))))"

definition Dataset_put ::
  "'v lib \<Rightarrow> ('k, 'c, 's) env \<Rightarrow> 'k Dataset option \<Rightarrow> 'c \<Rightarrow> int32w \<Rightarrow> int32w \<Rightarrow> bytes \<Rightarrow> 'v Record list \<Rightarrow> 's world
     \<Rightarrow> ((WriteResult list \<times> go_error option) \<times> 's world) option" where
  "Dataset_put lib env d ctx completionMode writeMode operation records w =
     (case Dataset_validate d operation of
        Some err \<Rightarrow> Some (([], Some err), w)
      | None \<Rightarrow>
          (case record_operations lib (the d) operation (\<lambda>a doc. NewPut lib a doc writeMode) 0 records of
             Inl err \<Rightarrow> Some (([], Some err), w)
           | Inr operations \<Rightarrow> Dataset_write lib env (the d) ctx operation completionMode operations w))"

definition Dataset_Create where
  "Dataset_Create lib env d ctx completionMode records w =
     Dataset_put lib env d ctx completionMode WriteCreate ''create'' records w"

definition Dataset_Replace where
  "Dataset_Replace lib env d ctx completionMode records w =
     Dataset_put lib env d ctx completionMode WriteReplace ''replace'' records w"

definition Dataset_Upsert where
  "Dataset_Upsert lib env d ctx completionMode records w =
     Dataset_put lib env d ctx completionMode WriteUpsert ''upsert'' records w"

definition Dataset_Merge ::
  "'v lib \<Rightarrow> ('k, 'c, 's) env \<Rightarrow> 'k Dataset option \<Rightarrow> 'c \<Rightarrow> int32w \<Rightarrow> 'v Record list \<Rightarrow> 's world
     \<Rightarrow> ((WriteResult list \<times> go_error option) \<times> 's world) option" where
  "Dataset_Merge lib env d ctx completionMode records w =
     (case Dataset_validate d ''merge'' of
        Some err \<Rightarrow> Some (([], Some err), w)
      | None \<Rightarrow>
          if \<not> ds_hasMergeProgram (the d)
          then Some (([], Some (ErrorString ''dataset merge: merge program is not configured'')), w)
          else (case record_operations lib (the d) ''merge''
                       (\<lambda>a doc. NewMerge lib a \<lparr>mo_incoming = doc, mo_program = ds_mergeProgram (the d)\<rparr>) 0 records of
                  Inl err \<Rightarrow> Some (([], Some err), w)
                | Inr operations \<Rightarrow> Dataset_write lib env (the d) ctx ''merge'' completionMode operations w))"

section \<open>Native commands\<close>

definition bindNativeCommand :: "'k Dataset option \<Rightarrow> Command \<Rightarrow> Command result" where
  "bindNativeCommand d command =
     (case Dataset_validate d ''native command'' of
        Some err \<Rightarrow> Inl err
      | None \<Rightarrow>
          if cmd_URI command \<noteq> [] \<and> cmd_URI command \<noteq> ds_uri (the d)
          then Inl (ErrorString ''native command URI differs from Dataset resource'')
          else (let command = command\<lparr>cmd_URI := ds_uri (the d)\<rparr>
                in Inr (if cmd_ContentType command = [] \<and> length (cmd_Payload command) > 0
                        then (if ds_encoding (the d) = DocumentEncodingBSON
                              then command\<lparr>cmd_ContentType := ''application/bson''\<rparr>
                              else if ds_encoding (the d) = DocumentEncodingJSON
                              then command\<lparr>cmd_ContentType := ''application/json''\<rparr>
                              else command)
                        else command)))"

definition Dataset_Execute where
  "Dataset_Execute lib env d ctx command w =
     (case bindNativeCommand d command of
        Inl err \<Rightarrow> ((empty_ExecuteResponse, Some err), w)
      | Inr command' \<Rightarrow> Execute lib env (ds_client (the d)) ctx command' w)"

definition Dataset_Query where
  "Dataset_Query lib env d ctx req w =
     (case bindNativeCommand d (qr_Command req) of
        Inl err \<Rightarrow> ((empty_Page, Some err), w)
      | Inr command' \<Rightarrow> Query lib env (ds_client (the d)) ctx (req\<lparr>qr_Command := command'\<rparr>) w)"

definition Dataset_Count where
  "Dataset_Count lib env d ctx command w =
     (case bindNativeCommand d command of
        Inl err \<Rightarrow> ((empty_CountResponse, Some err), w)
      | Inr command' \<Rightarrow> Count lib env (ds_client (the d)) ctx command' w)"

definition Dataset_Scan where
  "Dataset_Scan lib env d ctx req w =
     (case bindNativeCommand d (sr_Command req) of
        Inl err \<Rightarrow> ((empty_ScanResponse, Some err), w)
      | Inr command' \<Rightarrow> Scan lib env (ds_client (the d)) ctx (req\<lparr>sr_Command := command'\<rparr>) w)"

text \<open>
  \<open>bson_D\<close> makes a Go value of an ordered BSON document, \<open>bson_string\<close> of a string: the
  \<^verbatim>\<open>mongo-driver\<close> types \<^verbatim>\<open>bson.D\<close> and \<^verbatim>\<open>bson.E\<close>.
\<close>

definition Dataset_NewBSONCommand ::
  "'v lib \<Rightarrow> ('v \<Rightarrow> go_type) \<Rightarrow> ((bytes \<times> 'v) list \<Rightarrow> 'v) \<Rightarrow> (bytes \<Rightarrow> 'v) \<Rightarrow> 'k Dataset option \<Rightarrow> bytes
     \<Rightarrow> (bytes \<times> 'v) list \<Rightarrow> Command result" where
  "Dataset_NewBSONCommand lib type_of bson_D bson_string d operation arguments =
     (case Dataset_validate d ''BSON command'' of
        Some err \<Rightarrow> Inl err
      | None \<Rightarrow>
          if TrimSpace operation = [] then Inl (ErrorString ''dataset BSON command requires an operation'')
          else NewBSONCommand lib type_of (ds_uri (the d))
                 (Some (bson_D ((operation, bson_string []) # arguments))))"

section \<open>No failure is lost\<close>

lemma dataset_error_None: "dataset_error op err re = None \<longleftrightarrow> err = None \<and> re = None"
  by (auto simp: dataset_error_def split: option.splits)

lemma dataset_error_tree:
  assumes "dataset_error op err re = Some e"
  shows "(\<forall>x. err = Some x \<longrightarrow> set (error_tree x) \<subseteq> set (error_tree e))
     \<and> (\<forall>x. re = Some x \<longrightarrow> set (error_tree x) \<subseteq> set (error_tree e))"
  using assms by (auto simp: dataset_error_def split: option.splits)

lemma WriteResultsError_tree:
  assumes "r \<in> set results" and "wr_Failure r = Some f"
  shows "\<exists>e. WriteResultsError results = Some e \<and> OperationErr f \<in> set (error_tree e)"
proof -
  have "f \<in> set (collect_failures wr_Failure results)"
    using assms by (auto simp: set_collect_failures)
  then show ?thesis
    by (auto simp: WriteResultsError_def newBatchError_def BatchError_Unwrap_def)
qed

lemma ReadResultsError_tree:
  assumes "r \<in> set results" and "rr_Failure r = Some f"
  shows "\<exists>e. ReadResultsError results = Some e \<and> OperationErr f \<in> set (error_tree e)"
proof -
  have "f \<in> set (collect_failures rr_Failure results)"
    using assms by (auto simp: set_collect_failures)
  then show ?thesis
    by (auto simp: ReadResultsError_def newBatchError_def BatchError_Unwrap_def)
qed

section \<open>The operations a dataset builds are valid\<close>

lemma encodeRecord_Inr:
  "encodeRecord lib d r = Inr (a, doc) \<longleftrightarrow>
     NewRecordAddress (ds_uri d) (rec_Key r) = Inr a \<and> NewDocument lib (rec_Value r) (ds_encoding d) = Inr doc"
  by (auto simp: encodeRecord_def split: sum.splits)

lemma record_operations_Inr:
  assumes "record_operations lib d operation build index records = Inr ops"
  shows "list_all2 (\<lambda>r op. \<exists>a doc op0. encodeRecord lib d r = Inr (a, doc) \<and> build a doc = Inr op0
    \<and> op = op0\<lparr>wo_returnDocument := rec_ReturnDocument r\<rparr>) records ops"
  using assms
proof (induction records arbitrary: index ops)
  case Nil
  then show ?case by simp
next
  case (Cons r records)
  then show ?case
    by (auto simp: Let_def list_all2_Cons1 split: sum.splits prod.splits)
qed

lemma put_operations_valid:
  assumes "record_operations lib d operation (\<lambda>a doc. NewPut lib a doc mode) 0 records = Inr ops"
  shows "\<forall>op\<in>set ops. WriteOperation_validate lib op = None"
  using record_operations_Inr [OF assms]
  by (induction rule: list_all2_induct) (auto simp: NewPut_valid)

lemma merge_operations_valid:
  assumes "record_operations lib d operation (\<lambda>a doc. NewMerge lib a \<lparr>mo_incoming = doc, mo_program = p\<rparr>) 0 records
     = Inr ops"
  shows "\<forall>op\<in>set ops. WriteOperation_validate lib op = None"
  using record_operations_Inr [OF assms]
  by (induction rule: list_all2_induct) (auto simp: NewMerge_valid)

lemma NewDataset_InrD:
  assumes "NewDataset client opts = Inr d"
  shows "rpc_of (ds_client d) \<noteq> None" and "\<exists>a. Parse (ds_uri d) = Inr a" and "ds_uri d = dso_URI opts"
    and "ds_encoding d = DocumentEncodingJSON \<or> ds_encoding d = DocumentEncodingBSON"
    and "ds_hasMergeProgram d = (dso_MergeProgram opts \<noteq> None)"
    and "ds_hasMergeProgram d \<longrightarrow> LuaProgram_validate (ds_mergeProgram d) = None"
    and "\<forall>p. dso_MergeProgram opts = Some p \<longrightarrow> ds_mergeProgram d = p"
  using assms
  by (auto simp: NewDataset_def Let_def NewLuaProgram_def LuaProgram_validate_def
      split: if_splits sum.splits option.splits)

lemma bindNativeCommand_Inr:
  assumes "bindNativeCommand d c = Inr c'"
  shows "cmd_URI c' = ds_uri (the d)" and "cmd_Payload c' = cmd_Payload c" and "cmd_Headers c' = cmd_Headers c"
    and "cmd_ContentType c \<noteq> [] \<longrightarrow> cmd_ContentType c' = cmd_ContentType c"
    and "rpc_of (ds_client (the d)) \<noteq> None"
  using assms
  by (auto simp: bindNativeCommand_def Dataset_validate_def Let_def split: if_splits option.splits)

section \<open>What a dataset sends\<close>

text \<open>How an operation corresponds to a record, for the put methods and for \<^verbatim>\<open>Merge\<close>.\<close>

definition record_put :: "'v lib \<Rightarrow> 'k Dataset \<Rightarrow> int32w \<Rightarrow> 'v Record \<Rightarrow> WriteOperation \<Rightarrow> bool" where
  "record_put lib d wmode r op \<longleftrightarrow> NewRecordAddress (ds_uri d) (rec_Key r) = Inr (wo_address op)
     \<and> NewDocument lib (rec_Value r) (ds_encoding d) = Inr (wo_put op) \<and> wo_mode op = wmode
     \<and> wo_action op = writeActionPut \<and> wo_returnDocument op = rec_ReturnDocument r
     \<and> WriteOperation_validate lib op = None"

definition record_merge :: "'v lib \<Rightarrow> 'k Dataset \<Rightarrow> 'v Record \<Rightarrow> WriteOperation \<Rightarrow> bool" where
  "record_merge lib d r op \<longleftrightarrow> NewRecordAddress (ds_uri d) (rec_Key r) = Inr (wo_address op)
     \<and> NewDocument lib (rec_Value r) (ds_encoding d) = Inr (mo_incoming (wo_merge op))
     \<and> mo_program (wo_merge op) = ds_mergeProgram d
     \<and> wo_action op = writeActionMerge \<and> wo_returnDocument op = rec_ReturnDocument r
     \<and> WriteOperation_validate lib op = None"

definition sent_batches :: "int32w \<Rightarrow> nat \<Rightarrow> WriteOperation list \<Rightarrow> nat \<Rightarrow> 's world \<Rightarrow> 's world \<Rightarrow> bool" where
  "sent_batches mode m ops k w w' \<longleftrightarrow> k \<le> length (chunks m ops)
     \<and> w_trace w' = w_trace w @ map (\<lambda>b. EvWrite (write_request mode b)) (take k (chunks m ops))"

lemma NewPut_fields:
  "NewPut lib a doc mode = Inr op \<Longrightarrow> wo_address op = a \<and> wo_put op = doc \<and> wo_mode op = mode \<and> wo_action op = writeActionPut"
  by (auto simp: NewPut_def Let_def split: option.splits if_splits)

lemma NewMerge_fields:
  "NewMerge lib a opts = Inr op \<Longrightarrow> wo_address op = a \<and> wo_merge op = opts \<and> wo_action op = writeActionMerge"
  by (auto simp: NewMerge_def Let_def split: option.splits if_splits)

lemma put_operations_records:
  assumes "record_operations lib d operation (\<lambda>a doc. NewPut lib a doc wmode) 0 records = Inr ops"
  shows "list_all2 (record_put lib d wmode) records ops"
  using record_operations_Inr [OF assms]
  by (rule list_all2_mono) (auto simp: record_put_def encodeRecord_Inr NewPut_valid dest: NewPut_fields)

lemma merge_operations_records:
  assumes "record_operations lib d operation
      (\<lambda>a doc. NewMerge lib a \<lparr>mo_incoming = doc, mo_program = ds_mergeProgram d\<rparr>) 0 records = Inr ops"
  shows "list_all2 (record_merge lib d) records ops"
  using record_operations_Inr [OF assms]
  by (rule list_all2_mono) (auto simp: record_merge_def encodeRecord_Inr NewMerge_valid dest: NewMerge_fields)

lemma Dataset_write_sent:
  assumes "client_ok c" and "ds_client d = Some c"
    and "Dataset_write lib env d ctx operation mode ops w = Some ((rs, err), w')"
  defines "m \<equiv> nat (cc_maxOperations (cl_config c))"
  shows "\<exists>k. sent_batches mode m ops k w w' \<and> (err = None \<longrightarrow> k = length (chunks m ops) \<and> length rs = length ops)"
proof -
  obtain err0 where run: "Write lib env (Some c) ctx mode ops w = Some ((rs, err0), w')"
    and e: "err = None \<longrightarrow> err0 = None"
    using assms(2,3) by (auto simp: Dataset_write_def bind_eq_Some_conv dataset_error_None)
  from Write_sent [OF assms(1) run] obtain k where "sent_batches mode m ops k w w'"
    "err0 = None \<longrightarrow> k = length (chunks m ops) \<and> length rs = length ops"
    by (auto simp: sent_batches_def m_def)
  then show ?thesis using e by (intro exI [of _ k]) simp
qed

lemma Dataset_put_writes:
  assumes "client_ok c" and "ds_client d = Some c"
    and "Dataset_put lib env (Some d) ctx mode wmode operation records w = Some ((rs, err), w')"
  defines "m \<equiv> nat (cc_maxOperations (cl_config c))"
  shows "w' = w \<and> rs = [] \<and> err \<noteq> None
    \<or> (\<exists>ops k. list_all2 (record_put lib d wmode) records ops \<and> sent_batches mode m ops k w w'
          \<and> (err = None \<longrightarrow> k = length (chunks m ops) \<and> length rs = length records))"
proof (cases "record_operations lib d operation (\<lambda>a doc. NewPut lib a doc wmode) 0 records")
  case (Inl e)
  then show ?thesis using assms(3) by (auto simp: Dataset_put_def split: option.splits)
next
  case (Inr ops)
  note ops = put_operations_records [OF Inr]
  consider "w' = w" "rs = []" "err \<noteq> None"
    | "Dataset_write lib env d ctx operation mode ops w = Some ((rs, err), w')"
    using assms(3) Inr by (cases "Dataset_validate (Some d) operation") (auto simp: Dataset_put_def dest!: sym [of "Some _"])
  then show ?thesis
  proof cases
    case 2
    from Dataset_write_sent [OF assms(1,2) this] ops list_all2_lengthD [OF ops] show ?thesis
      unfolding m_def by (intro disjI2 exI [of _ ops]) auto
  qed simp
qed

lemma Dataset_Merge_writes:
  assumes "client_ok c" and "ds_client d = Some c"
    and "Dataset_Merge lib env (Some d) ctx mode records w = Some ((rs, err), w')"
  defines "m \<equiv> nat (cc_maxOperations (cl_config c))"
  shows "w' = w \<and> rs = [] \<and> err \<noteq> None
    \<or> (\<exists>ops k. list_all2 (record_merge lib d) records ops \<and> sent_batches mode m ops k w w'
          \<and> (err = None \<longrightarrow> k = length (chunks m ops) \<and> length rs = length records))"
proof (cases "record_operations lib d ''merge''
    (\<lambda>a doc. NewMerge lib a \<lparr>mo_incoming = doc, mo_program = ds_mergeProgram d\<rparr>) 0 records")
  case (Inl e)
  then show ?thesis using assms(3) by (auto simp: Dataset_Merge_def split: option.splits if_splits)
next
  case (Inr ops)
  note ops = merge_operations_records [OF Inr]
  consider "w' = w" "rs = []" "err \<noteq> None"
    | "Dataset_write lib env d ctx ''merge'' mode ops w = Some ((rs, err), w')"
    using assms(3) Inr by (cases "Dataset_validate (Some d) ''merge''") (auto simp: Dataset_Merge_def dest!: sym [of "Some _"] split: if_splits)
  then show ?thesis
  proof cases
    case 2
    from Dataset_write_sent [OF assms(1,2) this] ops list_all2_lengthD [OF ops] show ?thesis
      unfolding m_def by (intro disjI2 exI [of _ ops]) auto
  qed simp
qed

lemma Dataset_write_reported:
  assumes "Dataset_write lib env d ctx operation mode ops w = Some ((rs, err), w')"
    and "r \<in> set rs" and "wr_Failure r = Some f"
  shows "\<exists>e. err = Some e \<and> OperationErr f \<in> set (error_tree e)"
proof -
  obtain err0 where err: "err = dataset_error operation err0 (WriteResultsError rs)"
    using assms(1) by (auto simp: Dataset_write_def bind_eq_Some_conv)
  obtain b where b: "WriteResultsError rs = Some b" "OperationErr f \<in> set (error_tree b)"
    using WriteResultsError_tree [OF assms(2,3)] by blast
  then obtain e where "err = Some e" using err dataset_error_None [of operation err0 "Some b"] by (cases err) auto
  then show ?thesis using dataset_error_tree [of operation err0 "Some b" e] b err by auto
qed

lemma Dataset_Read_reported:
  assumes "Dataset_Read lib env d ctx keys w = Some ((rs, err), w')"
    and "r \<in> set rs" and "rr_Failure r = Some f"
  shows "\<exists>e. err = Some e \<and> OperationErr f \<in> set (error_tree e)"
proof -
  obtain err0 where err: "err = dataset_error ''read'' err0 (ReadResultsError rs)"
    using assms(1,2) by (auto simp: Dataset_Read_def bind_eq_Some_conv split: option.splits sum.splits)
  obtain b where b: "ReadResultsError rs = Some b" "OperationErr f \<in> set (error_tree b)"
    using ReadResultsError_tree [OF assms(2,3)] by blast
  then obtain e where "err = Some e" using err dataset_error_None [of "''read''" err0 "Some b"] by (cases err) auto
  then show ?thesis using dataset_error_tree [of "''read''" err0 "Some b" e] b err by auto
qed

lemma Dataset_put_reported:
  assumes "Dataset_put lib env d ctx mode wmode operation records w = Some ((rs, err), w')"
    and "r \<in> set rs" and "wr_Failure r = Some f"
  shows "\<exists>e. err = Some e \<and> OperationErr f \<in> set (error_tree e)"
  using assms Dataset_write_reported
  by (fastforce simp: Dataset_put_def split: option.splits sum.splits)

lemma Dataset_Merge_reported:
  assumes "Dataset_Merge lib env d ctx mode records w = Some ((rs, err), w')"
    and "r \<in> set rs" and "wr_Failure r = Some f"
  shows "\<exists>e. err = Some e \<and> OperationErr f \<in> set (error_tree e)"
  using assms Dataset_write_reported
  by (fastforce simp: Dataset_Merge_def split: option.splits sum.splits if_splits)

section \<open>Native operations stay in the resource\<close>

definition event_uri :: "event \<Rightarrow> bytes option" where
  "event_uri ev = (case ev of
      EvExecute r \<Rightarrow> map_option pbCommand_Uri (pbExecuteRequest_Command r)
    | EvQuery r \<Rightarrow> map_option pbCommand_Uri (pbQueryRequest_Command r)
    | EvCount r \<Rightarrow> map_option pbCommand_Uri (pbCountRequest_Command r)
    | EvScan r \<Rightarrow> map_option pbCommand_Uri (pbScanRequest_Command r)
    | _ \<Rightarrow> None)"

definition stays :: "bytes \<Rightarrow> 's world \<Rightarrow> 's world \<Rightarrow> bool" where
  "stays u w w' \<longleftrightarrow> (\<exists>evs. w_trace w' = w_trace w @ evs
     \<and> (\<forall>ev\<in>set evs. (\<exists>t. ev = EvSleep t) \<or> event_uri ev = Some u))"

lemma stays_refl [simp]: "stays u w w"
  by (simp add: stays_def)

lemma Command_toProto_uri: "Command_toProto lib c = Inr p \<Longrightarrow> pbCommand_Uri p = cmd_URI c"
  by (drule Command_toProto_InrD(5)) simp

lemma Dataset_Execute_uri: "stays (ds_uri d) w (snd (Dataset_Execute lib env (Some d) ctx cmd w))"
  by (auto simp: Dataset_Execute_def stays_def Execute_sent event_uri_def dest!: Command_toProto_uri [OF sym] bindNativeCommand_Inr(1)
      split: sum.splits option.splits)

lemma Dataset_Count_uri: "stays (ds_uri d) w (snd (Dataset_Count lib env (Some d) ctx cmd w))"
  by (auto simp: Dataset_Count_def stays_def Count_sent event_uri_def dest!: Command_toProto_uri [OF sym] bindNativeCommand_Inr(1)
      split: sum.splits option.splits)

lemma Dataset_Query_uri: "stays (ds_uri d) w (snd (Dataset_Query lib env (Some d) ctx req w))"
  by (auto simp: Dataset_Query_def stays_def Query_sent event_uri_def
      dest!: query_request_command [OF sym] Command_toProto_uri bindNativeCommand_Inr(1) split: sum.splits option.splits)

lemma scan_trace_uri:
  assumes "scan_trace n request evs" and "event_uri (EvScan request) = Some u"
  shows "\<forall>ev\<in>set evs. (\<exists>t. ev = EvSleep t) \<or> event_uri ev = Some u"
  using assms by (induction rule: scan_trace.induct) auto

lemma Dataset_Scan_uri:
  assumes "client_ok c" and "ds_client d = Some c"
  shows "stays (ds_uri d) w (snd (Dataset_Scan lib env (Some d) ctx req w))"
proof (cases "bindNativeCommand (Some d) (sr_Command req)")
  case (Inl e)
  then show ?thesis by (simp add: Dataset_Scan_def)
next
  case (Inr cmd)
  let ?req = "req\<lparr>sr_Command := cmd\<rparr>"
  obtain page err w' where run: "Scan lib env (Some c) ctx ?req w = ((page, err), w')"
    by (metis prod.collapse)
  have "stays (ds_uri d) w w'"
    using run
  proof (cases rule: Scan_unfold)
    case rejected
    then show ?thesis by simp
  next
    case (sent rpc request r)
    have "1 \<le> rp_MaxAttempts (cc_scanRetry (cl_config c)) + 1" using client_ok_attempts(2) [OF assms(1)] by simp
    from scanAttempts_trace [OF sent(3) this] obtain evs n
      where evs: "w_trace w' = w_trace w @ evs" "scan_trace n request evs" by auto
    have "event_uri (EvScan request) = Some (ds_uri d)"
      using scan_request_command [OF sent(2)] bindNativeCommand_Inr(1) [OF Inr]
      by (auto simp: event_uri_def dest!: Command_toProto_uri)
    then show ?thesis using evs scan_trace_uri unfolding stays_def by blast
  qed
  then show ?thesis using Inr run assms(2) by (simp add: Dataset_Scan_def)
qed

end
