(* ===== verification/Vt_Wire.thy ===== *)
theory Vt_Wire
  imports Proto_Messages Sink_Errors
begin

text \<open>
  What the generated methods of \<^verbatim>\<open>api/sink/v1/sink_vtproto.pb.go\<close> share: the shapes of field they write, measure
  and read, which are the same code for every message. \<^verbatim>\<open>MarshalToSizedBufferVT\<close> fills a buffer
  from its end, field by field in descending order; the model keeps the part \<^verbatim>\<open>dAtA[i:]\<close> that is already
  filled, so that writing is adding in front. \<^verbatim>\<open>UnmarshalVT\<close> reads a field at a time with an index into the
  data. The functions of \<^verbatim>\<open>protohelpers\<close> are parameters.
\<close>

unbundle bit_operations_syntax

section \<open>The helpers of the vtprotobuf package\<close>

text \<open>
  \<open>EncodeVarint\<close>: the bytes written before the given offset; \<open>Skip\<close>: the number of bytes of
  the field at the start of the data.
\<close>

record protohelpers =
  ph_EncodeVarint :: "uint64w \<Rightarrow> bytes"
  ph_SizeOfVarint :: "uint64w \<Rightarrow> nat"
  ph_Skip :: "bytes \<Rightarrow> int result"

text \<open>Base 128 varints as the encoding of protocol buffers defines them: low groups of seven bits first.\<close>

fun varint_nat :: "nat \<Rightarrow> bytes" where
  "varint_nat n = (if n < 128 then [chr n] else chr (n mod 128 + 128) # varint_nat (n div 128))"

declare varint_nat.simps [simp del]

definition varint :: "uint64w \<Rightarrow> bytes" where
  "varint v = varint_nat (unat v)"

definition helpers_ok :: "protohelpers \<Rightarrow> bool" where
  "helpers_ok h \<longleftrightarrow> (\<forall>v. ph_EncodeVarint h v = varint v \<and> ph_SizeOfVarint h v = length (varint v))"

lemma helpers_okD:
  "helpers_ok h \<Longrightarrow> ph_EncodeVarint h v = varint v"
  "helpers_ok h \<Longrightarrow> ph_SizeOfVarint h v = length (varint v)"
  by (simp_all add: helpers_ok_def)

section \<open>Writing fields\<close>

definition put_varint :: "protohelpers \<Rightarrow> nat \<Rightarrow> uint64w \<Rightarrow> bytes \<Rightarrow> bytes" where
  "put_varint h tag v acc = (if v \<noteq> 0 then chr tag # ph_EncodeVarint h v @ acc else acc)"

definition put_bool :: "nat \<Rightarrow> bool \<Rightarrow> bytes \<Rightarrow> bytes" where
  "put_bool tag b acc = (if b then chr tag # chr 1 # acc else acc)"

text \<open>A length, the data and the tag before them.\<close>

definition put_delimited :: "protohelpers \<Rightarrow> nat \<Rightarrow> bytes \<Rightarrow> bytes \<Rightarrow> bytes" where
  "put_delimited h tag b acc = chr tag # ph_EncodeVarint h (of_nat (length b)) @ b @ acc"

definition put_bytes :: "protohelpers \<Rightarrow> nat \<Rightarrow> bytes \<Rightarrow> bytes \<Rightarrow> bytes" where
  "put_bytes h tag b acc = (if length b > 0 then put_delimited h tag b acc else acc)"

definition put_strings :: "protohelpers \<Rightarrow> nat \<Rightarrow> bytes list \<Rightarrow> bytes \<Rightarrow> bytes" where
  "put_strings h tag ss acc = foldr (put_delimited h tag) ss acc"

text \<open>A pointer to a message, and a repeated message field; \<open>marshal\<close> is the element's method.\<close>

definition put_message :: "protohelpers \<Rightarrow> nat \<Rightarrow> ('m option \<Rightarrow> bytes) \<Rightarrow> 'm option \<Rightarrow> bytes \<Rightarrow> bytes" where
  "put_message h tag marshal m acc = (if m \<noteq> None then put_delimited h tag (marshal m) acc else acc)"

definition put_messages :: "protohelpers \<Rightarrow> nat \<Rightarrow> ('m option \<Rightarrow> bytes) \<Rightarrow> 'm option list \<Rightarrow> bytes \<Rightarrow> bytes" where
  "put_messages h tag marshal ms acc = foldr (\<lambda>m. put_delimited h tag (marshal m)) ms acc"

text \<open>The same loop when the elements' marshaller can panic: \<^const>\<open>None\<close> is a panic.\<close>

definition put_partial_messages ::
  "protohelpers \<Rightarrow> nat \<Rightarrow> ('m option \<Rightarrow> bytes option) \<Rightarrow> 'm option list \<Rightarrow> bytes \<Rightarrow> bytes option" where
  "put_partial_messages h tag marshal ms acc =
     foldr (\<lambda>m out. case out of
         None \<Rightarrow> None
       | Some acc \<Rightarrow> map_option (\<lambda>b. put_delimited h tag b acc) (marshal m)) ms (Some acc)"

section \<open>Measuring fields\<close>

definition size_varint :: "protohelpers \<Rightarrow> uint64w \<Rightarrow> nat" where
  "size_varint h v = (if v \<noteq> 0 then 1 + ph_SizeOfVarint h v else 0)"

definition size_bool :: "bool \<Rightarrow> nat" where
  "size_bool b = (if b then 2 else 0)"

definition size_delimited :: "protohelpers \<Rightarrow> nat \<Rightarrow> nat" where
  "size_delimited h l = 1 + l + ph_SizeOfVarint h (of_nat l)"

definition size_bytes :: "protohelpers \<Rightarrow> bytes \<Rightarrow> nat" where
  "size_bytes h b = (if length b > 0 then size_delimited h (length b) else 0)"

definition size_strings :: "protohelpers \<Rightarrow> bytes list \<Rightarrow> nat" where
  "size_strings h ss = sum_list (map (\<lambda>s. size_delimited h (length s)) ss)"

definition size_message :: "protohelpers \<Rightarrow> ('m option \<Rightarrow> nat) \<Rightarrow> 'm option \<Rightarrow> nat" where
  "size_message h sz m = (if m \<noteq> None then size_delimited h (sz m) else 0)"

definition size_messages :: "protohelpers \<Rightarrow> ('m option \<Rightarrow> nat) \<Rightarrow> 'm option list \<Rightarrow> nat" where
  "size_messages h sz ms = sum_list (map (\<lambda>m. size_delimited h (sz m)) ms)"

section \<open>Reading fields\<close>

definition ErrIntOverflow :: go_error where "ErrIntOverflow = LibError ''protohelpers.ErrIntOverflow''"
definition ErrInvalidLength :: go_error where "ErrInvalidLength = LibError ''protohelpers.ErrInvalidLength''"
definition ErrUnexpectedEOF :: go_error where "ErrUnexpectedEOF = LibError ''unexpected EOF''"

text \<open>
  The loop that reads a varint into a variable of the width of \<^typ>\<open>'a word\<close>; bits shifted out
  of the variable are lost, as in Go.
\<close>

function varint_loop :: "bytes \<Rightarrow> nat \<Rightarrow> nat \<Rightarrow> 'a::len word \<Rightarrow> ('a word \<times> nat) result" where
  "varint_loop dAtA iNdEx shift acc =
     (if shift \<ge> 64 then Inl ErrIntOverflow
      else if iNdEx \<ge> length dAtA then Inl ErrUnexpectedEOF
      else (let b = of_char (dAtA ! iNdEx) :: nat;
                acc = acc OR push_bit shift (of_nat (b AND 0x7F))
            in if b < 0x80 then Inr (acc, Suc iNdEx) else varint_loop dAtA (Suc iNdEx) (shift + 7) acc))"
  by pat_completeness auto
termination
  by (relation "measure (\<lambda>(dAtA, iNdEx, shift, acc). 64 - shift)") auto

declare varint_loop.simps [simp del]

text \<open>
  The length of a delimited field: the index after it and the index after the data. The sum is
  that of two 64-bit integers.
\<close>

definition read_length :: "bytes \<Rightarrow> nat \<Rightarrow> (nat \<times> nat) result" where
  "read_length dAtA iNdEx =
     (case varint_loop dAtA iNdEx 0 (0 :: 64 word) of
        Inl err \<Rightarrow> Inl err
      | Inr (len, i) \<Rightarrow>
          if sint len < 0 then Inl ErrInvalidLength
          else (let postIndex = sint (of_nat i + len)
                in if postIndex < 0 then Inl ErrInvalidLength
                   else if postIndex > int (length dAtA) then Inl ErrUnexpectedEOF
                   else Inr (i, nat postIndex)))"

definition wrong_type :: "nat \<Rightarrow> bytes \<Rightarrow> go_error" where
  "wrong_type wireType name =
     ErrorString (''proto: wrong wireType = '' @ itoa wireType @ '' for field '' @ name)"

text \<open>
  A case of the field switch: the message with the field set and the next index, or an error; \<^const>\<open>None\<close>
  is a nested call that does not return. \<open>Default\<close> is the default case.
\<close>

datatype 'm field_case = Default | Case "('m \<times> nat) result option"

definition get_varint :: "bytes \<Rightarrow> nat \<Rightarrow> bytes \<Rightarrow> nat \<Rightarrow> ('a::len word \<Rightarrow> 'm) \<Rightarrow> 'm field_case" where
  "get_varint name wireType dAtA iNdEx upd = Case (Some
     (if wireType \<noteq> 0 then Inl (wrong_type wireType name)
      else (case varint_loop dAtA iNdEx 0 0 of Inl err \<Rightarrow> Inl err | Inr (v, i) \<Rightarrow> Inr (upd v, i))))"

definition get_bool :: "bytes \<Rightarrow> nat \<Rightarrow> bytes \<Rightarrow> nat \<Rightarrow> (bool \<Rightarrow> 'm) \<Rightarrow> 'm field_case" where
  "get_bool name wireType dAtA iNdEx upd = get_varint name wireType dAtA iNdEx (\<lambda>v :: 64 word. upd (v \<noteq> 0))"

definition get_bytes :: "bytes \<Rightarrow> nat \<Rightarrow> bytes \<Rightarrow> nat \<Rightarrow> (bytes \<Rightarrow> 'm) \<Rightarrow> 'm field_case" where
  "get_bytes name wireType dAtA iNdEx upd = Case (Some
     (if wireType \<noteq> 2 then Inl (wrong_type wireType name)
      else (case read_length dAtA iNdEx of
              Inl err \<Rightarrow> Inl err
            | Inr (i, postIndex) \<Rightarrow> Inr (upd (take (postIndex - i) (drop i dAtA)), postIndex))))"

text \<open>\<open>unmarshal\<close> is the method of the nested message, applied to the message it is called on.\<close>

definition get_message ::
  "bytes \<Rightarrow> nat \<Rightarrow> bytes \<Rightarrow> nat \<Rightarrow> (bytes \<Rightarrow> 'x result option) \<Rightarrow> ('x \<Rightarrow> 'm) \<Rightarrow> 'm field_case" where
  "get_message name wireType dAtA iNdEx unmarshal upd = Case
     (if wireType \<noteq> 2 then Some (Inl (wrong_type wireType name))
      else (case read_length dAtA iNdEx of
              Inl err \<Rightarrow> Some (Inl err)
            | Inr (i, postIndex) \<Rightarrow>
                Option.bind (unmarshal (take (postIndex - i) (drop i dAtA)))
                  (\<lambda>r. case r of Inl err \<Rightarrow> Some (Inl err) | Inr x \<Rightarrow> Some (Inr (upd x, postIndex)))))"

section \<open>The loop over the fields\<close>

partial_function (option) unmarshal_loop ::
  "protohelpers \<Rightarrow> bytes \<Rightarrow> (int \<Rightarrow> nat \<Rightarrow> bytes \<Rightarrow> nat \<Rightarrow> 'm \<Rightarrow> 'm field_case) \<Rightarrow> (bytes \<Rightarrow> 'm \<Rightarrow> 'm)
     \<Rightarrow> bytes \<Rightarrow> nat \<Rightarrow> 'm \<Rightarrow> 'm result option" where
  "unmarshal_loop h name switch unknown dAtA iNdEx m =
     (if iNdEx < length dAtA then
        (case varint_loop dAtA iNdEx 0 (0 :: 64 word) of
           Inl err \<Rightarrow> Some (Inl err)
         | Inr (wire, i) \<Rightarrow>
             (let fieldNum = sint (ucast (drop_bit 3 wire) :: 32 word); wireType = unat (wire AND 7)
              in if wireType = 4
                 then Some (Inl (ErrorString (''proto: '' @ name @ '': wiretype end group for non-group'')))
                 else if fieldNum \<le> 0
                 then Some (Inl (ErrorString (''proto: '' @ name @ '': illegal tag '' @ FormatInt fieldNum
                        @ '' (wire type '' @ itoa (unat wire) @ '')'')))
                 else (case switch fieldNum wireType dAtA i m of
                         Case r \<Rightarrow>
                           Option.bind r (\<lambda>x. case x of
                              Inl err \<Rightarrow> Some (Inl err)
                            | Inr (m', i') \<Rightarrow> unmarshal_loop h name switch unknown dAtA i' m')
                       | Default \<Rightarrow>
                           (case ph_Skip h (drop iNdEx dAtA) of
                              Inl err \<Rightarrow> Some (Inl err)
                            | Inr skippy \<Rightarrow>
                                if skippy < 0 \<or> int iNdEx + skippy \<ge> 2 ^ 63 then Some (Inl ErrInvalidLength)
                                else if int iNdEx + skippy > int (length dAtA) then Some (Inl ErrUnexpectedEOF)
                                else unmarshal_loop h name switch unknown dAtA (iNdEx + nat skippy)
                                       (unknown (take (nat skippy) (drop iNdEx dAtA)) m)))))
      else if iNdEx > length dAtA then Some (Inl ErrUnexpectedEOF)
      else Some (Inr m))"

declare unmarshal_loop.simps [code]

section \<open>Data at an index\<close>

definition placed :: "bytes \<Rightarrow> nat \<Rightarrow> bytes \<Rightarrow> bool" where
  "placed d i bs \<longleftrightarrow> i + length bs \<le> length d \<and> take (length bs) (drop i d) = bs"

lemma placed_Nil [simp]: "placed d i [] \<longleftrightarrow> i \<le> length d"
  by (simp add: placed_def)

lemma placed_Cons [simp]: "placed d i (c # bs) \<longleftrightarrow> i < length d \<and> d ! i = c \<and> placed d (Suc i) bs"
  by (cases "i < length d") (auto simp: placed_def simp flip: Cons_nth_drop_Suc)

lemma placed_le: "placed d i bs \<Longrightarrow> i \<le> length d"
  by (simp add: placed_def)

lemma placed_append [simp]: "placed d i (xs @ ys) \<longleftrightarrow> placed d i xs \<and> placed d (i + length xs) ys"
  by (induction xs arbitrary: i) (auto dest: placed_le)

lemma placed_self [simp]: "placed d 0 d"
  by (simp add: placed_def)

lemma placed_take: "placed d i bs \<Longrightarrow> take (length bs) (drop i d) = bs"
  by (simp add: placed_def)

section \<open>Varints are read back\<close>

lemma of_nat_seven_bits:
  "of_nat (n mod 128) OR push_bit 7 (of_nat (n div 128)) = (of_nat n :: 'a::len word)"
proof -
  have "take_bit 7 n OR push_bit 7 (drop_bit 7 n) = n"
  proof (rule bit_eqI)
    fix k
    show "bit (take_bit 7 n OR push_bit 7 (drop_bit 7 n)) k = bit n k"
      by (cases "k < 7") (auto simp: bit_simps)
  qed
  then have "n mod 128 OR push_bit 7 (n div 128) = n"
    by (simp add: take_bit_eq_mod drop_bit_eq_div)
  then have "(of_nat n :: 'a word) = of_nat (n mod 128 OR push_bit 7 (n div 128))" by (rule arg_cong [OF sym])
  also have "\<dots> = of_nat (n mod 128) OR push_bit 7 (of_nat (n div 128))"
    by (simp only: of_nat_or_eq push_bit_of_nat)
  finally show ?thesis by (rule sym)
qed

lemma and_low_bits: "n AND 0x7F = n mod 128" "n AND 7 = n mod 8" for n :: nat
proof -
  have "n AND mask k = n mod 2 ^ k" for k unfolding take_bit_eq_mask [symmetric] by (rule take_bit_eq_mod)
  from this [of 7] this [of 3] show "n AND 0x7F = n mod 128" "n AND 7 = n mod 8"
    by (simp_all add: mask_eq_exp_minus_1)
qed

lemma varint_loop_nat:
  assumes "placed d i (varint_nat n)" and "shift < 64" and "n < 2 ^ (64 - shift)"
  shows "varint_loop d i shift acc = Inr (acc OR push_bit shift (of_nat n), i + length (varint_nat n))"
  using assms
proof (induction n arbitrary: i shift acc rule: varint_nat.induct)
  case (1 n)
  show ?case
  proof (cases "n < 128")
    case True
    then have "varint_nat n = [chr n]" by (simp add: varint_nat.simps)
    then show ?thesis using "1.prems" True
      by (simp add: varint_loop.simps [of d i shift] and_low_bits Let_def)
  next
    case False
    have v: "varint_nat n = chr (n mod 128 + 128) # varint_nat (n div 128)"
      using False by (simp add: varint_nat.simps [of n])
    have "(2 :: nat) ^ 7 < 2 ^ (64 - shift)" using False "1.prems"(3) by simp
    then have "7 < 64 - shift" by (rule power_less_imp_less_exp [rotated]) simp
    then have sh: "shift + 7 < 64" by simp
    have "n div 128 < 2 ^ (64 - (shift + 7))"
    proof -
      define k where "k = 64 - (shift + 7)"
      have "64 - shift = 7 + k" using sh by (simp add: k_def)
      then have "n < 128 * 2 ^ k" using "1.prems"(3) by (simp add: power_add)
      then show ?thesis unfolding k_def [symmetric] by (simp add: less_mult_imp_div_less mult.commute)
    qed
    then have IH: "varint_loop d (Suc i) (shift + 7) acc' =
        Inr (acc' OR push_bit (shift + 7) (of_nat (n div 128)), Suc i + length (varint_nat (n div 128)))" for acc' :: "'a word"
      using "1.IH" [OF False, of "Suc i" "shift + 7" acc'] "1.prems"(1) v sh by simp
    have "push_bit shift (of_nat (n mod 128)) OR push_bit (shift + 7) (of_nat (n div 128))
        = (push_bit shift (of_nat n) :: 'a word)"
      by (simp add: push_bit_or flip: of_nat_seven_bits [of n] push_bit_push_bit)
    then show ?thesis
      using "1.prems"(1,2) v IH by (simp add: varint_loop.simps [of d i shift] and_low_bits Let_def or.assoc)
  qed
qed

lemma varint_loop_varint:
  assumes "placed d i (varint v)"
  shows "varint_loop d i 0 0 = Inr (of_nat (unat v), i + length (varint v))"
  using varint_loop_nat [of d i "unat v" 0 0] assms unsigned_less [of v] by (simp add: varint_def)

section \<open>Reading back what was written\<close>

text \<open>
  A field switch reads a field when, at the field's body after the tag, it sets the field and stops
  after the body. Data is assumed to be shorter than \<open>2 ^ 63\<close> bytes, which every slice is.
\<close>

definition reads_back ::
  "(int \<Rightarrow> nat \<Rightarrow> bytes \<Rightarrow> nat \<Rightarrow> 'm \<Rightarrow> 'm field_case) \<Rightarrow> nat \<Rightarrow> bytes \<Rightarrow> 'm \<Rightarrow> 'm \<Rightarrow> bool" where
  "reads_back switch tag body m m' \<longleftrightarrow> (\<forall>d i. length d < 2 ^ 63 \<longrightarrow> placed d i body \<longrightarrow>
     switch (int (tag div 8)) (tag mod 8) d i m = Case (Some (Inr (m', i + length body))))"

lemma read_length_placed:
  assumes "placed d i (varint (of_nat (length b)) @ b)" and "length d < 2 ^ 63"
  shows "read_length d i = Inr (i + length (varint (of_nat (length b))),
    i + length (varint (of_nat (length b))) + length b)"
proof -
  let ?v = "of_nat (length b) :: uint64w" and ?j = "i + length (varint (of_nat (length b)))"
  have small: "?j + length b \<le> length d" using assms(1) by (simp add: placed_def)
  then have u: "unat ?v = length b"
    using assms(2) by (simp add: unsigned_of_nat take_bit_nat_eq_self)
  have si: "sint (of_nat n :: uint64w) = int n" if "n < 2 ^ 63" for n
    using that by (simp add: signed_of_nat signed_take_bit_int_eq_self)
  have "sint (of_nat ?j + ?v) = int (?j + length b)"
    using si [of "?j + length b"] small assms(2) by simp
  moreover have "sint ?v = int (length b)" using si [of "length b"] small assms(2) by simp
  moreover have "varint_loop d i 0 (0 :: 64 word) = Inr (?v, ?j)"
    using varint_loop_varint [of d i ?v] assms(1) u by simp
  ultimately show ?thesis
    using small by (simp add: read_length_def Let_def)
qed

lemma get_varint_back:
  "placed d i (varint v) \<Longrightarrow> get_varint name 0 d i upd = Case (Some (Inr (upd (of_nat (unat v)), i + length (varint v))))"
  by (simp add: get_varint_def varint_loop_varint)

lemma get_bytes_back:
  assumes "placed d i (varint (of_nat (length b)) @ b)" and "length d < 2 ^ 63"
  shows "get_bytes name 2 d i upd = Case (Some (Inr (upd b, i + length (varint (of_nat (length b)) @ b))))"
  using read_length_placed [OF assms] assms(1) by (simp add: get_bytes_def placed_take add.assoc)

lemma get_message_back:
  assumes "placed d i (varint (of_nat (length b)) @ b)" and "length d < 2 ^ 63" and "unmarshal b = Some (Inr x)"
  shows "get_message name 2 d i unmarshal upd = Case (Some (Inr (upd x, i + length (varint (of_nat (length b)) @ b))))"
  using read_length_placed [OF assms(1,2)] assms by (simp add: get_message_def placed_take add.assoc)

text \<open>The loop passes over fields that are read back.\<close>

definition decodes :: "(bytes \<Rightarrow> nat \<Rightarrow> 'm \<Rightarrow> 'm result option) \<Rightarrow> bytes \<Rightarrow> 'm \<Rightarrow> 'm \<Rightarrow> bool" where
  "decodes loop bs m m' \<longleftrightarrow> (\<forall>d i. length d < 2 ^ 63 \<longrightarrow> placed d i bs \<longrightarrow> loop d i m = loop d (i + length bs) m')"

lemma decodes_Nil [simp]: "decodes loop [] m m"
  by (simp add: decodes_def)

lemma decodes_append: "decodes loop xs m m1 \<Longrightarrow> decodes loop ys m1 m2 \<Longrightarrow> decodes loop (xs @ ys) m m2"
  by (simp add: decodes_def add.assoc)

lemma varint_loop_tag:
  assumes "i < length d" and "d ! i = chr tag" and "tag < 128"
  shows "varint_loop d i 0 (0 :: 64 word) = Inr (of_nat tag, Suc i)"
  using assms by (simp add: varint_loop.simps and_low_bits Let_def)

lemma decodes_field:
  assumes "reads_back switch tag body m m'" and "8 \<le> tag" and "tag < 128" and "tag mod 8 \<noteq> 4"
  shows "decodes (unmarshal_loop h name switch unknown) (chr tag # body) m m'"
  unfolding decodes_def
proof (intro allI impI)
  fix d i assume len: "length d < 2 ^ 63" and pl: "placed d i (chr tag # body)"
  have u: "unat (of_nat tag :: 64 word) = tag"
    using assms(3) by (simp add: unsigned_of_nat take_bit_nat_eq_self)
  then have wt: "unat (of_nat tag AND 7 :: 64 word) = tag mod 8"
    by (simp add: unsigned_and_eq and_low_bits)
  have "drop_bit 3 (of_nat tag :: 64 word) = of_nat (tag div 8)"
    by (rule unsigned_word_eqI [where ?'a = nat]) (use assms(3) in \<open>simp add: drop_bit_eq_div unat_div_distrib u unsigned_of_nat take_bit_nat_eq_self\<close>)
  then have fn: "sint (ucast (drop_bit 3 (of_nat tag :: 64 word)) :: 32 word) = int (tag div 8)"
    using assms(3) by (simp add: unsigned_of_nat take_bit_nat_eq_self signed_of_nat signed_take_bit_int_eq_self)
  have "switch (int (tag div 8)) (tag mod 8) d (Suc i) m = Case (Some (Inr (m', Suc i + length body)))"
    using assms(1) len pl unfolding reads_back_def by simp
  moreover have vt: "varint_loop d i 0 (0 :: 64 word) = Inr (of_nat tag, Suc i)"
    using pl assms(3) by (intro varint_loop_tag) auto
  moreover have "0 < tag div 8" using assms(2) by (simp add: div_greater_zero_iff)
  ultimately show "unmarshal_loop h name switch unknown d i m
      = unmarshal_loop h name switch unknown d (i + length (chr tag # body)) m'"
    using pl assms(3,4)
    by (subst unmarshal_loop.simps) (simp add: vt wt fn Let_def)
qed

lemma decodes_all:
  assumes "decodes (unmarshal_loop h name switch unknown) bs m m'" and "length bs < 2 ^ 63"
  shows "unmarshal_loop h name switch unknown bs 0 m = Some (Inr m')"
proof -
  have "unmarshal_loop h name switch unknown bs 0 m = unmarshal_loop h name switch unknown bs (length bs) m'"
    using assms by (simp add: decodes_def)
  then show ?thesis by (simp add: unmarshal_loop.simps [of _ _ _ _ bs "length bs"])
qed

section \<open>One lemma per shape of field\<close>

text \<open>
  \<open>upd x\<close> is the message with the field set to \<open>x\<close>, given to the switch's case. A field with its zero value is not
  written, and reading leaves the fresh message's zero.
\<close>

lemma decodes_varint:
  assumes "helpers_ok h" and "8 \<le> tag" and "tag < 128" and "tag mod 8 = 0"
    and "\<And>d i. switch (int (tag div 8)) 0 d i m = get_varint nm 0 d i upd"
    and "of_nat (unat v) = x" and "v = 0 \<Longrightarrow> upd x = m"
    and "decodes (unmarshal_loop h name switch unknown) acc (upd x) m'"
  shows "decodes (unmarshal_loop h name switch unknown) (put_varint h tag v acc) m m'"
proof (cases "v = 0")
  case True
  then show ?thesis using assms(7,8) by (simp add: put_varint_def)
next
  case False
  have "reads_back switch tag (varint v) m (upd x)"
    using assms(4-6) by (simp add: reads_back_def get_varint_back)
  then have "decodes (unmarshal_loop h name switch unknown) (chr tag # varint v) m (upd x)"
    using assms by (intro decodes_field) auto
  from decodes_append [OF this assms(8)] show ?thesis
    using False by (simp add: put_varint_def helpers_okD(1) [OF assms(1)])
qed

lemma decodes_bool:
  assumes "8 \<le> tag" and "tag < 128" and "tag mod 8 = 0"
    and "\<And>d i. switch (int (tag div 8)) 0 d i m = get_bool nm 0 d i upd"
    and "\<not> b \<Longrightarrow> upd b = m"
    and "decodes (unmarshal_loop h name switch unknown) acc (upd b) m'"
  shows "decodes (unmarshal_loop h name switch unknown) (put_bool tag b acc) m m'"
proof (cases b)
  case False
  then show ?thesis using assms(5,6) by (simp add: put_bool_def)
next
  case True
  have one: "[chr 1] = varint 1" by (simp add: varint_def varint_nat.simps)
  have "reads_back switch tag (varint 1) m (upd True)"
    using assms(3,4) by (simp add: reads_back_def get_bool_def get_varint_back)
  then have "decodes (unmarshal_loop h name switch unknown) (chr tag # [chr 1]) m (upd True)"
    unfolding one using assms by (intro decodes_field) auto
  from decodes_append [OF this] assms(6) True show ?thesis by (simp add: put_bool_def)
qed

lemma decodes_delimited:
  assumes "helpers_ok h" and "8 \<le> tag" and "tag < 128" and "tag mod 8 = 2"
    and "\<And>d i. placed d i (varint (of_nat (length b)) @ b) \<Longrightarrow> length d < 2 ^ 63 \<Longrightarrow>
      switch (int (tag div 8)) 2 d i m = Case (Some (Inr (m1, i + length (varint (of_nat (length b)) @ b))))"
    and "decodes (unmarshal_loop h name switch unknown) acc m1 m'"
  shows "decodes (unmarshal_loop h name switch unknown) (put_delimited h tag b acc) m m'"
proof -
  have "reads_back switch tag (varint (of_nat (length b)) @ b) m m1"
    using assms(4,5) by (simp add: reads_back_def)
  then have "decodes (unmarshal_loop h name switch unknown) (chr tag # varint (of_nat (length b)) @ b) m m1"
    using assms by (intro decodes_field) auto
  from decodes_append [OF this assms(6)] show ?thesis
    by (simp add: put_delimited_def helpers_okD(1) [OF assms(1)])
qed

lemma decodes_bytes:
  assumes "helpers_ok h" and "8 \<le> tag" and "tag < 128" and "tag mod 8 = 2"
    and "\<And>d i. switch (int (tag div 8)) 2 d i m = get_bytes nm 2 d i upd"
    and "b = [] \<Longrightarrow> upd b = m"
    and "decodes (unmarshal_loop h name switch unknown) acc (upd b) m'"
  shows "decodes (unmarshal_loop h name switch unknown) (put_bytes h tag b acc) m m'"
proof (cases "b = []")
  case True
  then show ?thesis using assms(6,7) by (simp add: put_bytes_def)
next
  case False
  have "decodes (unmarshal_loop h name switch unknown) (put_delimited h tag b acc) m m'"
    using assms(5) by (intro decodes_delimited [OF assms(1-4) _ assms(7)]) (simp add: get_bytes_back)
  then show ?thesis using False by (simp add: put_bytes_def)
qed

lemma decodes_strings:
  assumes "helpers_ok h" and "8 \<le> tag" and "tag < 128" and "tag mod 8 = 2"
    and "\<And>xs d i. switch (int (tag div 8)) 2 d i (upd xs) = get_bytes nm 2 d i (\<lambda>s. upd (xs @ [s]))"
    and "decodes (unmarshal_loop h name switch unknown) acc (upd (xs @ ss)) m'"
  shows "decodes (unmarshal_loop h name switch unknown) (put_strings h tag ss acc) (upd xs) m'"
  using assms(6)
proof (induction ss arbitrary: xs)
  case Nil
  then show ?case by (simp add: put_strings_def)
next
  case (Cons s ss)
  have "decodes (unmarshal_loop h name switch unknown) (put_strings h tag ss acc) (upd (xs @ [s])) m'"
    using Cons by simp
  then show ?case
    using decodes_delimited [OF assms(1-4), where b = s and m = "upd xs"] assms(5)
    by (simp add: put_strings_def get_bytes_back)
qed

lemma decodes_message:
  assumes "helpers_ok h" and "8 \<le> tag" and "tag < 128" and "tag mod 8 = 2"
    and "\<And>d i. switch (int (tag div 8)) 2 d i m = get_message nm 2 d i unmarshal (\<lambda>x. upd (Some x))"
    and "upd None = m"
    and "\<And>y. x = Some y \<Longrightarrow> length (marshal (Some y)) < 2 ^ 63 \<Longrightarrow> unmarshal (marshal (Some y)) = Some (Inr y)"
    and "decodes (unmarshal_loop h name switch unknown) acc (upd x) m'"
  shows "decodes (unmarshal_loop h name switch unknown) (put_message h tag marshal x acc) m m'"
proof (cases x)
  case None
  then show ?thesis using assms(6,8) by (simp add: put_message_def)
next
  case (Some y)
  have "unmarshal (marshal (Some y)) = Some (Inr y)"
    if "placed d i (varint (of_nat (length (marshal (Some y)))) @ marshal (Some y))" "length d < 2 ^ 63" for d i
    using assms(7) [OF Some] that by (simp add: placed_def)
  then have "decodes (unmarshal_loop h name switch unknown) (put_delimited h tag (marshal (Some y)) acc) m m'"
    using Some assms(5) by (intro decodes_delimited [OF assms(1-4) _ assms(8)]) (simp add: get_message_back)
  then show ?thesis using Some by (simp add: put_message_def)
qed

lemma decodes_messages:
  assumes "helpers_ok h" and "8 \<le> tag" and "tag < 128" and "tag mod 8 = 2"
    and "\<And>xs d i. switch (int (tag div 8)) 2 d i (upd xs) = get_message nm 2 d i unmarshal (\<lambda>x. upd (xs @ [Some x]))"
    and "\<And>x. x \<in> set ms \<Longrightarrow> \<exists>y. x = Some y
      \<and> (length (marshal (Some y)) < 2 ^ 63 \<longrightarrow> unmarshal (marshal (Some y)) = Some (Inr y))"
    and "decodes (unmarshal_loop h name switch unknown) acc (upd (xs @ ms)) m'"
  shows "decodes (unmarshal_loop h name switch unknown) (put_messages h tag marshal ms acc) (upd xs) m'"
  using assms(6,7)
proof (induction ms arbitrary: xs)
  case Nil
  then show ?case by (simp add: put_messages_def)
next
  case (Cons x ms)
  obtain y where y: "x = Some y" "length (marshal (Some y)) < 2 ^ 63 \<longrightarrow> unmarshal (marshal (Some y)) = Some (Inr y)"
    using Cons.prems(1) [of x] by auto
  have again: "unmarshal (marshal (Some y)) = Some (Inr y)"
    if "placed d i (varint (of_nat (length (marshal (Some y)))) @ marshal (Some y))" "length d < 2 ^ 63" for d i
    using y(2) that by (simp add: placed_def)
  have "decodes (unmarshal_loop h name switch unknown) (put_messages h tag marshal ms acc) (upd (xs @ [Some y])) m'"
    using Cons y by simp
  then show ?case
    using decodes_delimited [OF assms(1-4), where b = "marshal (Some y)" and m = "upd xs"] assms(5) again y(1)
    by (simp add: put_messages_def get_message_back)
qed

end
