(* ===== verification/Vt_Message.thy ===== *)
theory Vt_Message
  imports Vt_Wire
begin

text \<open>
  What every message's generated methods have in common beyond the shapes of their fields: fields that the message does not
  know are kept and written back, \<open>UnmarshalVT\<close> returns on all bytes and keeps an invariant, what is written
  has the measured size. The locale \<open>vt_message\<close> is what a message promises to the messages that contain it.
\<close>

unbundle bit_operations_syntax

section \<open>Fields a message does not know\<close>

text \<open>
  What \<open>Skip\<close> promises: on success it moves over the field at the start of the data, at least its tag, and what it answers
  depends on that field alone.
\<close>

definition skip_ok :: "protohelpers \<Rightarrow> bool" where
  "skip_ok h \<longleftrightarrow> (\<forall>d n. ph_Skip h d = Inr n \<longrightarrow> 0 < n \<and> (n \<le> int (length d) \<longrightarrow>
     (\<forall>rest. ph_Skip h (take (nat n) d @ rest) = Inr n)
     \<and> (\<forall>wire j. varint_loop d 0 0 (0 :: 64 word) = Inr (wire, j) \<longrightarrow> j \<le> nat n)))"

text \<open>
  The bytes of one field that falls into the switch's default case, and of any number of them. This is what \<^verbatim>\<open>unknownFields\<close>
  holds after decoding.
\<close>

definition unknown_field :: "protohelpers \<Rightarrow> (int \<Rightarrow> nat \<Rightarrow> bytes \<Rightarrow> nat \<Rightarrow> 'm \<Rightarrow> 'm field_case) \<Rightarrow> bytes \<Rightarrow> bool" where
  "unknown_field h switch f \<longleftrightarrow> f \<noteq> [] \<and> (\<forall>rest. ph_Skip h (f @ rest) = Inr (int (length f)))
     \<and> (\<exists>wire j. unat (wire AND 7) \<noteq> 4 \<and> 0 < sint (ucast (drop_bit 3 wire) :: 32 word)
          \<and> (\<forall>w d i m. switch (sint (ucast (drop_bit 3 wire) :: 32 word)) w d i m = Default)
          \<and> (\<forall>d i. placed d i f \<longrightarrow> varint_loop d i 0 (0 :: 64 word) = Inr (wire, i + j)))"

definition unknown_ok :: "protohelpers \<Rightarrow> (int \<Rightarrow> nat \<Rightarrow> bytes \<Rightarrow> nat \<Rightarrow> 'm \<Rightarrow> 'm field_case) \<Rightarrow> bytes \<Rightarrow> bool" where
  "unknown_ok h switch u \<longleftrightarrow> (\<exists>fs. u = concat fs \<and> list_all (unknown_field h switch) fs)"

lemma unknown_ok_Nil [simp]: "unknown_ok h switch []"
  by (auto simp: unknown_ok_def intro: exI [of _ "[]"])

lemma unknown_ok_append: "unknown_ok h switch u \<Longrightarrow> unknown_field h switch f \<Longrightarrow> unknown_ok h switch (u @ f)"
proof -
  assume "unknown_ok h switch u" and f: "unknown_field h switch f"
  then obtain fs where "u = concat fs" "list_all (unknown_field h switch) fs" by (auto simp: unknown_ok_def)
  then have "u @ f = concat (fs @ [f])" "list_all (unknown_field h switch) (fs @ [f])" using f by simp_all
  then show "unknown_ok h switch (u @ f)" unfolding unknown_ok_def by blast
qed

lemma decodes_unknown_field:
  assumes "unknown_field h switch f"
  shows "decodes (unmarshal_loop h name switch unknown) f m (unknown f m)"
  unfolding decodes_def
proof (intro allI impI)
  fix d i assume len: "length d < 2 ^ 63" and pl: "placed d i f"
  obtain wire j where t: "unat (wire AND 7) \<noteq> 4" "0 < sint (ucast (drop_bit 3 wire) :: 32 word)"
      and sw: "\<And>w d i m. switch (sint (ucast (drop_bit 3 wire) :: 32 word)) w d i m = Default"
      and v: "varint_loop d i 0 (0 :: 64 word) = Inr (wire, i + j)"
    using assms pl by (auto simp: unknown_field_def)
  have fits: "i + length f \<le> length d" and f: "take (length f) (drop i d) = f" and "f \<noteq> []"
    using pl assms by (simp_all add: placed_def unknown_field_def)
  then have i: "i < length d" by (cases f) auto
  have "drop i d = f @ drop (length f) (drop i d)" using f by (metis append_take_drop_id)
  then have "ph_Skip h (drop i d) = Inr (int (length f))" using assms by (metis unknown_field_def)
  then show "unmarshal_loop h name switch unknown d i m
      = unmarshal_loop h name switch unknown d (i + length f) (unknown f m)"
    using t sw v i fits f len by (subst unmarshal_loop.simps) (simp add: Let_def)
qed

text \<open>\<open>upd us\<close> is the message with \<open>us\<close> as its unknown fields.\<close>

lemma decodes_unknown:
  assumes "unknown_ok h switch u" and "\<And>f us. unknown f (upd us) = upd (us @ f)"
  shows "decodes (unmarshal_loop h name switch unknown) u (upd us) (upd (us @ u))"
proof -
  obtain fs where u: "u = concat fs" and fs: "list_all (unknown_field h switch) fs"
    using assms(1) by (auto simp: unknown_ok_def)
  from fs have "decodes (unmarshal_loop h name switch unknown) (concat fs) (upd us) (upd (us @ concat fs))"
  proof (induction fs arbitrary: us)
    case (Cons f fs)
    then have "decodes (unmarshal_loop h name switch unknown) f (upd us) (upd (us @ f))"
      using decodes_unknown_field [of h switch f name unknown "upd us"] assms(2) by simp
    moreover have "decodes (unmarshal_loop h name switch unknown) (concat fs) (upd (us @ f)) (upd ((us @ f) @ concat fs))"
      using Cons.IH [of "us @ f"] Cons.prems by simp
    ultimately show ?case using decodes_append by force
  qed simp
  then show ?thesis unfolding u .
qed

lemma varint_loop_forward: "varint_loop d i shift acc = Inr (v, j) \<Longrightarrow> i < j \<and> j \<le> length d"
proof (induction d i shift acc rule: varint_loop.induct)
  case (1 d i shift acc)
  then show ?case
    by (subst (asm) (2) varint_loop.simps) (fastforce simp: Let_def split: if_splits)
qed

text \<open>A varint is the same wherever its bytes are.\<close>

lemma varint_loop_local:
  "varint_loop d i shift acc = Inr (v, k) \<Longrightarrow> placed e l (take (k - i) (drop i d)) \<Longrightarrow>
     varint_loop e l shift acc = Inr (v, l + (k - i))"
proof (induction d i shift acc arbitrary: l rule: varint_loop.induct)
  case (1 d i shift acc)
  have fwd: "i < k" "k \<le> length d" using varint_loop_forward [OF "1.prems"(1)] by auto
  then have "take (k - i) (drop i d) = d ! i # take (k - Suc i) (drop (Suc i) d)"
    by (metis Cons_nth_drop_Suc Suc_diff_Suc less_le_trans take_Suc_Cons)
  then have pl: "l < length e" "e ! l = d ! i" "placed e (Suc l) (take (k - Suc i) (drop (Suc i) d))"
    using "1.prems"(2) by auto
  show ?case
  proof (cases "(of_char (d ! i) :: nat) < 0x80")
    case True
    then have "k = Suc i" "v = acc OR push_bit shift (of_nat (of_char (d ! i) AND 0x7F))" "shift < 64"
      using "1.prems"(1) by (simp_all add: varint_loop.simps [of d i] Let_def split: if_splits)
    then show ?thesis using pl True by (simp add: varint_loop.simps [of e l] Let_def)
  next
    case False
    let ?acc = "acc OR push_bit shift (of_nat ((of_char (d ! i) :: nat) AND 0x7F))"
    have step: "shift < 64" "i < length d" "varint_loop d (Suc i) (shift + 7) ?acc = Inr (v, k)"
      using "1.prems"(1) False by (simp_all add: varint_loop.simps [of d i] Let_def split: if_splits)
    then have "varint_loop e (Suc l) (shift + 7) ?acc = Inr (v, Suc l + (k - Suc i))"
      using "1.IH" [OF _ _ refl refl False step(3) pl(3)] by simp
    moreover have "Suc l + (k - Suc i) = l + (k - i)" using fwd(1) by arith
    ultimately show ?thesis using pl step(1) False by (simp only: varint_loop.simps [of e l]) (simp add: Let_def)
  qed
qed

lemma skipped_unknown:
  assumes skip: "skip_ok h" "ph_Skip h (drop i d) = Inr n" "i + nat n \<le> length d"
    and tag: "varint_loop d i 0 (0 :: 64 word) = Inr (wire, j)" "unat (wire AND 7) \<noteq> 4"
      "0 < sint (ucast (drop_bit 3 wire) :: 32 word)"
    and switch: "\<And>w d i m. switch (sint (ucast (drop_bit 3 wire) :: 32 word)) w d i m = Default"
  shows "unknown_field h switch (take (nat n) (drop i d))" (is "unknown_field h switch ?f")
proof -
  have ij: "i < j" "j \<le> length d" using varint_loop_forward [OF tag(1)] by auto
  have "0 < n" using skip(1,2) by (simp add: skip_ok_def)
  then have n: "0 < n" "int (length ?f) = n" using skip(3) by simp_all
  have "placed (drop i d) 0 (take (j - i) (drop i d))" using ij by (simp add: placed_def)
  from varint_loop_local [OF tag(1) this] have "varint_loop (drop i d) 0 0 (0 :: 64 word) = Inr (wire, j - i)" by simp
  then have jn: "j - i \<le> nat n" and rest: "\<And>rest. ph_Skip h (?f @ rest) = Inr n"
    using skip n by (auto simp: skip_ok_def)
  have "varint_loop e l 0 (0 :: 64 word) = Inr (wire, l + (j - i))" if "placed e l ?f" for e l
  proof -
    have "?f = take (j - i) (drop i d) @ drop (j - i) ?f" using jn by (metis append_take_drop_id min.absorb1 take_take)
    then have "placed e l (take (j - i) (drop i d))" using that by (metis placed_append)
    then show ?thesis by (rule varint_loop_local [OF tag(1)])
  qed
  then show ?thesis using n rest tag(2,3) switch unfolding unknown_field_def by auto
qed

section \<open>Reading always returns\<close>

text \<open>
  A case of the switch that returns and does not move back, and keeps an invariant of the message. Every iteration moves
  forward then, on whatever data, and the message that is returned has the invariant.
\<close>

definition case_returns :: "('m \<Rightarrow> bool) \<Rightarrow> nat \<Rightarrow> 'm field_case \<Rightarrow> bool" where
  "case_returns I i c =
     (case c of
        Default \<Rightarrow> True
      | Case None \<Rightarrow> False
      | Case (Some (Inl err)) \<Rightarrow> True
      | Case (Some (Inr (m, i'))) \<Rightarrow> I m \<and> i \<le> i')"

text \<open>A call that returns, with an error or with a message that has \<open>I\<close>.\<close>

definition returns_with :: "('m \<Rightarrow> bool) \<Rightarrow> 'm result option \<Rightarrow> bool" where
  "returns_with I x = (case x of None \<Rightarrow> False | Some r \<Rightarrow> (case r of Inl err \<Rightarrow> True | Inr m \<Rightarrow> I m))"

lemma returns_with_simps [simp]:
  "\<not> returns_with I None" "returns_with I (Some (Inl e))" "returns_with I (Some (Inr m)) \<longleftrightarrow> I m"
  by (simp_all add: returns_with_def)

lemma returns_with_ex: "returns_with I x \<longleftrightarrow> (\<exists>r. x = Some r \<and> (case r of Inl err \<Rightarrow> True | Inr m \<Rightarrow> I m))"
  by (cases x) (simp_all add: returns_with_def)

lemma get_not_Default [simp]:
  "get_varint nm w d i v \<noteq> Default" "get_bool nm w d i b \<noteq> Default" "get_bytes nm w d i u \<noteq> Default"
  "get_message nm w d i f g \<noteq> Default"
  by (simp_all add: get_varint_def get_bool_def get_bytes_def get_message_def)

lemma case_returns_Default [simp]: "case_returns I i Default"
  by (simp add: case_returns_def)

lemma sint_add_nonneg:
  assumes "i < 2 ^ 63" and "0 \<le> sint (len :: 64 word)" and "0 \<le> sint (of_nat i + len)"
  shows "sint (of_nat i + len) = int i + sint len"
proof -
  define k where "k = int i + sint len"
  have "sint (of_nat i :: 64 word) = int i"
    using assms(1) by (simp add: signed_of_nat signed_take_bit_int_eq_self)
  then have sum: "sint (of_nat i + len) = signed_take_bit 63 k"
    by (simp add: sint_word_ariths k_def)
  have k: "0 \<le> k" "k < 2 ^ 64" using assms(1,2) sint_less [of len] by (simp_all add: k_def)
  have "k < 2 ^ 63"
  proof (rule ccontr)
    assume "\<not> k < 2 ^ 63"
    then have "(k + 2 ^ 63) mod 2 ^ 64 = k + 2 ^ 63 - 2 ^ 64"
      using k minus_mod_self2 [of "k + 2 ^ 63" "2 ^ 64"] mod_pos_pos_trivial [of "k + 2 ^ 63 - 2 ^ 64" "2 ^ 64"] by simp
    then have "signed_take_bit 63 k = k - 2 ^ 64"
      by (simp add: signed_take_bit_eq_take_bit_shift take_bit_eq_mod)
    then show False using assms(3) sum k by simp
  qed
  then show ?thesis using sum k by (simp add: signed_take_bit_int_eq_self k_def)
qed

lemma read_length_forward:
  assumes "length d < 2 ^ 63" and "read_length d i = Inr (j, k)"
  shows "i < j \<and> j \<le> k \<and> k \<le> length d"
proof -
  obtain len where v: "varint_loop d i 0 (0 :: 64 word) = Inr (len, j)" and "0 \<le> sint len"
      and "0 \<le> sint (of_nat j + len)" and k: "k = nat (sint (of_nat j + len))" "sint (of_nat j + len) \<le> int (length d)"
    using assms(2) by (auto simp: read_length_def Let_def split: sum.splits prod.splits if_splits)
  moreover have "j < 2 ^ 63" using varint_loop_forward [OF v] assms(1) by simp
  ultimately show ?thesis using varint_loop_forward [OF v] by (auto simp: sint_add_nonneg)
qed

lemma unmarshal_loop_returns:
  assumes "skip_ok h" and case_ret: "\<And>f w i m. I m \<Longrightarrow> case_returns I i (switch f w d i m)"
    and default: "\<And>f w d i m w' d' i' m'. switch f w d i m = Default \<Longrightarrow> switch f w' d' i' m' = Default"
    and unknown: "\<And>b m. I m \<Longrightarrow> unknown_field h switch b \<Longrightarrow> I (unknown b m)" and "I m"
  shows "returns_with I (unmarshal_loop h name switch unknown d i m)"
  using \<open>I m\<close>
proof (induction "length d - i" arbitrary: i m rule: less_induct)
  case less
  show ?case
  proof (cases "\<exists>wire j. i < length d \<and> varint_loop d i 0 (0 :: 64 word) = Inr (wire, j)")
    case False
    then show ?thesis using less.prems by (subst unmarshal_loop.simps) (auto split: sum.split)
  next
    case True
    then obtain wire j where i: "i < length d" and v: "varint_loop d i 0 (0 :: 64 word) = Inr (wire, j)" by blast
    have step: "returns_with I (unmarshal_loop h name switch unknown d k m')" if "I m'" "i < k" for k m'
      using less.hyps [OF _ that(1)] that(2) i by simp
    have skip: "returns_with I (unmarshal_loop h name switch unknown d (i + nat n) (unknown (take (nat n) (drop i d)) m))"
      if n: "ph_Skip h (drop i d) = Inr n" "i + nat n \<le> length d"
        and t: "unat (wire AND 7) \<noteq> 4" "0 < sint (ucast (drop_bit 3 wire) :: 32 word)"
        and D: "switch (sint (ucast (drop_bit 3 wire) :: 32 word)) (unat (wire AND 7)) d j m = Default" for n
    proof (rule step [OF unknown [OF less.prems]])
      show "i < i + nat n" using assms(1) n(1) by (simp add: skip_ok_def)
      show "unknown_field h switch (take (nat n) (drop i d))"
        by (rule skipped_unknown [OF assms(1) n v t]) (rule default [OF D])
    qed
    have ij: "i < j" using varint_loop_forward [OF v] by simp
    show ?thesis
      using i v ij case_ret [OF less.prems, of j "sint (ucast (drop_bit 3 wire) :: 32 word)" "unat (wire AND 7)"]
      by (subst unmarshal_loop.simps)
        (auto simp: Let_def case_returns_def split: field_case.splits option.splits sum.splits intro!: skip intro: step)
  qed
qed

lemma case_returns_varint:
  assumes "\<And>v. I (upd v)"
  shows "case_returns I i (get_varint nm w d i upd)"
  using assms by (auto simp: case_returns_def get_varint_def split: sum.split dest: varint_loop_forward)

lemma case_returns_bool:
  assumes "\<And>v. I (upd v)"
  shows "case_returns I i (get_bool nm w d i upd)"
  unfolding get_bool_def by (intro case_returns_varint assms)

lemma case_returns_bytes:
  assumes "length d < 2 ^ 63" and "\<And>v. I (upd v)"
  shows "case_returns I i (get_bytes nm w d i upd)"
  using assms(2)
  by (auto simp: case_returns_def get_bytes_def split: sum.split dest: read_length_forward [OF assms(1)])

lemma case_returns_message:
  assumes "length d < 2 ^ 63"
    and "\<And>b. length b < 2 ^ 63 \<Longrightarrow> returns_with J (unmarshal b)"
    and "\<And>v. J v \<Longrightarrow> I (upd v)"
  shows "case_returns I i (get_message nm w d i unmarshal upd)"
proof (cases "w = 2 \<and> (\<exists>j k. read_length d i = Inr (j, k))")
  case False
  then show ?thesis by (auto simp: case_returns_def get_message_def split: sum.split)
next
  case True
  then obtain j k where w: "w = 2" and l: "read_length d i = Inr (j, k)" by blast
  have "length (take (k - j) (drop j d)) < 2 ^ 63" using assms(1) by simp
  from assms(2) [OF this] obtain r where "unmarshal (take (k - j) (drop j d)) = Some r"
      and "case r of Inl e \<Rightarrow> True | Inr v \<Rightarrow> J v" by (auto simp: returns_with_def split: option.splits)
  then show ?thesis using w l assms(3) read_length_forward [OF assms(1) l]
    by (auto simp: case_returns_def get_message_def split: sum.split)
qed

lemmas case_returns = case_returns_varint case_returns_bool case_returns_bytes

section \<open>What is written has the measured size\<close>

lemma put_length:
  assumes "helpers_ok h"
  shows "length (put_varint h tag v acc) = size_varint h v + length acc"
    and "length (put_delimited h tag b acc) = size_delimited h (length b) + length acc"
    and "length (put_bytes h tag b acc) = size_bytes h b + length acc"
    and "length (put_bool tag bool acc) = size_bool bool + length acc"
  using helpers_okD [OF assms]
  by (simp_all add: put_varint_def size_varint_def put_delimited_def size_delimited_def put_bytes_def size_bytes_def
      put_bool_def size_bool_def)

lemma put_strings_length:
  assumes "helpers_ok h"
  shows "length (put_strings h tag ss acc) = size_strings h ss + length acc"
  by (induction ss) (simp_all add: put_strings_def size_strings_def put_length [OF assms])

lemma put_message_length:
  assumes "helpers_ok h" and "\<And>y. m = Some y \<Longrightarrow> sz m = length (marshal m)"
  shows "length (put_message h tag marshal m acc) = size_message h sz m + length acc"
  using assms(2) by (cases m) (simp_all add: put_message_def size_message_def put_length [OF assms(1)])

lemma put_messages_length:
  assumes "helpers_ok h" and "\<And>m. m \<in> set ms \<Longrightarrow> sz m = length (marshal m)"
  shows "length (put_messages h tag marshal ms acc) = size_messages h sz ms + length acc"
  using assms(2)
  by (induction ms) (simp_all add: put_messages_def size_messages_def put_length [OF assms(1)])

section \<open>The interface of a message\<close>

text \<open>
  What a message's three generated methods promise: \<open>SizeVT\<close> is the number of bytes that
  \<open>MarshalToSizedBufferVT\<close> writes, and \<open>UnmarshalVT\<close> on a fresh message reads a well-formed message back. Well-formed
  is a message whose unknown fields are such, without nil elements and without an empty \<^verbatim>\<open>oneof\<close> wrapper: nil elements come
  back as empty messages.
\<close>

definition opt_ok :: "('m \<Rightarrow> bool) \<Rightarrow> 'm option \<Rightarrow> bool" where
  "opt_ok P x = (case x of None \<Rightarrow> True | Some y \<Rightarrow> P y)"

definition each_ok :: "('m \<Rightarrow> bool) \<Rightarrow> 'm option list \<Rightarrow> bool" where
  "each_ok P xs = list_all (\<lambda>x. case x of None \<Rightarrow> False | Some y \<Rightarrow> P y) xs"

lemma opt_ok_simps [simp]: "opt_ok P None" "opt_ok P (Some y) = P y"
  by (simp_all add: opt_ok_def)

lemma opt_ok_memberD: "list_all (opt_ok P) xs \<Longrightarrow> Some y \<in> set xs \<Longrightarrow> P y"
  by (auto simp: list_all_conv_set)

lemma each_ok_simps [simp]: "each_ok P []" "each_ok P (xs @ [Some y]) \<longleftrightarrow> each_ok P xs \<and> P y"
  by (simp_all add: each_ok_def)

lemma each_okD: "each_ok P xs \<Longrightarrow> x \<in> set xs \<Longrightarrow> \<exists>y. x = Some y \<and> P y"
  by (auto simp: each_ok_def list_all_conv_set split: option.splits)

locale vt_message =
  fixes h :: protohelpers
    and marshal :: "'m option \<Rightarrow> bytes"
    and sz :: "'m option \<Rightarrow> nat"
    and unmarshal :: "bytes \<Rightarrow> 'm \<Rightarrow> 'm result option"
    and fresh :: 'm
    and sized :: "'m \<Rightarrow> bool"
    and wf :: "'m \<Rightarrow> bool"
  assumes marshal_nil: "marshal None = []" and size_nil: "sz None = 0"
    and size_exact: "helpers_ok h \<Longrightarrow> sized m \<Longrightarrow> sz (Some m) = length (marshal (Some m))"
    and wf_sized: "wf m \<Longrightarrow> sized m"
    and fresh_wf: "wf fresh"
    and round_trip: "helpers_ok h \<Longrightarrow> wf m \<Longrightarrow> length (marshal (Some m)) < 2 ^ 63 \<Longrightarrow>
      unmarshal (marshal (Some m)) fresh = Some (Inr m)"
    and returns: "skip_ok h \<Longrightarrow> length b < 2 ^ 63 \<Longrightarrow> wf m \<Longrightarrow> returns_with wf (unmarshal b m)"
begin

lemma size_option:
  assumes "helpers_ok h" and "\<And>y. x = Some y \<Longrightarrow> sized y"
  shows "sz x = length (marshal x)"
  using assms by (cases x) (simp_all add: marshal_nil size_nil size_exact)

lemma put_field_length:
  assumes "helpers_ok h" and "\<And>y. x = Some y \<Longrightarrow> sized y"
  shows "length (put_message h tag marshal x acc) = size_message h sz x + length acc"
  using assms by (intro put_message_length size_option) auto

lemma put_fields_length:
  assumes "helpers_ok h" and "\<And>y. Some y \<in> set xs \<Longrightarrow> sized y"
  shows "length (put_messages h tag marshal xs acc) = size_messages h sz xs + length acc"
  using assms by (intro put_messages_length size_option) auto

lemma option_round_trip:
  assumes "helpers_ok h" and "opt_ok wf x" and "x = Some y" and "length (marshal (Some y)) < 2 ^ 63"
  shows "unmarshal (marshal (Some y)) fresh = Some (Inr y)"
  using assms by (simp add: round_trip)

lemma element_round_trip:
  assumes "helpers_ok h" and "each_ok wf xs" and "x \<in> set xs"
  shows "\<exists>y. x = Some y \<and> (length (marshal (Some y)) < 2 ^ 63 \<longrightarrow> unmarshal (marshal (Some y)) fresh = Some (Inr y))"
  using each_okD [OF assms(2,3)] round_trip [OF assms(1)] by blast

end

section \<open>Widths\<close>

lemma narrow_cast [simp]:
  "(ucast (scast x :: uint64w) :: 32 word) = x" "(ucast (ucast x :: uint64w) :: 32 word) = x"
  for x :: "32 word"
  by (transfer, simp add: take_bit_signed_take_bit)+

lemma narrow_varint [simp]:
  "(of_nat (unat (scast x :: uint64w)) :: 32 word) = x"
  "(of_nat (unat (ucast x :: uint64w)) :: 32 word) = x"
  "(of_nat (unat y) :: 64 word) = y"
  for x :: "32 word" and y :: "64 word"
  by simp_all

lemma widen_zero [simp]: "scast x = (0 :: uint64w) \<longleftrightarrow> x = 0" "ucast x = (0 :: uint64w) \<longleftrightarrow> x = 0"
  for x :: "32 word"
  by (metis narrow_cast(1) unsigned_0 signed_0, metis narrow_cast(2) unsigned_0)

end
