(* ===== verification/Vt_Read.thy ===== *)
theory Vt_Read
  imports Vt_Message
begin

text \<open>
  The messages of reading: addresses, documents, revision tokens, failures, and the requests and responses of \<^verbatim>\<open>Read\<close>.
  One group of definitions per message, each the translation of the generated method of that name in
  \<^verbatim>\<open>api/sink/v1/sink_vtproto.pb.go\<close>: \<open>MarshalToSizedBufferVT\<close>, \<open>SizeVT\<close> and \<open>UnmarshalVT\<close>, the last split into the field switch and the loop
  around it; \<open>fresh\<close> is the message \<^verbatim>\<open>&T{}\<close>. Then, per message, that the size is exact and that reading inverts writing, as an
  interpretation of the interface that the messages containing it use.
\<close>

unbundle bit_operations_syntax

section \<open>RecordAddress\<close>

definition RecordAddress_MarshalToSizedBufferVT :: "protohelpers \<Rightarrow> pbRecordAddress option \<Rightarrow> bytes" where
  "RecordAddress_MarshalToSizedBufferVT h msg =
     (case msg of
        None \<Rightarrow> []
      | Some m \<Rightarrow>
          put_bytes h 0xa (pbRecordAddress_Uri m) (
          pbRecordAddress_unknownFields m))"

definition RecordAddress_SizeVT :: "protohelpers \<Rightarrow> pbRecordAddress option \<Rightarrow> nat" where
  "RecordAddress_SizeVT h msg =
     (case msg of
        None \<Rightarrow> 0
      | Some m \<Rightarrow>
          size_bytes h (pbRecordAddress_Uri m)
          + length (pbRecordAddress_unknownFields m))"

definition RecordAddress_fresh :: pbRecordAddress where
  "RecordAddress_fresh = \<lparr>pbRecordAddress_Uri = [], pbRecordAddress_unknownFields = []\<rparr>"

definition RecordAddress_switch :: "protohelpers \<Rightarrow> int \<Rightarrow> nat \<Rightarrow> bytes \<Rightarrow> nat \<Rightarrow> pbRecordAddress \<Rightarrow> pbRecordAddress field_case" where
  "RecordAddress_switch h fieldNum wireType dAtA iNdEx m =
     (if fieldNum = 1 then get_bytes ''Uri'' wireType dAtA iNdEx (\<lambda>v. m\<lparr>pbRecordAddress_Uri := v\<rparr>)
      else Default)"

abbreviation RecordAddress_loop :: "protohelpers \<Rightarrow> bytes \<Rightarrow> nat \<Rightarrow> pbRecordAddress \<Rightarrow> pbRecordAddress result option" where
  "RecordAddress_loop h \<equiv> unmarshal_loop h ''RecordAddress'' (RecordAddress_switch h)
     (\<lambda>b m. m\<lparr>pbRecordAddress_unknownFields := pbRecordAddress_unknownFields m @ b\<rparr>)"

definition RecordAddress_UnmarshalVT :: "protohelpers \<Rightarrow> bytes \<Rightarrow> pbRecordAddress \<Rightarrow> pbRecordAddress result option" where
  "RecordAddress_UnmarshalVT h dAtA m = RecordAddress_loop h dAtA 0 m"

definition RecordAddress_wf :: "protohelpers \<Rightarrow> pbRecordAddress \<Rightarrow> bool" where
  "RecordAddress_wf h m \<longleftrightarrow> unknown_ok h (RecordAddress_switch h) (pbRecordAddress_unknownFields m)"

section \<open>Document\<close>

definition Document_MarshalToSizedBufferVT :: "protohelpers \<Rightarrow> pbDocument option \<Rightarrow> bytes" where
  "Document_MarshalToSizedBufferVT h msg =
     (case msg of
        None \<Rightarrow> []
      | Some m \<Rightarrow>
          put_varint h 0x8 (scast (pbDocument_Encoding m)) (
          put_bytes h 0x12 (pbDocument_Payload m) (
          pbDocument_unknownFields m)))"

definition Document_SizeVT :: "protohelpers \<Rightarrow> pbDocument option \<Rightarrow> nat" where
  "Document_SizeVT h msg =
     (case msg of
        None \<Rightarrow> 0
      | Some m \<Rightarrow>
          size_varint h (scast (pbDocument_Encoding m))
          + size_bytes h (pbDocument_Payload m)
          + length (pbDocument_unknownFields m))"

definition Document_fresh :: pbDocument where
  "Document_fresh = \<lparr>pbDocument_Encoding = 0, pbDocument_Payload = [], pbDocument_unknownFields = []\<rparr>"

definition Document_switch :: "protohelpers \<Rightarrow> int \<Rightarrow> nat \<Rightarrow> bytes \<Rightarrow> nat \<Rightarrow> pbDocument \<Rightarrow> pbDocument field_case" where
  "Document_switch h fieldNum wireType dAtA iNdEx m =
     (if fieldNum = 1 then get_varint ''Encoding'' wireType dAtA iNdEx (\<lambda>v. m\<lparr>pbDocument_Encoding := v\<rparr>)
      else if fieldNum = 2 then get_bytes ''Payload'' wireType dAtA iNdEx (\<lambda>v. m\<lparr>pbDocument_Payload := v\<rparr>)
      else Default)"

abbreviation Document_loop :: "protohelpers \<Rightarrow> bytes \<Rightarrow> nat \<Rightarrow> pbDocument \<Rightarrow> pbDocument result option" where
  "Document_loop h \<equiv> unmarshal_loop h ''Document'' (Document_switch h)
     (\<lambda>b m. m\<lparr>pbDocument_unknownFields := pbDocument_unknownFields m @ b\<rparr>)"

definition Document_UnmarshalVT :: "protohelpers \<Rightarrow> bytes \<Rightarrow> pbDocument \<Rightarrow> pbDocument result option" where
  "Document_UnmarshalVT h dAtA m = Document_loop h dAtA 0 m"

definition Document_wf :: "protohelpers \<Rightarrow> pbDocument \<Rightarrow> bool" where
  "Document_wf h m \<longleftrightarrow> unknown_ok h (Document_switch h) (pbDocument_unknownFields m)"

section \<open>RevisionToken\<close>

definition RevisionToken_MarshalToSizedBufferVT :: "protohelpers \<Rightarrow> pbRevisionToken option \<Rightarrow> bytes" where
  "RevisionToken_MarshalToSizedBufferVT h msg =
     (case msg of
        None \<Rightarrow> []
      | Some m \<Rightarrow>
          put_bytes h 0xa (pbRevisionToken_Data m) (
          pbRevisionToken_unknownFields m))"

definition RevisionToken_SizeVT :: "protohelpers \<Rightarrow> pbRevisionToken option \<Rightarrow> nat" where
  "RevisionToken_SizeVT h msg =
     (case msg of
        None \<Rightarrow> 0
      | Some m \<Rightarrow>
          size_bytes h (pbRevisionToken_Data m)
          + length (pbRevisionToken_unknownFields m))"

definition RevisionToken_fresh :: pbRevisionToken where
  "RevisionToken_fresh = \<lparr>pbRevisionToken_Data = [], pbRevisionToken_unknownFields = []\<rparr>"

definition RevisionToken_switch :: "protohelpers \<Rightarrow> int \<Rightarrow> nat \<Rightarrow> bytes \<Rightarrow> nat \<Rightarrow> pbRevisionToken \<Rightarrow> pbRevisionToken field_case" where
  "RevisionToken_switch h fieldNum wireType dAtA iNdEx m =
     (if fieldNum = 1 then get_bytes ''Data'' wireType dAtA iNdEx (\<lambda>v. m\<lparr>pbRevisionToken_Data := v\<rparr>)
      else Default)"

abbreviation RevisionToken_loop :: "protohelpers \<Rightarrow> bytes \<Rightarrow> nat \<Rightarrow> pbRevisionToken \<Rightarrow> pbRevisionToken result option" where
  "RevisionToken_loop h \<equiv> unmarshal_loop h ''RevisionToken'' (RevisionToken_switch h)
     (\<lambda>b m. m\<lparr>pbRevisionToken_unknownFields := pbRevisionToken_unknownFields m @ b\<rparr>)"

definition RevisionToken_UnmarshalVT :: "protohelpers \<Rightarrow> bytes \<Rightarrow> pbRevisionToken \<Rightarrow> pbRevisionToken result option" where
  "RevisionToken_UnmarshalVT h dAtA m = RevisionToken_loop h dAtA 0 m"

definition RevisionToken_wf :: "protohelpers \<Rightarrow> pbRevisionToken \<Rightarrow> bool" where
  "RevisionToken_wf h m \<longleftrightarrow> unknown_ok h (RevisionToken_switch h) (pbRevisionToken_unknownFields m)"

section \<open>Failure\<close>

definition Failure_MarshalToSizedBufferVT :: "protohelpers \<Rightarrow> pbFailure option \<Rightarrow> bytes" where
  "Failure_MarshalToSizedBufferVT h msg =
     (case msg of
        None \<Rightarrow> []
      | Some m \<Rightarrow>
          put_varint h 0x8 (scast (pbFailure_Code m)) (
          put_bytes h 0x12 (pbFailure_Message m) (
          put_bool 0x18 (pbFailure_Retryable m) (
          pbFailure_unknownFields m))))"

definition Failure_SizeVT :: "protohelpers \<Rightarrow> pbFailure option \<Rightarrow> nat" where
  "Failure_SizeVT h msg =
     (case msg of
        None \<Rightarrow> 0
      | Some m \<Rightarrow>
          size_varint h (scast (pbFailure_Code m))
          + size_bytes h (pbFailure_Message m)
          + size_bool (pbFailure_Retryable m)
          + length (pbFailure_unknownFields m))"

definition Failure_fresh :: pbFailure where
  "Failure_fresh = \<lparr>pbFailure_Code = 0, pbFailure_Message = [], pbFailure_Retryable = False, pbFailure_unknownFields = []\<rparr>"

definition Failure_switch :: "protohelpers \<Rightarrow> int \<Rightarrow> nat \<Rightarrow> bytes \<Rightarrow> nat \<Rightarrow> pbFailure \<Rightarrow> pbFailure field_case" where
  "Failure_switch h fieldNum wireType dAtA iNdEx m =
     (if fieldNum = 1 then get_varint ''Code'' wireType dAtA iNdEx (\<lambda>v. m\<lparr>pbFailure_Code := v\<rparr>)
      else if fieldNum = 2 then get_bytes ''Message'' wireType dAtA iNdEx (\<lambda>v. m\<lparr>pbFailure_Message := v\<rparr>)
      else if fieldNum = 3 then get_bool ''Retryable'' wireType dAtA iNdEx (\<lambda>v. m\<lparr>pbFailure_Retryable := v\<rparr>)
      else Default)"

abbreviation Failure_loop :: "protohelpers \<Rightarrow> bytes \<Rightarrow> nat \<Rightarrow> pbFailure \<Rightarrow> pbFailure result option" where
  "Failure_loop h \<equiv> unmarshal_loop h ''Failure'' (Failure_switch h)
     (\<lambda>b m. m\<lparr>pbFailure_unknownFields := pbFailure_unknownFields m @ b\<rparr>)"

definition Failure_UnmarshalVT :: "protohelpers \<Rightarrow> bytes \<Rightarrow> pbFailure \<Rightarrow> pbFailure result option" where
  "Failure_UnmarshalVT h dAtA m = Failure_loop h dAtA 0 m"

definition Failure_wf :: "protohelpers \<Rightarrow> pbFailure \<Rightarrow> bool" where
  "Failure_wf h m \<longleftrightarrow> unknown_ok h (Failure_switch h) (pbFailure_unknownFields m)"

section \<open>ReadOperation\<close>

definition ReadOperation_MarshalToSizedBufferVT :: "protohelpers \<Rightarrow> pbReadOperation option \<Rightarrow> bytes" where
  "ReadOperation_MarshalToSizedBufferVT h msg =
     (case msg of
        None \<Rightarrow> []
      | Some m \<Rightarrow>
          put_message h 0xa (RecordAddress_MarshalToSizedBufferVT h) (pbReadOperation_Address m) (
          pbReadOperation_unknownFields m))"

definition ReadOperation_SizeVT :: "protohelpers \<Rightarrow> pbReadOperation option \<Rightarrow> nat" where
  "ReadOperation_SizeVT h msg =
     (case msg of
        None \<Rightarrow> 0
      | Some m \<Rightarrow>
          size_message h (RecordAddress_SizeVT h) (pbReadOperation_Address m)
          + length (pbReadOperation_unknownFields m))"

definition ReadOperation_fresh :: pbReadOperation where
  "ReadOperation_fresh = \<lparr>pbReadOperation_Address = None, pbReadOperation_unknownFields = []\<rparr>"

definition ReadOperation_switch :: "protohelpers \<Rightarrow> int \<Rightarrow> nat \<Rightarrow> bytes \<Rightarrow> nat \<Rightarrow> pbReadOperation \<Rightarrow> pbReadOperation field_case" where
  "ReadOperation_switch h fieldNum wireType dAtA iNdEx m =
     (if fieldNum = 1 then get_message ''Address'' wireType dAtA iNdEx
           (\<lambda>b. RecordAddress_UnmarshalVT h b (case pbReadOperation_Address m of None \<Rightarrow> RecordAddress_fresh | Some v \<Rightarrow> v)) (\<lambda>v. m\<lparr>pbReadOperation_Address := Some v\<rparr>)
      else Default)"

abbreviation ReadOperation_loop :: "protohelpers \<Rightarrow> bytes \<Rightarrow> nat \<Rightarrow> pbReadOperation \<Rightarrow> pbReadOperation result option" where
  "ReadOperation_loop h \<equiv> unmarshal_loop h ''ReadOperation'' (ReadOperation_switch h)
     (\<lambda>b m. m\<lparr>pbReadOperation_unknownFields := pbReadOperation_unknownFields m @ b\<rparr>)"

definition ReadOperation_UnmarshalVT :: "protohelpers \<Rightarrow> bytes \<Rightarrow> pbReadOperation \<Rightarrow> pbReadOperation result option" where
  "ReadOperation_UnmarshalVT h dAtA m = ReadOperation_loop h dAtA 0 m"

definition ReadOperation_wf :: "protohelpers \<Rightarrow> pbReadOperation \<Rightarrow> bool" where
  "ReadOperation_wf h m \<longleftrightarrow> unknown_ok h (ReadOperation_switch h) (pbReadOperation_unknownFields m) \<and> opt_ok (RecordAddress_wf h) (pbReadOperation_Address m)"

section \<open>ReadRequest\<close>

definition ReadRequest_MarshalToSizedBufferVT :: "protohelpers \<Rightarrow> pbReadRequest option \<Rightarrow> bytes" where
  "ReadRequest_MarshalToSizedBufferVT h msg =
     (case msg of
        None \<Rightarrow> []
      | Some m \<Rightarrow>
          put_messages h 0xa (ReadOperation_MarshalToSizedBufferVT h) (pbReadRequest_Operations m) (
          pbReadRequest_unknownFields m))"

definition ReadRequest_SizeVT :: "protohelpers \<Rightarrow> pbReadRequest option \<Rightarrow> nat" where
  "ReadRequest_SizeVT h msg =
     (case msg of
        None \<Rightarrow> 0
      | Some m \<Rightarrow>
          size_messages h (ReadOperation_SizeVT h) (pbReadRequest_Operations m)
          + length (pbReadRequest_unknownFields m))"

definition ReadRequest_fresh :: pbReadRequest where
  "ReadRequest_fresh = \<lparr>pbReadRequest_Operations = [], pbReadRequest_unknownFields = []\<rparr>"

definition ReadRequest_switch :: "protohelpers \<Rightarrow> int \<Rightarrow> nat \<Rightarrow> bytes \<Rightarrow> nat \<Rightarrow> pbReadRequest \<Rightarrow> pbReadRequest field_case" where
  "ReadRequest_switch h fieldNum wireType dAtA iNdEx m =
     (if fieldNum = 1 then get_message ''Operations'' wireType dAtA iNdEx
           (\<lambda>b. ReadOperation_UnmarshalVT h b ReadOperation_fresh) (\<lambda>v. m\<lparr>pbReadRequest_Operations := pbReadRequest_Operations m @ [Some v]\<rparr>)
      else Default)"

abbreviation ReadRequest_loop :: "protohelpers \<Rightarrow> bytes \<Rightarrow> nat \<Rightarrow> pbReadRequest \<Rightarrow> pbReadRequest result option" where
  "ReadRequest_loop h \<equiv> unmarshal_loop h ''ReadRequest'' (ReadRequest_switch h)
     (\<lambda>b m. m\<lparr>pbReadRequest_unknownFields := pbReadRequest_unknownFields m @ b\<rparr>)"

definition ReadRequest_UnmarshalVT :: "protohelpers \<Rightarrow> bytes \<Rightarrow> pbReadRequest \<Rightarrow> pbReadRequest result option" where
  "ReadRequest_UnmarshalVT h dAtA m = ReadRequest_loop h dAtA 0 m"

definition ReadRequest_wf :: "protohelpers \<Rightarrow> pbReadRequest \<Rightarrow> bool" where
  "ReadRequest_wf h m \<longleftrightarrow> unknown_ok h (ReadRequest_switch h) (pbReadRequest_unknownFields m) \<and> each_ok (ReadOperation_wf h) (pbReadRequest_Operations m)"

section \<open>ReadResult\<close>

definition ReadResult_MarshalToSizedBufferVT :: "protohelpers \<Rightarrow> pbReadResult option \<Rightarrow> bytes" where
  "ReadResult_MarshalToSizedBufferVT h msg =
     (case msg of
        None \<Rightarrow> []
      | Some m \<Rightarrow>
          put_varint h 0x8 (ucast (pbReadResult_OperationIndex m)) (
          put_varint h 0x10 (scast (pbReadResult_Status m)) (
          put_message h 0x1a (Document_MarshalToSizedBufferVT h) (pbReadResult_Document m) (
          put_message h 0x22 (RevisionToken_MarshalToSizedBufferVT h) (pbReadResult_Revision m) (
          put_message h 0x2a (Failure_MarshalToSizedBufferVT h) (pbReadResult_Failure m) (
          pbReadResult_unknownFields m))))))"

definition ReadResult_SizeVT :: "protohelpers \<Rightarrow> pbReadResult option \<Rightarrow> nat" where
  "ReadResult_SizeVT h msg =
     (case msg of
        None \<Rightarrow> 0
      | Some m \<Rightarrow>
          size_varint h (ucast (pbReadResult_OperationIndex m))
          + size_varint h (scast (pbReadResult_Status m))
          + size_message h (Document_SizeVT h) (pbReadResult_Document m)
          + size_message h (RevisionToken_SizeVT h) (pbReadResult_Revision m)
          + size_message h (Failure_SizeVT h) (pbReadResult_Failure m)
          + length (pbReadResult_unknownFields m))"

definition ReadResult_fresh :: pbReadResult where
  "ReadResult_fresh = \<lparr>pbReadResult_OperationIndex = 0, pbReadResult_Status = 0, pbReadResult_Document = None, pbReadResult_Revision = None, pbReadResult_Failure = None, pbReadResult_unknownFields = []\<rparr>"

definition ReadResult_switch :: "protohelpers \<Rightarrow> int \<Rightarrow> nat \<Rightarrow> bytes \<Rightarrow> nat \<Rightarrow> pbReadResult \<Rightarrow> pbReadResult field_case" where
  "ReadResult_switch h fieldNum wireType dAtA iNdEx m =
     (if fieldNum = 1 then get_varint ''OperationIndex'' wireType dAtA iNdEx (\<lambda>v. m\<lparr>pbReadResult_OperationIndex := v\<rparr>)
      else if fieldNum = 2 then get_varint ''Status'' wireType dAtA iNdEx (\<lambda>v. m\<lparr>pbReadResult_Status := v\<rparr>)
      else if fieldNum = 3 then get_message ''Document'' wireType dAtA iNdEx
           (\<lambda>b. Document_UnmarshalVT h b (case pbReadResult_Document m of None \<Rightarrow> Document_fresh | Some v \<Rightarrow> v)) (\<lambda>v. m\<lparr>pbReadResult_Document := Some v\<rparr>)
      else if fieldNum = 4 then get_message ''Revision'' wireType dAtA iNdEx
           (\<lambda>b. RevisionToken_UnmarshalVT h b (case pbReadResult_Revision m of None \<Rightarrow> RevisionToken_fresh | Some v \<Rightarrow> v)) (\<lambda>v. m\<lparr>pbReadResult_Revision := Some v\<rparr>)
      else if fieldNum = 5 then get_message ''Failure'' wireType dAtA iNdEx
           (\<lambda>b. Failure_UnmarshalVT h b (case pbReadResult_Failure m of None \<Rightarrow> Failure_fresh | Some v \<Rightarrow> v)) (\<lambda>v. m\<lparr>pbReadResult_Failure := Some v\<rparr>)
      else Default)"

abbreviation ReadResult_loop :: "protohelpers \<Rightarrow> bytes \<Rightarrow> nat \<Rightarrow> pbReadResult \<Rightarrow> pbReadResult result option" where
  "ReadResult_loop h \<equiv> unmarshal_loop h ''ReadResult'' (ReadResult_switch h)
     (\<lambda>b m. m\<lparr>pbReadResult_unknownFields := pbReadResult_unknownFields m @ b\<rparr>)"

definition ReadResult_UnmarshalVT :: "protohelpers \<Rightarrow> bytes \<Rightarrow> pbReadResult \<Rightarrow> pbReadResult result option" where
  "ReadResult_UnmarshalVT h dAtA m = ReadResult_loop h dAtA 0 m"

definition ReadResult_wf :: "protohelpers \<Rightarrow> pbReadResult \<Rightarrow> bool" where
  "ReadResult_wf h m \<longleftrightarrow> unknown_ok h (ReadResult_switch h) (pbReadResult_unknownFields m) \<and> opt_ok (Document_wf h) (pbReadResult_Document m) \<and> opt_ok (RevisionToken_wf h) (pbReadResult_Revision m) \<and> opt_ok (Failure_wf h) (pbReadResult_Failure m)"

section \<open>ReadResponse\<close>

definition ReadResponse_MarshalToSizedBufferVT :: "protohelpers \<Rightarrow> pbReadResponse option \<Rightarrow> bytes" where
  "ReadResponse_MarshalToSizedBufferVT h msg =
     (case msg of
        None \<Rightarrow> []
      | Some m \<Rightarrow>
          put_messages h 0xa (ReadResult_MarshalToSizedBufferVT h) (pbReadResponse_Results m) (
          pbReadResponse_unknownFields m))"

definition ReadResponse_SizeVT :: "protohelpers \<Rightarrow> pbReadResponse option \<Rightarrow> nat" where
  "ReadResponse_SizeVT h msg =
     (case msg of
        None \<Rightarrow> 0
      | Some m \<Rightarrow>
          size_messages h (ReadResult_SizeVT h) (pbReadResponse_Results m)
          + length (pbReadResponse_unknownFields m))"

definition ReadResponse_fresh :: pbReadResponse where
  "ReadResponse_fresh = \<lparr>pbReadResponse_Results = [], pbReadResponse_unknownFields = []\<rparr>"

definition ReadResponse_switch :: "protohelpers \<Rightarrow> int \<Rightarrow> nat \<Rightarrow> bytes \<Rightarrow> nat \<Rightarrow> pbReadResponse \<Rightarrow> pbReadResponse field_case" where
  "ReadResponse_switch h fieldNum wireType dAtA iNdEx m =
     (if fieldNum = 1 then get_message ''Results'' wireType dAtA iNdEx
           (\<lambda>b. ReadResult_UnmarshalVT h b ReadResult_fresh) (\<lambda>v. m\<lparr>pbReadResponse_Results := pbReadResponse_Results m @ [Some v]\<rparr>)
      else Default)"

abbreviation ReadResponse_loop :: "protohelpers \<Rightarrow> bytes \<Rightarrow> nat \<Rightarrow> pbReadResponse \<Rightarrow> pbReadResponse result option" where
  "ReadResponse_loop h \<equiv> unmarshal_loop h ''ReadResponse'' (ReadResponse_switch h)
     (\<lambda>b m. m\<lparr>pbReadResponse_unknownFields := pbReadResponse_unknownFields m @ b\<rparr>)"

definition ReadResponse_UnmarshalVT :: "protohelpers \<Rightarrow> bytes \<Rightarrow> pbReadResponse \<Rightarrow> pbReadResponse result option" where
  "ReadResponse_UnmarshalVT h dAtA m = ReadResponse_loop h dAtA 0 m"

definition ReadResponse_wf :: "protohelpers \<Rightarrow> pbReadResponse \<Rightarrow> bool" where
  "ReadResponse_wf h m \<longleftrightarrow> unknown_ok h (ReadResponse_switch h) (pbReadResponse_unknownFields m) \<and> each_ok (ReadResult_wf h) (pbReadResponse_Results m)"

section \<open>RecordAddress: exact size and round trip\<close>

lemma RecordAddress_size:
  assumes "helpers_ok h"
  shows "RecordAddress_SizeVT h (Some m) = length (RecordAddress_MarshalToSizedBufferVT h (Some m))"
  by (simp add: RecordAddress_SizeVT_def RecordAddress_MarshalToSizedBufferVT_def 
      put_length [OF assms(1)] put_strings_length [OF assms(1)])

lemma RecordAddress_decodes:
  assumes ok: "helpers_ok h" and "RecordAddress_wf h m"
  shows "decodes (RecordAddress_loop h) (RecordAddress_MarshalToSizedBufferVT h (Some m)) RecordAddress_fresh m"
proof -
  let ?m = "\<lambda>x1 u. \<lparr>pbRecordAddress_Uri = x1, pbRecordAddress_unknownFields = u\<rparr>"
  obtain x1 u where m: "m = ?m x1 u" and u: "unknown_ok h (RecordAddress_switch h) u"
    using assms(2) by (cases m) (auto simp: RecordAddress_wf_def)
  have d1: "decodes (RecordAddress_loop h) u (?m x1 []) (?m x1 u)"
    using decodes_unknown [OF u, where us = "[]" and upd = "?m x1"] by simp
  let ?b0 = "put_bytes h 0xa x1 u"
  have d0: "decodes (RecordAddress_loop h) ?b0 (?m [] []) (?m x1 u)"
    by (rule decodes_bytes [where nm = "''Uri''" and upd = "\<lambda>v. ?m v []",
          OF ok _ _ _ _ _ d1]) (simp_all add: RecordAddress_switch_def)
  show ?thesis using d0 by (simp add: m RecordAddress_MarshalToSizedBufferVT_def RecordAddress_fresh_def)
qed

lemma RecordAddress_default: "RecordAddress_switch h f w d i m = Default \<Longrightarrow> RecordAddress_switch h f w' d' i' m' = Default"
  by (auto simp: RecordAddress_switch_def split: if_splits)

lemma RecordAddress_fresh_wf: "RecordAddress_wf h RecordAddress_fresh"
  by (simp add: RecordAddress_wf_def RecordAddress_fresh_def)

lemma RecordAddress_returns:
  assumes "skip_ok h" and "length b < 2 ^ 63" and "RecordAddress_wf h m"
  shows "returns_with (RecordAddress_wf h) (RecordAddress_UnmarshalVT h b m)"
  unfolding RecordAddress_UnmarshalVT_def
proof (rule unmarshal_loop_returns [where I = "RecordAddress_wf h", OF assms(1) _ RecordAddress_default _ assms(3)])
  show "case_returns (RecordAddress_wf h) i (RecordAddress_switch h f w b i m)" if "RecordAddress_wf h m" for f w i m
    using that assms(2) by (auto simp: RecordAddress_switch_def RecordAddress_wf_def split: option.split intro!: case_returns)
qed (auto simp: RecordAddress_wf_def unknown_ok_append)

interpretation vt_RecordAddress: vt_message h "RecordAddress_MarshalToSizedBufferVT h" "RecordAddress_SizeVT h" "RecordAddress_UnmarshalVT h" RecordAddress_fresh
  "\<lambda>m. True" "RecordAddress_wf h" for h
  by unfold_locales
    (auto simp: RecordAddress_size RecordAddress_returns RecordAddress_fresh_wf, auto simp: RecordAddress_UnmarshalVT_def decodes_all RecordAddress_decodes,
      simp_all add: RecordAddress_MarshalToSizedBufferVT_def RecordAddress_SizeVT_def)

section \<open>Document: exact size and round trip\<close>

lemma Document_size:
  assumes "helpers_ok h"
  shows "Document_SizeVT h (Some m) = length (Document_MarshalToSizedBufferVT h (Some m))"
  by (simp add: Document_SizeVT_def Document_MarshalToSizedBufferVT_def 
      put_length [OF assms(1)] put_strings_length [OF assms(1)])

lemma Document_decodes:
  assumes ok: "helpers_ok h" and "Document_wf h m"
  shows "decodes (Document_loop h) (Document_MarshalToSizedBufferVT h (Some m)) Document_fresh m"
proof -
  let ?m = "\<lambda>x1 x2 u. \<lparr>pbDocument_Encoding = x1, pbDocument_Payload = x2, pbDocument_unknownFields = u\<rparr>"
  obtain x1 x2 u where m: "m = ?m x1 x2 u" and u: "unknown_ok h (Document_switch h) u"
    using assms(2) by (cases m) (auto simp: Document_wf_def)
  have d2: "decodes (Document_loop h) u (?m x1 x2 []) (?m x1 x2 u)"
    using decodes_unknown [OF u, where us = "[]" and upd = "?m x1 x2"] by simp
  let ?b1 = "put_bytes h 0x12 x2 u"
  have d1: "decodes (Document_loop h) ?b1 (?m x1 [] []) (?m x1 x2 u)"
    by (rule decodes_bytes [where nm = "''Payload''" and upd = "\<lambda>v. ?m x1 v []",
          OF ok _ _ _ _ _ d2]) (simp_all add: Document_switch_def)
  let ?b0 = "put_varint h 0x8 (scast x1) ?b1"
  have d0: "decodes (Document_loop h) ?b0 (?m 0 [] []) (?m x1 x2 u)"
    by (rule decodes_varint [where nm = "''Encoding''" and upd = "\<lambda>v. ?m v [] []",
          OF ok _ _ _ _ _ _ d1]) (simp_all add: Document_switch_def)
  show ?thesis using d0 by (simp add: m Document_MarshalToSizedBufferVT_def Document_fresh_def)
qed

lemma Document_default: "Document_switch h f w d i m = Default \<Longrightarrow> Document_switch h f w' d' i' m' = Default"
  by (auto simp: Document_switch_def split: if_splits)

lemma Document_fresh_wf: "Document_wf h Document_fresh"
  by (simp add: Document_wf_def Document_fresh_def)

lemma Document_returns:
  assumes "skip_ok h" and "length b < 2 ^ 63" and "Document_wf h m"
  shows "returns_with (Document_wf h) (Document_UnmarshalVT h b m)"
  unfolding Document_UnmarshalVT_def
proof (rule unmarshal_loop_returns [where I = "Document_wf h", OF assms(1) _ Document_default _ assms(3)])
  show "case_returns (Document_wf h) i (Document_switch h f w b i m)" if "Document_wf h m" for f w i m
    using that assms(2) by (auto simp: Document_switch_def Document_wf_def split: option.split intro!: case_returns)
qed (auto simp: Document_wf_def unknown_ok_append)

interpretation vt_Document: vt_message h "Document_MarshalToSizedBufferVT h" "Document_SizeVT h" "Document_UnmarshalVT h" Document_fresh
  "\<lambda>m. True" "Document_wf h" for h
  by unfold_locales
    (auto simp: Document_size Document_returns Document_fresh_wf, auto simp: Document_UnmarshalVT_def decodes_all Document_decodes,
      simp_all add: Document_MarshalToSizedBufferVT_def Document_SizeVT_def)

section \<open>RevisionToken: exact size and round trip\<close>

lemma RevisionToken_size:
  assumes "helpers_ok h"
  shows "RevisionToken_SizeVT h (Some m) = length (RevisionToken_MarshalToSizedBufferVT h (Some m))"
  by (simp add: RevisionToken_SizeVT_def RevisionToken_MarshalToSizedBufferVT_def 
      put_length [OF assms(1)] put_strings_length [OF assms(1)])

lemma RevisionToken_decodes:
  assumes ok: "helpers_ok h" and "RevisionToken_wf h m"
  shows "decodes (RevisionToken_loop h) (RevisionToken_MarshalToSizedBufferVT h (Some m)) RevisionToken_fresh m"
proof -
  let ?m = "\<lambda>x1 u. \<lparr>pbRevisionToken_Data = x1, pbRevisionToken_unknownFields = u\<rparr>"
  obtain x1 u where m: "m = ?m x1 u" and u: "unknown_ok h (RevisionToken_switch h) u"
    using assms(2) by (cases m) (auto simp: RevisionToken_wf_def)
  have d1: "decodes (RevisionToken_loop h) u (?m x1 []) (?m x1 u)"
    using decodes_unknown [OF u, where us = "[]" and upd = "?m x1"] by simp
  let ?b0 = "put_bytes h 0xa x1 u"
  have d0: "decodes (RevisionToken_loop h) ?b0 (?m [] []) (?m x1 u)"
    by (rule decodes_bytes [where nm = "''Data''" and upd = "\<lambda>v. ?m v []",
          OF ok _ _ _ _ _ d1]) (simp_all add: RevisionToken_switch_def)
  show ?thesis using d0 by (simp add: m RevisionToken_MarshalToSizedBufferVT_def RevisionToken_fresh_def)
qed

lemma RevisionToken_default: "RevisionToken_switch h f w d i m = Default \<Longrightarrow> RevisionToken_switch h f w' d' i' m' = Default"
  by (auto simp: RevisionToken_switch_def split: if_splits)

lemma RevisionToken_fresh_wf: "RevisionToken_wf h RevisionToken_fresh"
  by (simp add: RevisionToken_wf_def RevisionToken_fresh_def)

lemma RevisionToken_returns:
  assumes "skip_ok h" and "length b < 2 ^ 63" and "RevisionToken_wf h m"
  shows "returns_with (RevisionToken_wf h) (RevisionToken_UnmarshalVT h b m)"
  unfolding RevisionToken_UnmarshalVT_def
proof (rule unmarshal_loop_returns [where I = "RevisionToken_wf h", OF assms(1) _ RevisionToken_default _ assms(3)])
  show "case_returns (RevisionToken_wf h) i (RevisionToken_switch h f w b i m)" if "RevisionToken_wf h m" for f w i m
    using that assms(2) by (auto simp: RevisionToken_switch_def RevisionToken_wf_def split: option.split intro!: case_returns)
qed (auto simp: RevisionToken_wf_def unknown_ok_append)

interpretation vt_RevisionToken: vt_message h "RevisionToken_MarshalToSizedBufferVT h" "RevisionToken_SizeVT h" "RevisionToken_UnmarshalVT h" RevisionToken_fresh
  "\<lambda>m. True" "RevisionToken_wf h" for h
  by unfold_locales
    (auto simp: RevisionToken_size RevisionToken_returns RevisionToken_fresh_wf, auto simp: RevisionToken_UnmarshalVT_def decodes_all RevisionToken_decodes,
      simp_all add: RevisionToken_MarshalToSizedBufferVT_def RevisionToken_SizeVT_def)

section \<open>Failure: exact size and round trip\<close>

lemma Failure_size:
  assumes "helpers_ok h"
  shows "Failure_SizeVT h (Some m) = length (Failure_MarshalToSizedBufferVT h (Some m))"
  by (simp add: Failure_SizeVT_def Failure_MarshalToSizedBufferVT_def 
      put_length [OF assms(1)] put_strings_length [OF assms(1)])

lemma Failure_decodes:
  assumes ok: "helpers_ok h" and "Failure_wf h m"
  shows "decodes (Failure_loop h) (Failure_MarshalToSizedBufferVT h (Some m)) Failure_fresh m"
proof -
  let ?m = "\<lambda>x1 x2 x3 u. \<lparr>pbFailure_Code = x1, pbFailure_Message = x2, pbFailure_Retryable = x3, pbFailure_unknownFields = u\<rparr>"
  obtain x1 x2 x3 u where m: "m = ?m x1 x2 x3 u" and u: "unknown_ok h (Failure_switch h) u"
    using assms(2) by (cases m) (auto simp: Failure_wf_def)
  have d3: "decodes (Failure_loop h) u (?m x1 x2 x3 []) (?m x1 x2 x3 u)"
    using decodes_unknown [OF u, where us = "[]" and upd = "?m x1 x2 x3"] by simp
  let ?b2 = "put_bool 0x18 x3 u"
  have d2: "decodes (Failure_loop h) ?b2 (?m x1 x2 False []) (?m x1 x2 x3 u)"
    by (rule decodes_bool [where nm = "''Retryable''" and upd = "\<lambda>v. ?m x1 x2 v []",
          OF _ _ _ _ _ d3]) (simp_all add: Failure_switch_def)
  let ?b1 = "put_bytes h 0x12 x2 ?b2"
  have d1: "decodes (Failure_loop h) ?b1 (?m x1 [] False []) (?m x1 x2 x3 u)"
    by (rule decodes_bytes [where nm = "''Message''" and upd = "\<lambda>v. ?m x1 v False []",
          OF ok _ _ _ _ _ d2]) (simp_all add: Failure_switch_def)
  let ?b0 = "put_varint h 0x8 (scast x1) ?b1"
  have d0: "decodes (Failure_loop h) ?b0 (?m 0 [] False []) (?m x1 x2 x3 u)"
    by (rule decodes_varint [where nm = "''Code''" and upd = "\<lambda>v. ?m v [] False []",
          OF ok _ _ _ _ _ _ d1]) (simp_all add: Failure_switch_def)
  show ?thesis using d0 by (simp add: m Failure_MarshalToSizedBufferVT_def Failure_fresh_def)
qed

lemma Failure_default: "Failure_switch h f w d i m = Default \<Longrightarrow> Failure_switch h f w' d' i' m' = Default"
  by (auto simp: Failure_switch_def split: if_splits)

lemma Failure_fresh_wf: "Failure_wf h Failure_fresh"
  by (simp add: Failure_wf_def Failure_fresh_def)

lemma Failure_returns:
  assumes "skip_ok h" and "length b < 2 ^ 63" and "Failure_wf h m"
  shows "returns_with (Failure_wf h) (Failure_UnmarshalVT h b m)"
  unfolding Failure_UnmarshalVT_def
proof (rule unmarshal_loop_returns [where I = "Failure_wf h", OF assms(1) _ Failure_default _ assms(3)])
  show "case_returns (Failure_wf h) i (Failure_switch h f w b i m)" if "Failure_wf h m" for f w i m
    using that assms(2) by (auto simp: Failure_switch_def Failure_wf_def split: option.split intro!: case_returns)
qed (auto simp: Failure_wf_def unknown_ok_append)

interpretation vt_Failure: vt_message h "Failure_MarshalToSizedBufferVT h" "Failure_SizeVT h" "Failure_UnmarshalVT h" Failure_fresh
  "\<lambda>m. True" "Failure_wf h" for h
  by unfold_locales
    (auto simp: Failure_size Failure_returns Failure_fresh_wf, auto simp: Failure_UnmarshalVT_def decodes_all Failure_decodes,
      simp_all add: Failure_MarshalToSizedBufferVT_def Failure_SizeVT_def)

section \<open>ReadOperation: exact size and round trip\<close>

lemma ReadOperation_size:
  assumes "helpers_ok h"
  shows "ReadOperation_SizeVT h (Some m) = length (ReadOperation_MarshalToSizedBufferVT h (Some m))"
  by (simp add: ReadOperation_SizeVT_def ReadOperation_MarshalToSizedBufferVT_def 
      put_length [OF assms(1)] put_strings_length [OF assms(1)] vt_RecordAddress.put_field_length [OF assms(1)])

lemma ReadOperation_decodes:
  assumes ok: "helpers_ok h" and "ReadOperation_wf h m"
  shows "decodes (ReadOperation_loop h) (ReadOperation_MarshalToSizedBufferVT h (Some m)) ReadOperation_fresh m"
proof -
  let ?m = "\<lambda>x1 u. \<lparr>pbReadOperation_Address = x1, pbReadOperation_unknownFields = u\<rparr>"
  obtain x1 u where m: "m = ?m x1 u" and u: "unknown_ok h (ReadOperation_switch h) u"
    and wf: "opt_ok (RecordAddress_wf h) x1"
    using assms(2) by (cases m) (auto simp: ReadOperation_wf_def)
  have d1: "decodes (ReadOperation_loop h) u (?m x1 []) (?m x1 u)"
    using decodes_unknown [OF u, where us = "[]" and upd = "?m x1"] by simp
  let ?b0 = "put_message h 0xa (RecordAddress_MarshalToSizedBufferVT h) x1 u"
  have d0: "decodes (ReadOperation_loop h) ?b0 (?m None []) (?m x1 u)"
    by (rule decodes_message [where nm = "''Address''" and upd = "\<lambda>v. ?m v []",
          OF ok _ _ _ _ _ vt_RecordAddress.option_round_trip [OF ok wf(1)] d1]) (simp_all add: ReadOperation_switch_def)
  show ?thesis using d0 by (simp add: m ReadOperation_MarshalToSizedBufferVT_def ReadOperation_fresh_def)
qed

lemma ReadOperation_default: "ReadOperation_switch h f w d i m = Default \<Longrightarrow> ReadOperation_switch h f w' d' i' m' = Default"
  by (auto simp: ReadOperation_switch_def split: if_splits)

lemma ReadOperation_fresh_wf: "ReadOperation_wf h ReadOperation_fresh"
  by (simp add: ReadOperation_wf_def ReadOperation_fresh_def)

lemma ReadOperation_returns:
  assumes "skip_ok h" and "length b < 2 ^ 63" and "ReadOperation_wf h m"
  shows "returns_with (ReadOperation_wf h) (ReadOperation_UnmarshalVT h b m)"
  unfolding ReadOperation_UnmarshalVT_def
proof (rule unmarshal_loop_returns [where I = "ReadOperation_wf h", OF assms(1) _ ReadOperation_default _ assms(3)])
  show "case_returns (ReadOperation_wf h) i (ReadOperation_switch h f w b i m)" if "ReadOperation_wf h m" for f w i m
    using that assms(2) by (auto simp: ReadOperation_switch_def ReadOperation_wf_def vt_RecordAddress.fresh_wf split: option.split intro!: case_returns
      case_returns_message [where J = "RecordAddress_wf h"] vt_RecordAddress.returns [OF assms(1)])
qed (auto simp: ReadOperation_wf_def unknown_ok_append)

interpretation vt_ReadOperation: vt_message h "ReadOperation_MarshalToSizedBufferVT h" "ReadOperation_SizeVT h" "ReadOperation_UnmarshalVT h" ReadOperation_fresh
  "\<lambda>m. True" "ReadOperation_wf h" for h
  by unfold_locales
    (auto simp: ReadOperation_size ReadOperation_returns ReadOperation_fresh_wf, auto simp: ReadOperation_UnmarshalVT_def decodes_all ReadOperation_decodes,
      simp_all add: ReadOperation_MarshalToSizedBufferVT_def ReadOperation_SizeVT_def)

section \<open>ReadRequest: exact size and round trip\<close>

lemma ReadRequest_size:
  assumes "helpers_ok h"
  shows "ReadRequest_SizeVT h (Some m) = length (ReadRequest_MarshalToSizedBufferVT h (Some m))"
  by (simp add: ReadRequest_SizeVT_def ReadRequest_MarshalToSizedBufferVT_def 
      put_length [OF assms(1)] put_strings_length [OF assms(1)] vt_ReadOperation.put_fields_length [OF assms(1)])

lemma ReadRequest_decodes:
  assumes ok: "helpers_ok h" and "ReadRequest_wf h m"
  shows "decodes (ReadRequest_loop h) (ReadRequest_MarshalToSizedBufferVT h (Some m)) ReadRequest_fresh m"
proof -
  let ?m = "\<lambda>x1 u. \<lparr>pbReadRequest_Operations = x1, pbReadRequest_unknownFields = u\<rparr>"
  obtain x1 u where m: "m = ?m x1 u" and u: "unknown_ok h (ReadRequest_switch h) u"
    and wf: "each_ok (ReadOperation_wf h) x1"
    using assms(2) by (cases m) (auto simp: ReadRequest_wf_def)
  have d1: "decodes (ReadRequest_loop h) u (?m x1 []) (?m x1 u)"
    using decodes_unknown [OF u, where us = "[]" and upd = "?m x1"] by simp
  let ?b0 = "put_messages h 0xa (ReadOperation_MarshalToSizedBufferVT h) x1 u"
  have d0: "decodes (ReadRequest_loop h) ?b0 (?m [] []) (?m x1 u)"
    by (rule decodes_messages [where nm = "''Operations''" and upd = "\<lambda>v. ?m v []" and xs = "[]" and ms = x1, unfolded append_Nil,
          OF ok _ _ _ _ vt_ReadOperation.element_round_trip [OF ok wf(1)] d1]) (simp_all add: ReadRequest_switch_def)
  show ?thesis using d0 by (simp add: m ReadRequest_MarshalToSizedBufferVT_def ReadRequest_fresh_def)
qed

lemma ReadRequest_default: "ReadRequest_switch h f w d i m = Default \<Longrightarrow> ReadRequest_switch h f w' d' i' m' = Default"
  by (auto simp: ReadRequest_switch_def split: if_splits)

lemma ReadRequest_fresh_wf: "ReadRequest_wf h ReadRequest_fresh"
  by (simp add: ReadRequest_wf_def ReadRequest_fresh_def)

lemma ReadRequest_returns:
  assumes "skip_ok h" and "length b < 2 ^ 63" and "ReadRequest_wf h m"
  shows "returns_with (ReadRequest_wf h) (ReadRequest_UnmarshalVT h b m)"
  unfolding ReadRequest_UnmarshalVT_def
proof (rule unmarshal_loop_returns [where I = "ReadRequest_wf h", OF assms(1) _ ReadRequest_default _ assms(3)])
  show "case_returns (ReadRequest_wf h) i (ReadRequest_switch h f w b i m)" if "ReadRequest_wf h m" for f w i m
    using that assms(2) by (auto simp: ReadRequest_switch_def ReadRequest_wf_def vt_ReadOperation.fresh_wf split: option.split intro!: case_returns
      case_returns_message [where J = "ReadOperation_wf h"] vt_ReadOperation.returns [OF assms(1)])
qed (auto simp: ReadRequest_wf_def unknown_ok_append)

interpretation vt_ReadRequest: vt_message h "ReadRequest_MarshalToSizedBufferVT h" "ReadRequest_SizeVT h" "ReadRequest_UnmarshalVT h" ReadRequest_fresh
  "\<lambda>m. True" "ReadRequest_wf h" for h
  by unfold_locales
    (auto simp: ReadRequest_size ReadRequest_returns ReadRequest_fresh_wf, auto simp: ReadRequest_UnmarshalVT_def decodes_all ReadRequest_decodes,
      simp_all add: ReadRequest_MarshalToSizedBufferVT_def ReadRequest_SizeVT_def)

section \<open>ReadResult: exact size and round trip\<close>

lemma ReadResult_size:
  assumes "helpers_ok h"
  shows "ReadResult_SizeVT h (Some m) = length (ReadResult_MarshalToSizedBufferVT h (Some m))"
  by (simp add: ReadResult_SizeVT_def ReadResult_MarshalToSizedBufferVT_def 
      put_length [OF assms(1)] put_strings_length [OF assms(1)] vt_Document.put_field_length [OF assms(1)] vt_Failure.put_field_length [OF assms(1)] vt_RevisionToken.put_field_length [OF assms(1)])

lemma ReadResult_decodes:
  assumes ok: "helpers_ok h" and "ReadResult_wf h m"
  shows "decodes (ReadResult_loop h) (ReadResult_MarshalToSizedBufferVT h (Some m)) ReadResult_fresh m"
proof -
  let ?m = "\<lambda>x1 x2 x3 x4 x5 u. \<lparr>pbReadResult_OperationIndex = x1, pbReadResult_Status = x2, pbReadResult_Document = x3, pbReadResult_Revision = x4, pbReadResult_Failure = x5, pbReadResult_unknownFields = u\<rparr>"
  obtain x1 x2 x3 x4 x5 u where m: "m = ?m x1 x2 x3 x4 x5 u" and u: "unknown_ok h (ReadResult_switch h) u"
    and wf: "opt_ok (Document_wf h) x3" "opt_ok (RevisionToken_wf h) x4" "opt_ok (Failure_wf h) x5"
    using assms(2) by (cases m) (auto simp: ReadResult_wf_def)
  have d5: "decodes (ReadResult_loop h) u (?m x1 x2 x3 x4 x5 []) (?m x1 x2 x3 x4 x5 u)"
    using decodes_unknown [OF u, where us = "[]" and upd = "?m x1 x2 x3 x4 x5"] by simp
  let ?b4 = "put_message h 0x2a (Failure_MarshalToSizedBufferVT h) x5 u"
  have d4: "decodes (ReadResult_loop h) ?b4 (?m x1 x2 x3 x4 None []) (?m x1 x2 x3 x4 x5 u)"
    by (rule decodes_message [where nm = "''Failure''" and upd = "\<lambda>v. ?m x1 x2 x3 x4 v []",
          OF ok _ _ _ _ _ vt_Failure.option_round_trip [OF ok wf(3)] d5]) (simp_all add: ReadResult_switch_def)
  let ?b3 = "put_message h 0x22 (RevisionToken_MarshalToSizedBufferVT h) x4 ?b4"
  have d3: "decodes (ReadResult_loop h) ?b3 (?m x1 x2 x3 None None []) (?m x1 x2 x3 x4 x5 u)"
    by (rule decodes_message [where nm = "''Revision''" and upd = "\<lambda>v. ?m x1 x2 x3 v None []",
          OF ok _ _ _ _ _ vt_RevisionToken.option_round_trip [OF ok wf(2)] d4]) (simp_all add: ReadResult_switch_def)
  let ?b2 = "put_message h 0x1a (Document_MarshalToSizedBufferVT h) x3 ?b3"
  have d2: "decodes (ReadResult_loop h) ?b2 (?m x1 x2 None None None []) (?m x1 x2 x3 x4 x5 u)"
    by (rule decodes_message [where nm = "''Document''" and upd = "\<lambda>v. ?m x1 x2 v None None []",
          OF ok _ _ _ _ _ vt_Document.option_round_trip [OF ok wf(1)] d3]) (simp_all add: ReadResult_switch_def)
  let ?b1 = "put_varint h 0x10 (scast x2) ?b2"
  have d1: "decodes (ReadResult_loop h) ?b1 (?m x1 0 None None None []) (?m x1 x2 x3 x4 x5 u)"
    by (rule decodes_varint [where nm = "''Status''" and upd = "\<lambda>v. ?m x1 v None None None []",
          OF ok _ _ _ _ _ _ d2]) (simp_all add: ReadResult_switch_def)
  let ?b0 = "put_varint h 0x8 (ucast x1) ?b1"
  have d0: "decodes (ReadResult_loop h) ?b0 (?m 0 0 None None None []) (?m x1 x2 x3 x4 x5 u)"
    by (rule decodes_varint [where nm = "''OperationIndex''" and upd = "\<lambda>v. ?m v 0 None None None []",
          OF ok _ _ _ _ _ _ d1]) (simp_all add: ReadResult_switch_def)
  show ?thesis using d0 by (simp add: m ReadResult_MarshalToSizedBufferVT_def ReadResult_fresh_def)
qed

lemma ReadResult_default: "ReadResult_switch h f w d i m = Default \<Longrightarrow> ReadResult_switch h f w' d' i' m' = Default"
  by (auto simp: ReadResult_switch_def split: if_splits)

lemma ReadResult_fresh_wf: "ReadResult_wf h ReadResult_fresh"
  by (simp add: ReadResult_wf_def ReadResult_fresh_def)

lemma ReadResult_returns:
  assumes "skip_ok h" and "length b < 2 ^ 63" and "ReadResult_wf h m"
  shows "returns_with (ReadResult_wf h) (ReadResult_UnmarshalVT h b m)"
  unfolding ReadResult_UnmarshalVT_def
proof (rule unmarshal_loop_returns [where I = "ReadResult_wf h", OF assms(1) _ ReadResult_default _ assms(3)])
  show "case_returns (ReadResult_wf h) i (ReadResult_switch h f w b i m)" if "ReadResult_wf h m" for f w i m
    using that assms(2) by (auto simp: ReadResult_switch_def ReadResult_wf_def vt_Document.fresh_wf vt_Failure.fresh_wf vt_RevisionToken.fresh_wf split: option.split intro!: case_returns
      case_returns_message [where J = "Document_wf h"] vt_Document.returns [OF assms(1)]
      case_returns_message [where J = "Failure_wf h"] vt_Failure.returns [OF assms(1)]
      case_returns_message [where J = "RevisionToken_wf h"] vt_RevisionToken.returns [OF assms(1)])
qed (auto simp: ReadResult_wf_def unknown_ok_append)

interpretation vt_ReadResult: vt_message h "ReadResult_MarshalToSizedBufferVT h" "ReadResult_SizeVT h" "ReadResult_UnmarshalVT h" ReadResult_fresh
  "\<lambda>m. True" "ReadResult_wf h" for h
  by unfold_locales
    (auto simp: ReadResult_size ReadResult_returns ReadResult_fresh_wf, auto simp: ReadResult_UnmarshalVT_def decodes_all ReadResult_decodes,
      simp_all add: ReadResult_MarshalToSizedBufferVT_def ReadResult_SizeVT_def)

section \<open>ReadResponse: exact size and round trip\<close>

lemma ReadResponse_size:
  assumes "helpers_ok h"
  shows "ReadResponse_SizeVT h (Some m) = length (ReadResponse_MarshalToSizedBufferVT h (Some m))"
  by (simp add: ReadResponse_SizeVT_def ReadResponse_MarshalToSizedBufferVT_def 
      put_length [OF assms(1)] put_strings_length [OF assms(1)] vt_ReadResult.put_fields_length [OF assms(1)])

lemma ReadResponse_decodes:
  assumes ok: "helpers_ok h" and "ReadResponse_wf h m"
  shows "decodes (ReadResponse_loop h) (ReadResponse_MarshalToSizedBufferVT h (Some m)) ReadResponse_fresh m"
proof -
  let ?m = "\<lambda>x1 u. \<lparr>pbReadResponse_Results = x1, pbReadResponse_unknownFields = u\<rparr>"
  obtain x1 u where m: "m = ?m x1 u" and u: "unknown_ok h (ReadResponse_switch h) u"
    and wf: "each_ok (ReadResult_wf h) x1"
    using assms(2) by (cases m) (auto simp: ReadResponse_wf_def)
  have d1: "decodes (ReadResponse_loop h) u (?m x1 []) (?m x1 u)"
    using decodes_unknown [OF u, where us = "[]" and upd = "?m x1"] by simp
  let ?b0 = "put_messages h 0xa (ReadResult_MarshalToSizedBufferVT h) x1 u"
  have d0: "decodes (ReadResponse_loop h) ?b0 (?m [] []) (?m x1 u)"
    by (rule decodes_messages [where nm = "''Results''" and upd = "\<lambda>v. ?m v []" and xs = "[]" and ms = x1, unfolded append_Nil,
          OF ok _ _ _ _ vt_ReadResult.element_round_trip [OF ok wf(1)] d1]) (simp_all add: ReadResponse_switch_def)
  show ?thesis using d0 by (simp add: m ReadResponse_MarshalToSizedBufferVT_def ReadResponse_fresh_def)
qed

lemma ReadResponse_default: "ReadResponse_switch h f w d i m = Default \<Longrightarrow> ReadResponse_switch h f w' d' i' m' = Default"
  by (auto simp: ReadResponse_switch_def split: if_splits)

lemma ReadResponse_fresh_wf: "ReadResponse_wf h ReadResponse_fresh"
  by (simp add: ReadResponse_wf_def ReadResponse_fresh_def)

lemma ReadResponse_returns:
  assumes "skip_ok h" and "length b < 2 ^ 63" and "ReadResponse_wf h m"
  shows "returns_with (ReadResponse_wf h) (ReadResponse_UnmarshalVT h b m)"
  unfolding ReadResponse_UnmarshalVT_def
proof (rule unmarshal_loop_returns [where I = "ReadResponse_wf h", OF assms(1) _ ReadResponse_default _ assms(3)])
  show "case_returns (ReadResponse_wf h) i (ReadResponse_switch h f w b i m)" if "ReadResponse_wf h m" for f w i m
    using that assms(2) by (auto simp: ReadResponse_switch_def ReadResponse_wf_def vt_ReadResult.fresh_wf split: option.split intro!: case_returns
      case_returns_message [where J = "ReadResult_wf h"] vt_ReadResult.returns [OF assms(1)])
qed (auto simp: ReadResponse_wf_def unknown_ok_append)

interpretation vt_ReadResponse: vt_message h "ReadResponse_MarshalToSizedBufferVT h" "ReadResponse_SizeVT h" "ReadResponse_UnmarshalVT h" ReadResponse_fresh
  "\<lambda>m. True" "ReadResponse_wf h" for h
  by unfold_locales
    (auto simp: ReadResponse_size ReadResponse_returns ReadResponse_fresh_wf, auto simp: ReadResponse_UnmarshalVT_def decodes_all ReadResponse_decodes,
      simp_all add: ReadResponse_MarshalToSizedBufferVT_def ReadResponse_SizeVT_def)

end
