(* ===== verification/Vt_Write.thy ===== *)
theory Vt_Write
  imports Vt_Read
begin

text \<open>
  The messages of writing and deleting: Lua programs, put and merge operations, and the requests and responses of
  \<^verbatim>\<open>Write\<close> and \<^verbatim>\<open>Delete\<close>. The action of a write is a \<^verbatim>\<open>oneof\<close>, whose two wrapper types have methods of their own. Marshalling a
  nil wrapper panics, so the marshallers of write operations and requests are partial; \<open>_bytes\<close> is what they write when they return.
  One group of definitions per message, each the translation of the generated method of that name in
  \<^verbatim>\<open>api/sink/v1/sink_vtproto.pb.go\<close>: \<open>MarshalToSizedBufferVT\<close>, \<open>SizeVT\<close> and \<open>UnmarshalVT\<close>, the last split into the field switch and the loop
  around it; \<open>fresh\<close> is the message \<^verbatim>\<open>&T{}\<close>. Then, per message, that the size is exact and that reading inverts writing, as an
  interpretation of the interface that the messages containing it use.
\<close>

unbundle bit_operations_syntax

section \<open>LuaProgram\<close>

definition LuaProgram_MarshalToSizedBufferVT :: "protohelpers \<Rightarrow> pbLuaProgram option \<Rightarrow> bytes" where
  "LuaProgram_MarshalToSizedBufferVT h msg =
     (case msg of
        None \<Rightarrow> []
      | Some m \<Rightarrow>
          put_bytes h 0xa (pbLuaProgram_Source m) (
          put_bytes h 0x12 (pbLuaProgram_Sha256 m) (
          pbLuaProgram_unknownFields m)))"

definition LuaProgram_SizeVT :: "protohelpers \<Rightarrow> pbLuaProgram option \<Rightarrow> nat" where
  "LuaProgram_SizeVT h msg =
     (case msg of
        None \<Rightarrow> 0
      | Some m \<Rightarrow>
          size_bytes h (pbLuaProgram_Source m)
          + size_bytes h (pbLuaProgram_Sha256 m)
          + length (pbLuaProgram_unknownFields m))"

definition LuaProgram_fresh :: pbLuaProgram where
  "LuaProgram_fresh = \<lparr>pbLuaProgram_Source = [], pbLuaProgram_Sha256 = [], pbLuaProgram_unknownFields = []\<rparr>"

definition LuaProgram_switch :: "protohelpers \<Rightarrow> int \<Rightarrow> nat \<Rightarrow> bytes \<Rightarrow> nat \<Rightarrow> pbLuaProgram \<Rightarrow> pbLuaProgram field_case" where
  "LuaProgram_switch h fieldNum wireType dAtA iNdEx m =
     (if fieldNum = 1 then get_bytes ''Source'' wireType dAtA iNdEx (\<lambda>v. m\<lparr>pbLuaProgram_Source := v\<rparr>)
      else if fieldNum = 2 then get_bytes ''Sha256'' wireType dAtA iNdEx (\<lambda>v. m\<lparr>pbLuaProgram_Sha256 := v\<rparr>)
      else Default)"

abbreviation LuaProgram_loop :: "protohelpers \<Rightarrow> bytes \<Rightarrow> nat \<Rightarrow> pbLuaProgram \<Rightarrow> pbLuaProgram result option" where
  "LuaProgram_loop h \<equiv> unmarshal_loop h ''LuaProgram'' (LuaProgram_switch h)
     (\<lambda>b m. m\<lparr>pbLuaProgram_unknownFields := pbLuaProgram_unknownFields m @ b\<rparr>)"

definition LuaProgram_UnmarshalVT :: "protohelpers \<Rightarrow> bytes \<Rightarrow> pbLuaProgram \<Rightarrow> pbLuaProgram result option" where
  "LuaProgram_UnmarshalVT h dAtA m = LuaProgram_loop h dAtA 0 m"

definition LuaProgram_wf :: "protohelpers \<Rightarrow> pbLuaProgram \<Rightarrow> bool" where
  "LuaProgram_wf h m \<longleftrightarrow> unknown_ok h (LuaProgram_switch h) (pbLuaProgram_unknownFields m)"

section \<open>PutOperation\<close>

definition PutOperation_MarshalToSizedBufferVT :: "protohelpers \<Rightarrow> pbPutOperation option \<Rightarrow> bytes" where
  "PutOperation_MarshalToSizedBufferVT h msg =
     (case msg of
        None \<Rightarrow> []
      | Some m \<Rightarrow>
          put_message h 0xa (Document_MarshalToSizedBufferVT h) (pbPutOperation_Document m) (
          put_varint h 0x10 (scast (pbPutOperation_Mode m)) (
          pbPutOperation_unknownFields m)))"

definition PutOperation_SizeVT :: "protohelpers \<Rightarrow> pbPutOperation option \<Rightarrow> nat" where
  "PutOperation_SizeVT h msg =
     (case msg of
        None \<Rightarrow> 0
      | Some m \<Rightarrow>
          size_message h (Document_SizeVT h) (pbPutOperation_Document m)
          + size_varint h (scast (pbPutOperation_Mode m))
          + length (pbPutOperation_unknownFields m))"

definition PutOperation_fresh :: pbPutOperation where
  "PutOperation_fresh = \<lparr>pbPutOperation_Document = None, pbPutOperation_Mode = 0, pbPutOperation_unknownFields = []\<rparr>"

definition PutOperation_switch :: "protohelpers \<Rightarrow> int \<Rightarrow> nat \<Rightarrow> bytes \<Rightarrow> nat \<Rightarrow> pbPutOperation \<Rightarrow> pbPutOperation field_case" where
  "PutOperation_switch h fieldNum wireType dAtA iNdEx m =
     (if fieldNum = 1 then get_message ''Document'' wireType dAtA iNdEx
           (\<lambda>b. Document_UnmarshalVT h b (case pbPutOperation_Document m of None \<Rightarrow> Document_fresh | Some v \<Rightarrow> v)) (\<lambda>v. m\<lparr>pbPutOperation_Document := Some v\<rparr>)
      else if fieldNum = 2 then get_varint ''Mode'' wireType dAtA iNdEx (\<lambda>v. m\<lparr>pbPutOperation_Mode := v\<rparr>)
      else Default)"

abbreviation PutOperation_loop :: "protohelpers \<Rightarrow> bytes \<Rightarrow> nat \<Rightarrow> pbPutOperation \<Rightarrow> pbPutOperation result option" where
  "PutOperation_loop h \<equiv> unmarshal_loop h ''PutOperation'' (PutOperation_switch h)
     (\<lambda>b m. m\<lparr>pbPutOperation_unknownFields := pbPutOperation_unknownFields m @ b\<rparr>)"

definition PutOperation_UnmarshalVT :: "protohelpers \<Rightarrow> bytes \<Rightarrow> pbPutOperation \<Rightarrow> pbPutOperation result option" where
  "PutOperation_UnmarshalVT h dAtA m = PutOperation_loop h dAtA 0 m"

definition PutOperation_wf :: "protohelpers \<Rightarrow> pbPutOperation \<Rightarrow> bool" where
  "PutOperation_wf h m \<longleftrightarrow> unknown_ok h (PutOperation_switch h) (pbPutOperation_unknownFields m) \<and> opt_ok (Document_wf h) (pbPutOperation_Document m)"

section \<open>MergeOperation\<close>

definition MergeOperation_MarshalToSizedBufferVT :: "protohelpers \<Rightarrow> pbMergeOperation option \<Rightarrow> bytes" where
  "MergeOperation_MarshalToSizedBufferVT h msg =
     (case msg of
        None \<Rightarrow> []
      | Some m \<Rightarrow>
          put_message h 0xa (Document_MarshalToSizedBufferVT h) (pbMergeOperation_IncomingDocument m) (
          put_message h 0x12 (LuaProgram_MarshalToSizedBufferVT h) (pbMergeOperation_LuaProgram m) (
          pbMergeOperation_unknownFields m)))"

definition MergeOperation_SizeVT :: "protohelpers \<Rightarrow> pbMergeOperation option \<Rightarrow> nat" where
  "MergeOperation_SizeVT h msg =
     (case msg of
        None \<Rightarrow> 0
      | Some m \<Rightarrow>
          size_message h (Document_SizeVT h) (pbMergeOperation_IncomingDocument m)
          + size_message h (LuaProgram_SizeVT h) (pbMergeOperation_LuaProgram m)
          + length (pbMergeOperation_unknownFields m))"

definition MergeOperation_fresh :: pbMergeOperation where
  "MergeOperation_fresh = \<lparr>pbMergeOperation_IncomingDocument = None, pbMergeOperation_LuaProgram = None, pbMergeOperation_unknownFields = []\<rparr>"

definition MergeOperation_switch :: "protohelpers \<Rightarrow> int \<Rightarrow> nat \<Rightarrow> bytes \<Rightarrow> nat \<Rightarrow> pbMergeOperation \<Rightarrow> pbMergeOperation field_case" where
  "MergeOperation_switch h fieldNum wireType dAtA iNdEx m =
     (if fieldNum = 1 then get_message ''IncomingDocument'' wireType dAtA iNdEx
           (\<lambda>b. Document_UnmarshalVT h b (case pbMergeOperation_IncomingDocument m of None \<Rightarrow> Document_fresh | Some v \<Rightarrow> v)) (\<lambda>v. m\<lparr>pbMergeOperation_IncomingDocument := Some v\<rparr>)
      else if fieldNum = 2 then get_message ''LuaProgram'' wireType dAtA iNdEx
           (\<lambda>b. LuaProgram_UnmarshalVT h b (case pbMergeOperation_LuaProgram m of None \<Rightarrow> LuaProgram_fresh | Some v \<Rightarrow> v)) (\<lambda>v. m\<lparr>pbMergeOperation_LuaProgram := Some v\<rparr>)
      else Default)"

abbreviation MergeOperation_loop :: "protohelpers \<Rightarrow> bytes \<Rightarrow> nat \<Rightarrow> pbMergeOperation \<Rightarrow> pbMergeOperation result option" where
  "MergeOperation_loop h \<equiv> unmarshal_loop h ''MergeOperation'' (MergeOperation_switch h)
     (\<lambda>b m. m\<lparr>pbMergeOperation_unknownFields := pbMergeOperation_unknownFields m @ b\<rparr>)"

definition MergeOperation_UnmarshalVT :: "protohelpers \<Rightarrow> bytes \<Rightarrow> pbMergeOperation \<Rightarrow> pbMergeOperation result option" where
  "MergeOperation_UnmarshalVT h dAtA m = MergeOperation_loop h dAtA 0 m"

definition MergeOperation_wf :: "protohelpers \<Rightarrow> pbMergeOperation \<Rightarrow> bool" where
  "MergeOperation_wf h m \<longleftrightarrow> unknown_ok h (MergeOperation_switch h) (pbMergeOperation_unknownFields m) \<and> opt_ok (Document_wf h) (pbMergeOperation_IncomingDocument m) \<and> opt_ok (LuaProgram_wf h) (pbMergeOperation_LuaProgram m)"

section \<open>WriteOperation\<close>

text \<open>
  The wrappers of the \<^verbatim>\<open>oneof\<close>: \<open>MarshalToSizedBufferVT\<close> and \<open>SizeVT\<close> of \<^verbatim>\<open>WriteOperation_Put\<close> and
  \<^verbatim>\<open>WriteOperation_Merge\<close>, called through the interface when there is an action. The receiver is a pointer: \<open>SizeVT\<close> of
  a nil wrapper is 0, \<open>MarshalToSizedBufferVT\<close> reads its field and panics (\<^const>\<open>None\<close>).
\<close>

definition WriteOperation_Put_MarshalToSizedBufferVT ::
  "protohelpers \<Rightarrow> pbPutOperation option option \<Rightarrow> bytes \<Rightarrow> bytes option" where
  "WriteOperation_Put_MarshalToSizedBufferVT h m acc =
     (case m of
        None \<Rightarrow> None
      | Some put \<Rightarrow> Some (if put \<noteq> None then put_delimited h 0x12 (PutOperation_MarshalToSizedBufferVT h put) acc
          else chr 0x12 # ph_EncodeVarint h 0 @ acc))"

definition WriteOperation_Merge_MarshalToSizedBufferVT ::
  "protohelpers \<Rightarrow> pbMergeOperation option option \<Rightarrow> bytes \<Rightarrow> bytes option" where
  "WriteOperation_Merge_MarshalToSizedBufferVT h m acc =
     (case m of
        None \<Rightarrow> None
      | Some merge \<Rightarrow> Some (if merge \<noteq> None then put_delimited h 0x1a (MergeOperation_MarshalToSizedBufferVT h merge) acc
          else chr 0x1a # ph_EncodeVarint h 0 @ acc))"

definition WriteAction_MarshalToSizedBufferVT :: "protohelpers \<Rightarrow> pbWriteAction option \<Rightarrow> bytes \<Rightarrow> bytes option" where
  "WriteAction_MarshalToSizedBufferVT h action acc =
     (case action of
        None \<Rightarrow> Some acc
      | Some (WriteOperation_Put put) \<Rightarrow> WriteOperation_Put_MarshalToSizedBufferVT h put acc
      | Some (WriteOperation_Merge merge) \<Rightarrow> WriteOperation_Merge_MarshalToSizedBufferVT h merge acc)"

definition WriteOperation_Put_SizeVT :: "protohelpers \<Rightarrow> pbPutOperation option option \<Rightarrow> nat" where
  "WriteOperation_Put_SizeVT h m =
     (case m of
        None \<Rightarrow> 0
      | Some put \<Rightarrow> if put \<noteq> None then size_delimited h (PutOperation_SizeVT h put) else 3)"

definition WriteOperation_Merge_SizeVT :: "protohelpers \<Rightarrow> pbMergeOperation option option \<Rightarrow> nat" where
  "WriteOperation_Merge_SizeVT h m =
     (case m of
        None \<Rightarrow> 0
      | Some merge \<Rightarrow> if merge \<noteq> None then size_delimited h (MergeOperation_SizeVT h merge) else 3)"

definition WriteAction_SizeVT :: "protohelpers \<Rightarrow> pbWriteAction option \<Rightarrow> nat" where
  "WriteAction_SizeVT h action =
     (case action of
        None \<Rightarrow> 0
      | Some (WriteOperation_Put put) \<Rightarrow> WriteOperation_Put_SizeVT h put
      | Some (WriteOperation_Merge merge) \<Rightarrow> WriteOperation_Merge_SizeVT h merge)"

fun WriteAction_wf :: "protohelpers \<Rightarrow> pbWriteAction \<Rightarrow> bool" where
  "WriteAction_wf h (WriteOperation_Put (Some (Some put))) \<longleftrightarrow> PutOperation_wf h put"
| "WriteAction_wf h (WriteOperation_Merge (Some (Some merge))) \<longleftrightarrow> MergeOperation_wf h merge"
| "WriteAction_wf h action \<longleftrightarrow> False"

text \<open>
  Reading the case of the \<^verbatim>\<open>oneof\<close> that is already set goes on with its message. A nil wrapper panics (\<^const>\<open>None\<close>). When the
  wrapper's message is nil, the call has a nil receiver: it does nothing on empty data, and does not return normally on other data.
\<close>

definition read_into ::
  "(bytes \<Rightarrow> 'm \<Rightarrow> 'm result option) \<Rightarrow> bytes \<Rightarrow> 'm option option \<Rightarrow> 'm option result option" where
  "read_into unmarshal dAtA oneof =
     (case oneof of
        None \<Rightarrow> None
      | Some None \<Rightarrow> if dAtA = [] then Some (Inr None) else None
      | Some (Some v) \<Rightarrow> map_option (map_sum id Some) (unmarshal dAtA v))"

definition WriteOperation_MarshalToSizedBufferVT :: "protohelpers \<Rightarrow> pbWriteOperation option \<Rightarrow> bytes option" where
  "WriteOperation_MarshalToSizedBufferVT h msg =
     (case msg of
        None \<Rightarrow> Some []
      | Some m \<Rightarrow> map_option (\<lambda>acc.
          put_message h 0xa (RecordAddress_MarshalToSizedBufferVT h) (pbWriteOperation_Address m) (
          put_bool 0x20 (pbWriteOperation_ReturnDocument m) acc))
          (WriteAction_MarshalToSizedBufferVT h (pbWriteOperation_Action m) (
          pbWriteOperation_unknownFields m)))"

definition WriteOperation_SizeVT :: "protohelpers \<Rightarrow> pbWriteOperation option \<Rightarrow> nat" where
  "WriteOperation_SizeVT h msg =
     (case msg of
        None \<Rightarrow> 0
      | Some m \<Rightarrow>
          size_message h (RecordAddress_SizeVT h) (pbWriteOperation_Address m)
          + WriteAction_SizeVT h (pbWriteOperation_Action m)
          + size_bool (pbWriteOperation_ReturnDocument m)
          + length (pbWriteOperation_unknownFields m))"

definition WriteOperation_fresh :: pbWriteOperation where
  "WriteOperation_fresh = \<lparr>pbWriteOperation_Address = None, pbWriteOperation_ReturnDocument = False, pbWriteOperation_Action = None, pbWriteOperation_unknownFields = []\<rparr>"

definition WriteOperation_switch :: "protohelpers \<Rightarrow> int \<Rightarrow> nat \<Rightarrow> bytes \<Rightarrow> nat \<Rightarrow> pbWriteOperation \<Rightarrow> pbWriteOperation field_case" where
  "WriteOperation_switch h fieldNum wireType dAtA iNdEx m =
     (if fieldNum = 1 then get_message ''Address'' wireType dAtA iNdEx
           (\<lambda>b. RecordAddress_UnmarshalVT h b (case pbWriteOperation_Address m of None \<Rightarrow> RecordAddress_fresh | Some v \<Rightarrow> v)) (\<lambda>v. m\<lparr>pbWriteOperation_Address := Some v\<rparr>)
      else if fieldNum = 2 then get_message ''Put'' wireType dAtA iNdEx
           (\<lambda>b. read_into (PutOperation_UnmarshalVT h) b
              (case pbWriteOperation_Action m of Some (WriteOperation_Put oneof) \<Rightarrow> oneof | _ \<Rightarrow> Some (Some PutOperation_fresh)))
           (\<lambda>v. m\<lparr>pbWriteOperation_Action := Some (WriteOperation_Put (Some v))\<rparr>)
      else if fieldNum = 3 then get_message ''Merge'' wireType dAtA iNdEx
           (\<lambda>b. read_into (MergeOperation_UnmarshalVT h) b
              (case pbWriteOperation_Action m of Some (WriteOperation_Merge oneof) \<Rightarrow> oneof | _ \<Rightarrow> Some (Some MergeOperation_fresh)))
           (\<lambda>v. m\<lparr>pbWriteOperation_Action := Some (WriteOperation_Merge (Some v))\<rparr>)
      else if fieldNum = 4 then get_bool ''ReturnDocument'' wireType dAtA iNdEx (\<lambda>v. m\<lparr>pbWriteOperation_ReturnDocument := v\<rparr>)
      else Default)"

abbreviation WriteOperation_loop :: "protohelpers \<Rightarrow> bytes \<Rightarrow> nat \<Rightarrow> pbWriteOperation \<Rightarrow> pbWriteOperation result option" where
  "WriteOperation_loop h \<equiv> unmarshal_loop h ''WriteOperation'' (WriteOperation_switch h)
     (\<lambda>b m. m\<lparr>pbWriteOperation_unknownFields := pbWriteOperation_unknownFields m @ b\<rparr>)"

definition WriteOperation_UnmarshalVT :: "protohelpers \<Rightarrow> bytes \<Rightarrow> pbWriteOperation \<Rightarrow> pbWriteOperation result option" where
  "WriteOperation_UnmarshalVT h dAtA m = WriteOperation_loop h dAtA 0 m"

definition WriteOperation_wf :: "protohelpers \<Rightarrow> pbWriteOperation \<Rightarrow> bool" where
  "WriteOperation_wf h m \<longleftrightarrow> unknown_ok h (WriteOperation_switch h) (pbWriteOperation_unknownFields m) \<and> opt_ok (RecordAddress_wf h) (pbWriteOperation_Address m) \<and> opt_ok (WriteAction_wf h) (pbWriteOperation_Action m)"

text \<open>An operation without a nil wrapper, and one whose wrapper also has its message.\<close>

definition WriteOperation_complete :: "pbWriteOperation \<Rightarrow> bool" where
  "WriteOperation_complete m \<longleftrightarrow>
     pbWriteOperation_Action m \<notin> {Some (WriteOperation_Put None), Some (WriteOperation_Merge None)}"

definition WriteOperation_sized :: "pbWriteOperation \<Rightarrow> bool" where
  "WriteOperation_sized m \<longleftrightarrow> WriteOperation_complete m
     \<and> pbWriteOperation_Action m \<notin> {Some (WriteOperation_Put (Some None)), Some (WriteOperation_Merge (Some None))}"

section \<open>WriteRequest\<close>

definition WriteRequest_MarshalToSizedBufferVT :: "protohelpers \<Rightarrow> pbWriteRequest option \<Rightarrow> bytes option" where
  "WriteRequest_MarshalToSizedBufferVT h msg =
     (case msg of
        None \<Rightarrow> Some []
      | Some m \<Rightarrow> map_option (
          put_varint h 0x8 (scast (pbWriteRequest_CompletionMode m))) (
          put_partial_messages h 0x12 (WriteOperation_MarshalToSizedBufferVT h) (pbWriteRequest_Operations m) (
          put_messages h 0x1a (LuaProgram_MarshalToSizedBufferVT h) (pbWriteRequest_LuaPrograms m) (
          pbWriteRequest_unknownFields m))))"

definition WriteRequest_SizeVT :: "protohelpers \<Rightarrow> pbWriteRequest option \<Rightarrow> nat" where
  "WriteRequest_SizeVT h msg =
     (case msg of
        None \<Rightarrow> 0
      | Some m \<Rightarrow>
          size_varint h (scast (pbWriteRequest_CompletionMode m))
          + size_messages h (WriteOperation_SizeVT h) (pbWriteRequest_Operations m)
          + size_messages h (LuaProgram_SizeVT h) (pbWriteRequest_LuaPrograms m)
          + length (pbWriteRequest_unknownFields m))"

definition WriteRequest_fresh :: pbWriteRequest where
  "WriteRequest_fresh = \<lparr>pbWriteRequest_CompletionMode = 0, pbWriteRequest_Operations = [], pbWriteRequest_LuaPrograms = [], pbWriteRequest_unknownFields = []\<rparr>"

definition WriteRequest_switch :: "protohelpers \<Rightarrow> int \<Rightarrow> nat \<Rightarrow> bytes \<Rightarrow> nat \<Rightarrow> pbWriteRequest \<Rightarrow> pbWriteRequest field_case" where
  "WriteRequest_switch h fieldNum wireType dAtA iNdEx m =
     (if fieldNum = 1 then get_varint ''CompletionMode'' wireType dAtA iNdEx (\<lambda>v. m\<lparr>pbWriteRequest_CompletionMode := v\<rparr>)
      else if fieldNum = 2 then get_message ''Operations'' wireType dAtA iNdEx
           (\<lambda>b. WriteOperation_UnmarshalVT h b WriteOperation_fresh) (\<lambda>v. m\<lparr>pbWriteRequest_Operations := pbWriteRequest_Operations m @ [Some v]\<rparr>)
      else if fieldNum = 3 then get_message ''LuaPrograms'' wireType dAtA iNdEx
           (\<lambda>b. LuaProgram_UnmarshalVT h b LuaProgram_fresh) (\<lambda>v. m\<lparr>pbWriteRequest_LuaPrograms := pbWriteRequest_LuaPrograms m @ [Some v]\<rparr>)
      else Default)"

abbreviation WriteRequest_loop :: "protohelpers \<Rightarrow> bytes \<Rightarrow> nat \<Rightarrow> pbWriteRequest \<Rightarrow> pbWriteRequest result option" where
  "WriteRequest_loop h \<equiv> unmarshal_loop h ''WriteRequest'' (WriteRequest_switch h)
     (\<lambda>b m. m\<lparr>pbWriteRequest_unknownFields := pbWriteRequest_unknownFields m @ b\<rparr>)"

definition WriteRequest_UnmarshalVT :: "protohelpers \<Rightarrow> bytes \<Rightarrow> pbWriteRequest \<Rightarrow> pbWriteRequest result option" where
  "WriteRequest_UnmarshalVT h dAtA m = WriteRequest_loop h dAtA 0 m"

definition WriteRequest_wf :: "protohelpers \<Rightarrow> pbWriteRequest \<Rightarrow> bool" where
  "WriteRequest_wf h m \<longleftrightarrow> unknown_ok h (WriteRequest_switch h) (pbWriteRequest_unknownFields m) \<and> each_ok (WriteOperation_wf h) (pbWriteRequest_Operations m) \<and> each_ok (LuaProgram_wf h) (pbWriteRequest_LuaPrograms m)"

definition WriteRequest_complete :: "pbWriteRequest \<Rightarrow> bool" where
  "WriteRequest_complete m \<longleftrightarrow> list_all (opt_ok WriteOperation_complete) (pbWriteRequest_Operations m)"

definition WriteRequest_sized :: "pbWriteRequest \<Rightarrow> bool" where
  "WriteRequest_sized m \<longleftrightarrow> list_all (opt_ok WriteOperation_sized) (pbWriteRequest_Operations m)"

section \<open>WriteResult\<close>

definition WriteResult_MarshalToSizedBufferVT :: "protohelpers \<Rightarrow> pbWriteResult option \<Rightarrow> bytes" where
  "WriteResult_MarshalToSizedBufferVT h msg =
     (case msg of
        None \<Rightarrow> []
      | Some m \<Rightarrow>
          put_varint h 0x8 (ucast (pbWriteResult_OperationIndex m)) (
          put_varint h 0x10 (scast (pbWriteResult_Status m)) (
          put_message h 0x1a (RevisionToken_MarshalToSizedBufferVT h) (pbWriteResult_Revision m) (
          put_message h 0x22 (Failure_MarshalToSizedBufferVT h) (pbWriteResult_Failure m) (
          put_message h 0x2a (Document_MarshalToSizedBufferVT h) (pbWriteResult_Document m) (
          pbWriteResult_unknownFields m))))))"

definition WriteResult_SizeVT :: "protohelpers \<Rightarrow> pbWriteResult option \<Rightarrow> nat" where
  "WriteResult_SizeVT h msg =
     (case msg of
        None \<Rightarrow> 0
      | Some m \<Rightarrow>
          size_varint h (ucast (pbWriteResult_OperationIndex m))
          + size_varint h (scast (pbWriteResult_Status m))
          + size_message h (RevisionToken_SizeVT h) (pbWriteResult_Revision m)
          + size_message h (Failure_SizeVT h) (pbWriteResult_Failure m)
          + size_message h (Document_SizeVT h) (pbWriteResult_Document m)
          + length (pbWriteResult_unknownFields m))"

definition WriteResult_fresh :: pbWriteResult where
  "WriteResult_fresh = \<lparr>pbWriteResult_OperationIndex = 0, pbWriteResult_Status = 0, pbWriteResult_Revision = None, pbWriteResult_Failure = None, pbWriteResult_Document = None, pbWriteResult_unknownFields = []\<rparr>"

definition WriteResult_switch :: "protohelpers \<Rightarrow> int \<Rightarrow> nat \<Rightarrow> bytes \<Rightarrow> nat \<Rightarrow> pbWriteResult \<Rightarrow> pbWriteResult field_case" where
  "WriteResult_switch h fieldNum wireType dAtA iNdEx m =
     (if fieldNum = 1 then get_varint ''OperationIndex'' wireType dAtA iNdEx (\<lambda>v. m\<lparr>pbWriteResult_OperationIndex := v\<rparr>)
      else if fieldNum = 2 then get_varint ''Status'' wireType dAtA iNdEx (\<lambda>v. m\<lparr>pbWriteResult_Status := v\<rparr>)
      else if fieldNum = 3 then get_message ''Revision'' wireType dAtA iNdEx
           (\<lambda>b. RevisionToken_UnmarshalVT h b (case pbWriteResult_Revision m of None \<Rightarrow> RevisionToken_fresh | Some v \<Rightarrow> v)) (\<lambda>v. m\<lparr>pbWriteResult_Revision := Some v\<rparr>)
      else if fieldNum = 4 then get_message ''Failure'' wireType dAtA iNdEx
           (\<lambda>b. Failure_UnmarshalVT h b (case pbWriteResult_Failure m of None \<Rightarrow> Failure_fresh | Some v \<Rightarrow> v)) (\<lambda>v. m\<lparr>pbWriteResult_Failure := Some v\<rparr>)
      else if fieldNum = 5 then get_message ''Document'' wireType dAtA iNdEx
           (\<lambda>b. Document_UnmarshalVT h b (case pbWriteResult_Document m of None \<Rightarrow> Document_fresh | Some v \<Rightarrow> v)) (\<lambda>v. m\<lparr>pbWriteResult_Document := Some v\<rparr>)
      else Default)"

abbreviation WriteResult_loop :: "protohelpers \<Rightarrow> bytes \<Rightarrow> nat \<Rightarrow> pbWriteResult \<Rightarrow> pbWriteResult result option" where
  "WriteResult_loop h \<equiv> unmarshal_loop h ''WriteResult'' (WriteResult_switch h)
     (\<lambda>b m. m\<lparr>pbWriteResult_unknownFields := pbWriteResult_unknownFields m @ b\<rparr>)"

definition WriteResult_UnmarshalVT :: "protohelpers \<Rightarrow> bytes \<Rightarrow> pbWriteResult \<Rightarrow> pbWriteResult result option" where
  "WriteResult_UnmarshalVT h dAtA m = WriteResult_loop h dAtA 0 m"

definition WriteResult_wf :: "protohelpers \<Rightarrow> pbWriteResult \<Rightarrow> bool" where
  "WriteResult_wf h m \<longleftrightarrow> unknown_ok h (WriteResult_switch h) (pbWriteResult_unknownFields m) \<and> opt_ok (RevisionToken_wf h) (pbWriteResult_Revision m) \<and> opt_ok (Failure_wf h) (pbWriteResult_Failure m) \<and> opt_ok (Document_wf h) (pbWriteResult_Document m)"

section \<open>WriteResponse\<close>

definition WriteResponse_MarshalToSizedBufferVT :: "protohelpers \<Rightarrow> pbWriteResponse option \<Rightarrow> bytes" where
  "WriteResponse_MarshalToSizedBufferVT h msg =
     (case msg of
        None \<Rightarrow> []
      | Some m \<Rightarrow>
          put_messages h 0xa (WriteResult_MarshalToSizedBufferVT h) (pbWriteResponse_Results m) (
          pbWriteResponse_unknownFields m))"

definition WriteResponse_SizeVT :: "protohelpers \<Rightarrow> pbWriteResponse option \<Rightarrow> nat" where
  "WriteResponse_SizeVT h msg =
     (case msg of
        None \<Rightarrow> 0
      | Some m \<Rightarrow>
          size_messages h (WriteResult_SizeVT h) (pbWriteResponse_Results m)
          + length (pbWriteResponse_unknownFields m))"

definition WriteResponse_fresh :: pbWriteResponse where
  "WriteResponse_fresh = \<lparr>pbWriteResponse_Results = [], pbWriteResponse_unknownFields = []\<rparr>"

definition WriteResponse_switch :: "protohelpers \<Rightarrow> int \<Rightarrow> nat \<Rightarrow> bytes \<Rightarrow> nat \<Rightarrow> pbWriteResponse \<Rightarrow> pbWriteResponse field_case" where
  "WriteResponse_switch h fieldNum wireType dAtA iNdEx m =
     (if fieldNum = 1 then get_message ''Results'' wireType dAtA iNdEx
           (\<lambda>b. WriteResult_UnmarshalVT h b WriteResult_fresh) (\<lambda>v. m\<lparr>pbWriteResponse_Results := pbWriteResponse_Results m @ [Some v]\<rparr>)
      else Default)"

abbreviation WriteResponse_loop :: "protohelpers \<Rightarrow> bytes \<Rightarrow> nat \<Rightarrow> pbWriteResponse \<Rightarrow> pbWriteResponse result option" where
  "WriteResponse_loop h \<equiv> unmarshal_loop h ''WriteResponse'' (WriteResponse_switch h)
     (\<lambda>b m. m\<lparr>pbWriteResponse_unknownFields := pbWriteResponse_unknownFields m @ b\<rparr>)"

definition WriteResponse_UnmarshalVT :: "protohelpers \<Rightarrow> bytes \<Rightarrow> pbWriteResponse \<Rightarrow> pbWriteResponse result option" where
  "WriteResponse_UnmarshalVT h dAtA m = WriteResponse_loop h dAtA 0 m"

definition WriteResponse_wf :: "protohelpers \<Rightarrow> pbWriteResponse \<Rightarrow> bool" where
  "WriteResponse_wf h m \<longleftrightarrow> unknown_ok h (WriteResponse_switch h) (pbWriteResponse_unknownFields m) \<and> each_ok (WriteResult_wf h) (pbWriteResponse_Results m)"

section \<open>DeleteOperation\<close>

definition DeleteOperation_MarshalToSizedBufferVT :: "protohelpers \<Rightarrow> pbDeleteOperation option \<Rightarrow> bytes" where
  "DeleteOperation_MarshalToSizedBufferVT h msg =
     (case msg of
        None \<Rightarrow> []
      | Some m \<Rightarrow>
          put_message h 0xa (RecordAddress_MarshalToSizedBufferVT h) (pbDeleteOperation_Address m) (
          pbDeleteOperation_unknownFields m))"

definition DeleteOperation_SizeVT :: "protohelpers \<Rightarrow> pbDeleteOperation option \<Rightarrow> nat" where
  "DeleteOperation_SizeVT h msg =
     (case msg of
        None \<Rightarrow> 0
      | Some m \<Rightarrow>
          size_message h (RecordAddress_SizeVT h) (pbDeleteOperation_Address m)
          + length (pbDeleteOperation_unknownFields m))"

definition DeleteOperation_fresh :: pbDeleteOperation where
  "DeleteOperation_fresh = \<lparr>pbDeleteOperation_Address = None, pbDeleteOperation_unknownFields = []\<rparr>"

definition DeleteOperation_switch :: "protohelpers \<Rightarrow> int \<Rightarrow> nat \<Rightarrow> bytes \<Rightarrow> nat \<Rightarrow> pbDeleteOperation \<Rightarrow> pbDeleteOperation field_case" where
  "DeleteOperation_switch h fieldNum wireType dAtA iNdEx m =
     (if fieldNum = 1 then get_message ''Address'' wireType dAtA iNdEx
           (\<lambda>b. RecordAddress_UnmarshalVT h b (case pbDeleteOperation_Address m of None \<Rightarrow> RecordAddress_fresh | Some v \<Rightarrow> v)) (\<lambda>v. m\<lparr>pbDeleteOperation_Address := Some v\<rparr>)
      else Default)"

abbreviation DeleteOperation_loop :: "protohelpers \<Rightarrow> bytes \<Rightarrow> nat \<Rightarrow> pbDeleteOperation \<Rightarrow> pbDeleteOperation result option" where
  "DeleteOperation_loop h \<equiv> unmarshal_loop h ''DeleteOperation'' (DeleteOperation_switch h)
     (\<lambda>b m. m\<lparr>pbDeleteOperation_unknownFields := pbDeleteOperation_unknownFields m @ b\<rparr>)"

definition DeleteOperation_UnmarshalVT :: "protohelpers \<Rightarrow> bytes \<Rightarrow> pbDeleteOperation \<Rightarrow> pbDeleteOperation result option" where
  "DeleteOperation_UnmarshalVT h dAtA m = DeleteOperation_loop h dAtA 0 m"

definition DeleteOperation_wf :: "protohelpers \<Rightarrow> pbDeleteOperation \<Rightarrow> bool" where
  "DeleteOperation_wf h m \<longleftrightarrow> unknown_ok h (DeleteOperation_switch h) (pbDeleteOperation_unknownFields m) \<and> opt_ok (RecordAddress_wf h) (pbDeleteOperation_Address m)"

section \<open>DeleteRequest\<close>

definition DeleteRequest_MarshalToSizedBufferVT :: "protohelpers \<Rightarrow> pbDeleteRequest option \<Rightarrow> bytes" where
  "DeleteRequest_MarshalToSizedBufferVT h msg =
     (case msg of
        None \<Rightarrow> []
      | Some m \<Rightarrow>
          put_varint h 0x8 (scast (pbDeleteRequest_CompletionMode m)) (
          put_messages h 0x12 (DeleteOperation_MarshalToSizedBufferVT h) (pbDeleteRequest_Operations m) (
          pbDeleteRequest_unknownFields m)))"

definition DeleteRequest_SizeVT :: "protohelpers \<Rightarrow> pbDeleteRequest option \<Rightarrow> nat" where
  "DeleteRequest_SizeVT h msg =
     (case msg of
        None \<Rightarrow> 0
      | Some m \<Rightarrow>
          size_varint h (scast (pbDeleteRequest_CompletionMode m))
          + size_messages h (DeleteOperation_SizeVT h) (pbDeleteRequest_Operations m)
          + length (pbDeleteRequest_unknownFields m))"

definition DeleteRequest_fresh :: pbDeleteRequest where
  "DeleteRequest_fresh = \<lparr>pbDeleteRequest_CompletionMode = 0, pbDeleteRequest_Operations = [], pbDeleteRequest_unknownFields = []\<rparr>"

definition DeleteRequest_switch :: "protohelpers \<Rightarrow> int \<Rightarrow> nat \<Rightarrow> bytes \<Rightarrow> nat \<Rightarrow> pbDeleteRequest \<Rightarrow> pbDeleteRequest field_case" where
  "DeleteRequest_switch h fieldNum wireType dAtA iNdEx m =
     (if fieldNum = 1 then get_varint ''CompletionMode'' wireType dAtA iNdEx (\<lambda>v. m\<lparr>pbDeleteRequest_CompletionMode := v\<rparr>)
      else if fieldNum = 2 then get_message ''Operations'' wireType dAtA iNdEx
           (\<lambda>b. DeleteOperation_UnmarshalVT h b DeleteOperation_fresh) (\<lambda>v. m\<lparr>pbDeleteRequest_Operations := pbDeleteRequest_Operations m @ [Some v]\<rparr>)
      else Default)"

abbreviation DeleteRequest_loop :: "protohelpers \<Rightarrow> bytes \<Rightarrow> nat \<Rightarrow> pbDeleteRequest \<Rightarrow> pbDeleteRequest result option" where
  "DeleteRequest_loop h \<equiv> unmarshal_loop h ''DeleteRequest'' (DeleteRequest_switch h)
     (\<lambda>b m. m\<lparr>pbDeleteRequest_unknownFields := pbDeleteRequest_unknownFields m @ b\<rparr>)"

definition DeleteRequest_UnmarshalVT :: "protohelpers \<Rightarrow> bytes \<Rightarrow> pbDeleteRequest \<Rightarrow> pbDeleteRequest result option" where
  "DeleteRequest_UnmarshalVT h dAtA m = DeleteRequest_loop h dAtA 0 m"

definition DeleteRequest_wf :: "protohelpers \<Rightarrow> pbDeleteRequest \<Rightarrow> bool" where
  "DeleteRequest_wf h m \<longleftrightarrow> unknown_ok h (DeleteRequest_switch h) (pbDeleteRequest_unknownFields m) \<and> each_ok (DeleteOperation_wf h) (pbDeleteRequest_Operations m)"

section \<open>DeleteResult\<close>

definition DeleteResult_MarshalToSizedBufferVT :: "protohelpers \<Rightarrow> pbDeleteResult option \<Rightarrow> bytes" where
  "DeleteResult_MarshalToSizedBufferVT h msg =
     (case msg of
        None \<Rightarrow> []
      | Some m \<Rightarrow>
          put_varint h 0x8 (ucast (pbDeleteResult_OperationIndex m)) (
          put_varint h 0x10 (scast (pbDeleteResult_Status m)) (
          put_message h 0x1a (Failure_MarshalToSizedBufferVT h) (pbDeleteResult_Failure m) (
          pbDeleteResult_unknownFields m))))"

definition DeleteResult_SizeVT :: "protohelpers \<Rightarrow> pbDeleteResult option \<Rightarrow> nat" where
  "DeleteResult_SizeVT h msg =
     (case msg of
        None \<Rightarrow> 0
      | Some m \<Rightarrow>
          size_varint h (ucast (pbDeleteResult_OperationIndex m))
          + size_varint h (scast (pbDeleteResult_Status m))
          + size_message h (Failure_SizeVT h) (pbDeleteResult_Failure m)
          + length (pbDeleteResult_unknownFields m))"

definition DeleteResult_fresh :: pbDeleteResult where
  "DeleteResult_fresh = \<lparr>pbDeleteResult_OperationIndex = 0, pbDeleteResult_Status = 0, pbDeleteResult_Failure = None, pbDeleteResult_unknownFields = []\<rparr>"

definition DeleteResult_switch :: "protohelpers \<Rightarrow> int \<Rightarrow> nat \<Rightarrow> bytes \<Rightarrow> nat \<Rightarrow> pbDeleteResult \<Rightarrow> pbDeleteResult field_case" where
  "DeleteResult_switch h fieldNum wireType dAtA iNdEx m =
     (if fieldNum = 1 then get_varint ''OperationIndex'' wireType dAtA iNdEx (\<lambda>v. m\<lparr>pbDeleteResult_OperationIndex := v\<rparr>)
      else if fieldNum = 2 then get_varint ''Status'' wireType dAtA iNdEx (\<lambda>v. m\<lparr>pbDeleteResult_Status := v\<rparr>)
      else if fieldNum = 3 then get_message ''Failure'' wireType dAtA iNdEx
           (\<lambda>b. Failure_UnmarshalVT h b (case pbDeleteResult_Failure m of None \<Rightarrow> Failure_fresh | Some v \<Rightarrow> v)) (\<lambda>v. m\<lparr>pbDeleteResult_Failure := Some v\<rparr>)
      else Default)"

abbreviation DeleteResult_loop :: "protohelpers \<Rightarrow> bytes \<Rightarrow> nat \<Rightarrow> pbDeleteResult \<Rightarrow> pbDeleteResult result option" where
  "DeleteResult_loop h \<equiv> unmarshal_loop h ''DeleteResult'' (DeleteResult_switch h)
     (\<lambda>b m. m\<lparr>pbDeleteResult_unknownFields := pbDeleteResult_unknownFields m @ b\<rparr>)"

definition DeleteResult_UnmarshalVT :: "protohelpers \<Rightarrow> bytes \<Rightarrow> pbDeleteResult \<Rightarrow> pbDeleteResult result option" where
  "DeleteResult_UnmarshalVT h dAtA m = DeleteResult_loop h dAtA 0 m"

definition DeleteResult_wf :: "protohelpers \<Rightarrow> pbDeleteResult \<Rightarrow> bool" where
  "DeleteResult_wf h m \<longleftrightarrow> unknown_ok h (DeleteResult_switch h) (pbDeleteResult_unknownFields m) \<and> opt_ok (Failure_wf h) (pbDeleteResult_Failure m)"

section \<open>DeleteResponse\<close>

definition DeleteResponse_MarshalToSizedBufferVT :: "protohelpers \<Rightarrow> pbDeleteResponse option \<Rightarrow> bytes" where
  "DeleteResponse_MarshalToSizedBufferVT h msg =
     (case msg of
        None \<Rightarrow> []
      | Some m \<Rightarrow>
          put_messages h 0xa (DeleteResult_MarshalToSizedBufferVT h) (pbDeleteResponse_Results m) (
          pbDeleteResponse_unknownFields m))"

definition DeleteResponse_SizeVT :: "protohelpers \<Rightarrow> pbDeleteResponse option \<Rightarrow> nat" where
  "DeleteResponse_SizeVT h msg =
     (case msg of
        None \<Rightarrow> 0
      | Some m \<Rightarrow>
          size_messages h (DeleteResult_SizeVT h) (pbDeleteResponse_Results m)
          + length (pbDeleteResponse_unknownFields m))"

definition DeleteResponse_fresh :: pbDeleteResponse where
  "DeleteResponse_fresh = \<lparr>pbDeleteResponse_Results = [], pbDeleteResponse_unknownFields = []\<rparr>"

definition DeleteResponse_switch :: "protohelpers \<Rightarrow> int \<Rightarrow> nat \<Rightarrow> bytes \<Rightarrow> nat \<Rightarrow> pbDeleteResponse \<Rightarrow> pbDeleteResponse field_case" where
  "DeleteResponse_switch h fieldNum wireType dAtA iNdEx m =
     (if fieldNum = 1 then get_message ''Results'' wireType dAtA iNdEx
           (\<lambda>b. DeleteResult_UnmarshalVT h b DeleteResult_fresh) (\<lambda>v. m\<lparr>pbDeleteResponse_Results := pbDeleteResponse_Results m @ [Some v]\<rparr>)
      else Default)"

abbreviation DeleteResponse_loop :: "protohelpers \<Rightarrow> bytes \<Rightarrow> nat \<Rightarrow> pbDeleteResponse \<Rightarrow> pbDeleteResponse result option" where
  "DeleteResponse_loop h \<equiv> unmarshal_loop h ''DeleteResponse'' (DeleteResponse_switch h)
     (\<lambda>b m. m\<lparr>pbDeleteResponse_unknownFields := pbDeleteResponse_unknownFields m @ b\<rparr>)"

definition DeleteResponse_UnmarshalVT :: "protohelpers \<Rightarrow> bytes \<Rightarrow> pbDeleteResponse \<Rightarrow> pbDeleteResponse result option" where
  "DeleteResponse_UnmarshalVT h dAtA m = DeleteResponse_loop h dAtA 0 m"

definition DeleteResponse_wf :: "protohelpers \<Rightarrow> pbDeleteResponse \<Rightarrow> bool" where
  "DeleteResponse_wf h m \<longleftrightarrow> unknown_ok h (DeleteResponse_switch h) (pbDeleteResponse_unknownFields m) \<and> each_ok (DeleteResult_wf h) (pbDeleteResponse_Results m)"

section \<open>LuaProgram: exact size and round trip\<close>

lemma LuaProgram_size:
  assumes "helpers_ok h"
  shows "LuaProgram_SizeVT h (Some m) = length (LuaProgram_MarshalToSizedBufferVT h (Some m))"
  by (simp add: LuaProgram_SizeVT_def LuaProgram_MarshalToSizedBufferVT_def 
      put_length [OF assms(1)] put_strings_length [OF assms(1)])

lemma LuaProgram_decodes:
  assumes ok: "helpers_ok h" and "LuaProgram_wf h m"
  shows "decodes (LuaProgram_loop h) (LuaProgram_MarshalToSizedBufferVT h (Some m)) LuaProgram_fresh m"
proof -
  let ?m = "\<lambda>x1 x2 u. \<lparr>pbLuaProgram_Source = x1, pbLuaProgram_Sha256 = x2, pbLuaProgram_unknownFields = u\<rparr>"
  obtain x1 x2 u where m: "m = ?m x1 x2 u" and u: "unknown_ok h (LuaProgram_switch h) u"
    using assms(2) by (cases m) (auto simp: LuaProgram_wf_def)
  have d2: "decodes (LuaProgram_loop h) u (?m x1 x2 []) (?m x1 x2 u)"
    using decodes_unknown [OF u, where us = "[]" and upd = "?m x1 x2"] by simp
  let ?b1 = "put_bytes h 0x12 x2 u"
  have d1: "decodes (LuaProgram_loop h) ?b1 (?m x1 [] []) (?m x1 x2 u)"
    by (rule decodes_bytes [where nm = "''Sha256''" and upd = "\<lambda>v. ?m x1 v []",
          OF ok _ _ _ _ _ d2]) (simp_all add: LuaProgram_switch_def)
  let ?b0 = "put_bytes h 0xa x1 ?b1"
  have d0: "decodes (LuaProgram_loop h) ?b0 (?m [] [] []) (?m x1 x2 u)"
    by (rule decodes_bytes [where nm = "''Source''" and upd = "\<lambda>v. ?m v [] []",
          OF ok _ _ _ _ _ d1]) (simp_all add: LuaProgram_switch_def)
  show ?thesis using d0 by (simp add: m LuaProgram_MarshalToSizedBufferVT_def LuaProgram_fresh_def)
qed

lemma LuaProgram_default: "LuaProgram_switch h f w d i m = Default \<Longrightarrow> LuaProgram_switch h f w' d' i' m' = Default"
  by (auto simp: LuaProgram_switch_def split: if_splits)

lemma LuaProgram_fresh_wf: "LuaProgram_wf h LuaProgram_fresh"
  by (simp add: LuaProgram_wf_def LuaProgram_fresh_def)

lemma LuaProgram_returns:
  assumes "skip_ok h" and "length b < 2 ^ 63" and "LuaProgram_wf h m"
  shows "returns_with (LuaProgram_wf h) (LuaProgram_UnmarshalVT h b m)"
  unfolding LuaProgram_UnmarshalVT_def
proof (rule unmarshal_loop_returns [where I = "LuaProgram_wf h", OF assms(1) _ LuaProgram_default _ assms(3)])
  show "case_returns (LuaProgram_wf h) i (LuaProgram_switch h f w b i m)" if "LuaProgram_wf h m" for f w i m
    using that assms(2) by (auto simp: LuaProgram_switch_def LuaProgram_wf_def split: option.split intro!: case_returns)
qed (auto simp: LuaProgram_wf_def unknown_ok_append)

interpretation vt_LuaProgram: vt_message h "LuaProgram_MarshalToSizedBufferVT h" "LuaProgram_SizeVT h" "LuaProgram_UnmarshalVT h" LuaProgram_fresh
  "\<lambda>m. True" "LuaProgram_wf h" for h
  by unfold_locales
    (auto simp: LuaProgram_size LuaProgram_returns LuaProgram_fresh_wf, auto simp: LuaProgram_UnmarshalVT_def decodes_all LuaProgram_decodes,
      simp_all add: LuaProgram_MarshalToSizedBufferVT_def LuaProgram_SizeVT_def)

section \<open>PutOperation: exact size and round trip\<close>

lemma PutOperation_size:
  assumes "helpers_ok h"
  shows "PutOperation_SizeVT h (Some m) = length (PutOperation_MarshalToSizedBufferVT h (Some m))"
  by (simp add: PutOperation_SizeVT_def PutOperation_MarshalToSizedBufferVT_def 
      put_length [OF assms(1)] put_strings_length [OF assms(1)] vt_Document.put_field_length [OF assms(1)])

lemma PutOperation_decodes:
  assumes ok: "helpers_ok h" and "PutOperation_wf h m"
  shows "decodes (PutOperation_loop h) (PutOperation_MarshalToSizedBufferVT h (Some m)) PutOperation_fresh m"
proof -
  let ?m = "\<lambda>x1 x2 u. \<lparr>pbPutOperation_Document = x1, pbPutOperation_Mode = x2, pbPutOperation_unknownFields = u\<rparr>"
  obtain x1 x2 u where m: "m = ?m x1 x2 u" and u: "unknown_ok h (PutOperation_switch h) u"
    and wf: "opt_ok (Document_wf h) x1"
    using assms(2) by (cases m) (auto simp: PutOperation_wf_def)
  have d2: "decodes (PutOperation_loop h) u (?m x1 x2 []) (?m x1 x2 u)"
    using decodes_unknown [OF u, where us = "[]" and upd = "?m x1 x2"] by simp
  let ?b1 = "put_varint h 0x10 (scast x2) u"
  have d1: "decodes (PutOperation_loop h) ?b1 (?m x1 0 []) (?m x1 x2 u)"
    by (rule decodes_varint [where nm = "''Mode''" and upd = "\<lambda>v. ?m x1 v []",
          OF ok _ _ _ _ _ _ d2]) (simp_all add: PutOperation_switch_def)
  let ?b0 = "put_message h 0xa (Document_MarshalToSizedBufferVT h) x1 ?b1"
  have d0: "decodes (PutOperation_loop h) ?b0 (?m None 0 []) (?m x1 x2 u)"
    by (rule decodes_message [where nm = "''Document''" and upd = "\<lambda>v. ?m v 0 []",
          OF ok _ _ _ _ _ vt_Document.option_round_trip [OF ok wf(1)] d1]) (simp_all add: PutOperation_switch_def)
  show ?thesis using d0 by (simp add: m PutOperation_MarshalToSizedBufferVT_def PutOperation_fresh_def)
qed

lemma PutOperation_default: "PutOperation_switch h f w d i m = Default \<Longrightarrow> PutOperation_switch h f w' d' i' m' = Default"
  by (auto simp: PutOperation_switch_def split: if_splits)

lemma PutOperation_fresh_wf: "PutOperation_wf h PutOperation_fresh"
  by (simp add: PutOperation_wf_def PutOperation_fresh_def)

lemma PutOperation_returns:
  assumes "skip_ok h" and "length b < 2 ^ 63" and "PutOperation_wf h m"
  shows "returns_with (PutOperation_wf h) (PutOperation_UnmarshalVT h b m)"
  unfolding PutOperation_UnmarshalVT_def
proof (rule unmarshal_loop_returns [where I = "PutOperation_wf h", OF assms(1) _ PutOperation_default _ assms(3)])
  show "case_returns (PutOperation_wf h) i (PutOperation_switch h f w b i m)" if "PutOperation_wf h m" for f w i m
    using that assms(2) by (auto simp: PutOperation_switch_def PutOperation_wf_def vt_Document.fresh_wf split: option.split intro!: case_returns
      case_returns_message [where J = "Document_wf h"] vt_Document.returns [OF assms(1)])
qed (auto simp: PutOperation_wf_def unknown_ok_append)

interpretation vt_PutOperation: vt_message h "PutOperation_MarshalToSizedBufferVT h" "PutOperation_SizeVT h" "PutOperation_UnmarshalVT h" PutOperation_fresh
  "\<lambda>m. True" "PutOperation_wf h" for h
  by unfold_locales
    (auto simp: PutOperation_size PutOperation_returns PutOperation_fresh_wf, auto simp: PutOperation_UnmarshalVT_def decodes_all PutOperation_decodes,
      simp_all add: PutOperation_MarshalToSizedBufferVT_def PutOperation_SizeVT_def)

section \<open>MergeOperation: exact size and round trip\<close>

lemma MergeOperation_size:
  assumes "helpers_ok h"
  shows "MergeOperation_SizeVT h (Some m) = length (MergeOperation_MarshalToSizedBufferVT h (Some m))"
  by (simp add: MergeOperation_SizeVT_def MergeOperation_MarshalToSizedBufferVT_def 
      put_length [OF assms(1)] put_strings_length [OF assms(1)] vt_Document.put_field_length [OF assms(1)] vt_LuaProgram.put_field_length [OF assms(1)])

lemma MergeOperation_decodes:
  assumes ok: "helpers_ok h" and "MergeOperation_wf h m"
  shows "decodes (MergeOperation_loop h) (MergeOperation_MarshalToSizedBufferVT h (Some m)) MergeOperation_fresh m"
proof -
  let ?m = "\<lambda>x1 x2 u. \<lparr>pbMergeOperation_IncomingDocument = x1, pbMergeOperation_LuaProgram = x2, pbMergeOperation_unknownFields = u\<rparr>"
  obtain x1 x2 u where m: "m = ?m x1 x2 u" and u: "unknown_ok h (MergeOperation_switch h) u"
    and wf: "opt_ok (Document_wf h) x1" "opt_ok (LuaProgram_wf h) x2"
    using assms(2) by (cases m) (auto simp: MergeOperation_wf_def)
  have d2: "decodes (MergeOperation_loop h) u (?m x1 x2 []) (?m x1 x2 u)"
    using decodes_unknown [OF u, where us = "[]" and upd = "?m x1 x2"] by simp
  let ?b1 = "put_message h 0x12 (LuaProgram_MarshalToSizedBufferVT h) x2 u"
  have d1: "decodes (MergeOperation_loop h) ?b1 (?m x1 None []) (?m x1 x2 u)"
    by (rule decodes_message [where nm = "''LuaProgram''" and upd = "\<lambda>v. ?m x1 v []",
          OF ok _ _ _ _ _ vt_LuaProgram.option_round_trip [OF ok wf(2)] d2]) (simp_all add: MergeOperation_switch_def)
  let ?b0 = "put_message h 0xa (Document_MarshalToSizedBufferVT h) x1 ?b1"
  have d0: "decodes (MergeOperation_loop h) ?b0 (?m None None []) (?m x1 x2 u)"
    by (rule decodes_message [where nm = "''IncomingDocument''" and upd = "\<lambda>v. ?m v None []",
          OF ok _ _ _ _ _ vt_Document.option_round_trip [OF ok wf(1)] d1]) (simp_all add: MergeOperation_switch_def)
  show ?thesis using d0 by (simp add: m MergeOperation_MarshalToSizedBufferVT_def MergeOperation_fresh_def)
qed

lemma MergeOperation_default: "MergeOperation_switch h f w d i m = Default \<Longrightarrow> MergeOperation_switch h f w' d' i' m' = Default"
  by (auto simp: MergeOperation_switch_def split: if_splits)

lemma MergeOperation_fresh_wf: "MergeOperation_wf h MergeOperation_fresh"
  by (simp add: MergeOperation_wf_def MergeOperation_fresh_def)

lemma MergeOperation_returns:
  assumes "skip_ok h" and "length b < 2 ^ 63" and "MergeOperation_wf h m"
  shows "returns_with (MergeOperation_wf h) (MergeOperation_UnmarshalVT h b m)"
  unfolding MergeOperation_UnmarshalVT_def
proof (rule unmarshal_loop_returns [where I = "MergeOperation_wf h", OF assms(1) _ MergeOperation_default _ assms(3)])
  show "case_returns (MergeOperation_wf h) i (MergeOperation_switch h f w b i m)" if "MergeOperation_wf h m" for f w i m
    using that assms(2) by (auto simp: MergeOperation_switch_def MergeOperation_wf_def vt_Document.fresh_wf vt_LuaProgram.fresh_wf split: option.split intro!: case_returns
      case_returns_message [where J = "Document_wf h"] vt_Document.returns [OF assms(1)]
      case_returns_message [where J = "LuaProgram_wf h"] vt_LuaProgram.returns [OF assms(1)])
qed (auto simp: MergeOperation_wf_def unknown_ok_append)

interpretation vt_MergeOperation: vt_message h "MergeOperation_MarshalToSizedBufferVT h" "MergeOperation_SizeVT h" "MergeOperation_UnmarshalVT h" MergeOperation_fresh
  "\<lambda>m. True" "MergeOperation_wf h" for h
  by unfold_locales
    (auto simp: MergeOperation_size MergeOperation_returns MergeOperation_fresh_wf, auto simp: MergeOperation_UnmarshalVT_def decodes_all MergeOperation_decodes,
      simp_all add: MergeOperation_MarshalToSizedBufferVT_def MergeOperation_SizeVT_def)

section \<open>WriteOperation: exact size and round trip\<close>

text \<open>What is written when nothing panics.\<close>

definition written :: "bytes option \<Rightarrow> bytes" where
  "written out = (case out of None \<Rightarrow> [] | Some b \<Rightarrow> b)"

lemma written_simps [simp]: "written None = []" "written (Some b) = b"
  by (simp_all add: written_def)

definition WriteOperation_bytes :: "protohelpers \<Rightarrow> pbWriteOperation option \<Rightarrow> bytes" where
  "WriteOperation_bytes h msg = written (WriteOperation_MarshalToSizedBufferVT h msg)"

lemma WriteAction_returns:
  "WriteAction_MarshalToSizedBufferVT h action acc = None \<longleftrightarrow>
     action \<in> {Some (WriteOperation_Put None), Some (WriteOperation_Merge None)}"
  by (auto simp: WriteAction_MarshalToSizedBufferVT_def WriteOperation_Put_MarshalToSizedBufferVT_def
      WriteOperation_Merge_MarshalToSizedBufferVT_def split: option.splits pbWriteAction.splits)

lemma WriteOperation_marshal:
  "WriteOperation_MarshalToSizedBufferVT h msg
     = (if opt_ok WriteOperation_complete msg then Some (WriteOperation_bytes h msg) else None)"
proof (cases msg)
  case (Some m)
  then show ?thesis using WriteAction_returns [of h "pbWriteOperation_Action m" "pbWriteOperation_unknownFields m"]
    by (cases "WriteAction_MarshalToSizedBufferVT h (pbWriteOperation_Action m) (pbWriteOperation_unknownFields m)")
      (auto simp: WriteOperation_bytes_def WriteOperation_MarshalToSizedBufferVT_def WriteOperation_complete_def)
qed (simp add: WriteOperation_bytes_def WriteOperation_MarshalToSizedBufferVT_def)

lemma WriteOperation_bytes_Some:
  "WriteOperation_complete m \<Longrightarrow> WriteOperation_bytes h (Some m) =
     put_message h 0xa (RecordAddress_MarshalToSizedBufferVT h) (pbWriteOperation_Address m) (
     put_bool 0x20 (pbWriteOperation_ReturnDocument m) (
     written (WriteAction_MarshalToSizedBufferVT h (pbWriteOperation_Action m) (pbWriteOperation_unknownFields m))))"
  using WriteAction_returns [of h "pbWriteOperation_Action m" "pbWriteOperation_unknownFields m"]
  by (auto simp: WriteOperation_bytes_def WriteOperation_MarshalToSizedBufferVT_def WriteOperation_complete_def)

lemma WriteAction_put:
  "WriteAction_MarshalToSizedBufferVT h (Some (WriteOperation_Put (Some (Some p)))) acc
     = Some (put_message h 0x12 (PutOperation_MarshalToSizedBufferVT h) (Some p) acc)"
  "WriteAction_MarshalToSizedBufferVT h (Some (WriteOperation_Merge (Some (Some q)))) acc
     = Some (put_message h 0x1a (MergeOperation_MarshalToSizedBufferVT h) (Some q) acc)"
  by (simp_all add: WriteAction_MarshalToSizedBufferVT_def WriteOperation_Put_MarshalToSizedBufferVT_def
      WriteOperation_Merge_MarshalToSizedBufferVT_def put_message_def)

text \<open>The two bytes that are written for a wrapper without a message are one less than its size.\<close>

lemma WriteAction_length:
  assumes "helpers_ok h" and "WriteAction_MarshalToSizedBufferVT h action acc = Some out"
  shows "WriteAction_SizeVT h action + length acc = length out
    + (if action \<in> {Some (WriteOperation_Put (Some None)), Some (WriteOperation_Merge (Some None))} then 1 else 0)"
proof -
  have "length (varint 0) = 1" by (simp add: varint_def varint_nat.simps)
  then show ?thesis using assms(2)
    by (auto simp: WriteAction_MarshalToSizedBufferVT_def WriteAction_SizeVT_def put_length [OF assms(1)]
        WriteOperation_Put_MarshalToSizedBufferVT_def WriteOperation_Merge_MarshalToSizedBufferVT_def
        WriteOperation_Put_SizeVT_def WriteOperation_Merge_SizeVT_def helpers_okD [OF assms(1)]
        vt_PutOperation.size_option [OF assms(1)] vt_MergeOperation.size_option [OF assms(1)]
        split: option.splits pbWriteAction.splits if_splits)
qed

lemma get_message_into:
  "get_message nm w d i (\<lambda>b. read_into unmarshal b (Some (Some v))) upd
     = get_message nm w d i (\<lambda>b. unmarshal b v) (\<lambda>x. upd (Some x))"
proof -
  have "Option.bind (map_option (map_sum id Some) r) (case_sum (\<lambda>e. Some (Inl e)) (\<lambda>x. Some (Inr (upd x, j))))
      = Option.bind r (case_sum (\<lambda>e. Some (Inl e)) (\<lambda>x. Some (Inr (upd (Some x), j))))" for r j
    by (cases r) (auto split: sum.split)
  then show ?thesis by (auto simp: get_message_def read_into_def split: sum.split)
qed

lemma decodes_action:
  assumes ok: "helpers_ok h" and wf: "opt_ok (WriteAction_wf h) action"
    and d: "decodes (WriteOperation_loop h) acc \<lparr>pbWriteOperation_Address = address,
      pbWriteOperation_ReturnDocument = b, pbWriteOperation_Action = action, pbWriteOperation_unknownFields = []\<rparr> m'"
  shows "decodes (WriteOperation_loop h) (written (WriteAction_MarshalToSizedBufferVT h action acc))
    \<lparr>pbWriteOperation_Address = address, pbWriteOperation_ReturnDocument = b, pbWriteOperation_Action = None,
     pbWriteOperation_unknownFields = []\<rparr> m'"
    (is "decodes _ _ (?m None) m'")
proof (cases action)
  case None
  then show ?thesis using d by (simp add: WriteAction_MarshalToSizedBufferVT_def)
next
  case (Some wrapper)
  show ?thesis
  proof (cases wrapper)
    case (WriteOperation_Put p)
    then obtain q where q: "p = Some (Some q)" and "opt_ok (PutOperation_wf h) (Some q)"
      using wf Some by (cases p; cases "the p") auto
    show ?thesis unfolding Some WriteOperation_Put q WriteAction_put written_simps
      by (rule decodes_message [where nm = "''Put''" and upd = "\<lambda>v. ?m (map_option (\<lambda>x. WriteOperation_Put (Some (Some x))) v)",
            OF ok _ _ _ _ _ vt_PutOperation.option_round_trip [OF ok \<open>opt_ok _ (Some q)\<close>]])
        (use d Some WriteOperation_Put q in \<open>simp_all add: WriteOperation_switch_def get_message_into\<close>)
  next
    case (WriteOperation_Merge p)
    then obtain q where q: "p = Some (Some q)" and "opt_ok (MergeOperation_wf h) (Some q)"
      using wf Some by (cases p; cases "the p") auto
    show ?thesis unfolding Some WriteOperation_Merge q WriteAction_put written_simps
      by (rule decodes_message [where nm = "''Merge''" and upd = "\<lambda>v. ?m (map_option (\<lambda>x. WriteOperation_Merge (Some (Some x))) v)",
            OF ok _ _ _ _ _ vt_MergeOperation.option_round_trip [OF ok \<open>opt_ok _ (Some q)\<close>]])
        (use d Some WriteOperation_Merge q in \<open>simp_all add: WriteOperation_switch_def get_message_into\<close>)
  qed
qed


lemma WriteOperation_size:
  assumes "helpers_ok h" and "WriteOperation_sized m"
  shows "WriteOperation_SizeVT h (Some m) = length (WriteOperation_bytes h (Some m))"
proof -
  obtain out where "WriteAction_MarshalToSizedBufferVT h (pbWriteOperation_Action m) (pbWriteOperation_unknownFields m) = Some out"
    using assms(2) WriteAction_returns [of h] by (auto simp: WriteOperation_sized_def WriteOperation_complete_def)
  with assms(2) WriteAction_length [OF assms(1) this] show ?thesis
    by (simp add: WriteOperation_sized_def WriteOperation_bytes_Some WriteOperation_SizeVT_def put_length [OF assms(1)]
        vt_RecordAddress.put_field_length [OF assms(1)])
qed

lemma WriteOperation_decodes:
  assumes ok: "helpers_ok h" and "WriteOperation_wf h m"
  shows "decodes (WriteOperation_loop h) (WriteOperation_bytes h (Some m)) WriteOperation_fresh m"
proof -
  let ?m = "\<lambda>x1 x2 x3 u. \<lparr>pbWriteOperation_Address = x1, pbWriteOperation_ReturnDocument = x2, pbWriteOperation_Action = x3, pbWriteOperation_unknownFields = u\<rparr>"
  obtain x1 x2 x3 u where m: "m = ?m x1 x2 x3 u" and u: "unknown_ok h (WriteOperation_switch h) u"
    and wf: "opt_ok (RecordAddress_wf h) x1" "opt_ok (WriteAction_wf h) x3"
    using assms(2) by (cases m) (auto simp: WriteOperation_wf_def)
  have d3: "decodes (WriteOperation_loop h) u (?m x1 x2 x3 []) (?m x1 x2 x3 u)"
    using decodes_unknown [OF u, where us = "[]" and upd = "?m x1 x2 x3"] by simp
  let ?b2 = "written (WriteAction_MarshalToSizedBufferVT h x3 u)"
  have d2: "decodes (WriteOperation_loop h) ?b2 (?m x1 x2 None []) (?m x1 x2 x3 u)"
    by (rule decodes_action [OF ok wf(2) d3])
  let ?b1 = "put_bool 0x20 x2 ?b2"
  have d1: "decodes (WriteOperation_loop h) ?b1 (?m x1 False None []) (?m x1 x2 x3 u)"
    by (rule decodes_bool [where nm = "''ReturnDocument''" and upd = "\<lambda>v. ?m x1 v None []",
          OF _ _ _ _ _ d2]) (simp_all add: WriteOperation_switch_def)
  let ?b0 = "put_message h 0xa (RecordAddress_MarshalToSizedBufferVT h) x1 ?b1"
  have d0: "decodes (WriteOperation_loop h) ?b0 (?m None False None []) (?m x1 x2 x3 u)"
    by (rule decodes_message [where nm = "''Address''" and upd = "\<lambda>v. ?m v False None []",
          OF ok _ _ _ _ _ vt_RecordAddress.option_round_trip [OF ok wf(1)] d1]) (simp_all add: WriteOperation_switch_def)
  have "WriteOperation_complete m" using wf(2) by (auto simp: m WriteOperation_complete_def)
  then show ?thesis using d0 by (simp add: WriteOperation_bytes_Some) (simp add: m WriteOperation_fresh_def)
qed

lemma WriteOperation_default: "WriteOperation_switch h f w d i m = Default \<Longrightarrow> WriteOperation_switch h f w' d' i' m' = Default"
  by (auto simp: WriteOperation_switch_def split: if_splits)

lemma WriteOperation_fresh_wf: "WriteOperation_wf h WriteOperation_fresh"
  by (simp add: WriteOperation_wf_def WriteOperation_fresh_def)

lemma WriteOperation_wf_sized: "WriteOperation_wf h m \<Longrightarrow> WriteOperation_sized m"
  by (auto simp: WriteOperation_wf_def WriteOperation_sized_def WriteOperation_complete_def)

lemma WriteAction_wf_ex:
  "WriteAction_wf h (WriteOperation_Put x) \<longleftrightarrow> (\<exists>p. x = Some (Some p) \<and> PutOperation_wf h p)"
  "WriteAction_wf h (WriteOperation_Merge y) \<longleftrightarrow> (\<exists>q. y = Some (Some q) \<and> MergeOperation_wf h q)"
  by (cases x; cases "the x"; auto) (cases y; cases "the y"; auto)

lemma WriteOperation_action_wf:
  assumes "WriteOperation_wf h m"
  shows "\<exists>p. (case pbWriteOperation_Action m of Some (WriteOperation_Put v) \<Rightarrow> v | _ \<Rightarrow> Some (Some PutOperation_fresh)) = Some (Some p)
      \<and> PutOperation_wf h p"
    and "\<exists>q. (case pbWriteOperation_Action m of Some (WriteOperation_Merge v) \<Rightarrow> v | _ \<Rightarrow> Some (Some MergeOperation_fresh)) = Some (Some q)
      \<and> MergeOperation_wf h q"
  using assms by (auto simp: WriteOperation_wf_def PutOperation_fresh_wf MergeOperation_fresh_wf WriteAction_wf_ex
      split: option.split pbWriteAction.split)

lemma WriteOperation_returns:
  assumes "skip_ok h" and "length b < 2 ^ 63" and "WriteOperation_wf h m"
  shows "returns_with (WriteOperation_wf h) (WriteOperation_UnmarshalVT h b m)"
  unfolding WriteOperation_UnmarshalVT_def
proof (rule unmarshal_loop_returns [where I = "WriteOperation_wf h", OF assms(1) _ WriteOperation_default _ assms(3)])
  fix f w i m assume wf: "WriteOperation_wf h m"
  obtain p where p: "(case pbWriteOperation_Action m of Some (WriteOperation_Put v) \<Rightarrow> v | _ \<Rightarrow> Some (Some PutOperation_fresh)) = Some (Some p)"
      and wp: "PutOperation_wf h p" using WriteOperation_action_wf(1) [OF wf] by blast
  obtain q where q: "(case pbWriteOperation_Action m of Some (WriteOperation_Merge v) \<Rightarrow> v | _ \<Rightarrow> Some (Some MergeOperation_fresh)) = Some (Some q)"
      and wq: "MergeOperation_wf h q" using WriteOperation_action_wf(2) [OF wf] by blast
  show "case_returns (WriteOperation_wf h) i (WriteOperation_switch h f w b i m)"
    using wf wp wq assms(2) unfolding WriteOperation_switch_def p q get_message_into
    by (auto simp: WriteOperation_wf_def vt_RecordAddress.fresh_wf split: option.split intro!: case_returns
        case_returns_message [where J = "RecordAddress_wf h"] vt_RecordAddress.returns [OF assms(1)]
        case_returns_message [where J = "PutOperation_wf h"] vt_PutOperation.returns [OF assms(1)]
        case_returns_message [where J = "MergeOperation_wf h"] vt_MergeOperation.returns [OF assms(1)])
qed (auto simp: WriteOperation_wf_def unknown_ok_append)

interpretation vt_WriteOperation: vt_message h "WriteOperation_bytes h" "WriteOperation_SizeVT h" "WriteOperation_UnmarshalVT h" WriteOperation_fresh
  WriteOperation_sized "WriteOperation_wf h" for h
  by unfold_locales
    (auto simp: WriteOperation_size WriteOperation_returns WriteOperation_fresh_wf WriteOperation_wf_sized, auto simp: WriteOperation_UnmarshalVT_def decodes_all WriteOperation_decodes,
      simp_all add: WriteOperation_bytes_def WriteOperation_MarshalToSizedBufferVT_def WriteOperation_SizeVT_def)

section \<open>WriteRequest: exact size and round trip\<close>

definition WriteRequest_bytes :: "protohelpers \<Rightarrow> pbWriteRequest option \<Rightarrow> bytes" where
  "WriteRequest_bytes h msg = written (WriteRequest_MarshalToSizedBufferVT h msg)"

lemma put_operations:
  "put_partial_messages h tag (WriteOperation_MarshalToSizedBufferVT h) xs acc
     = (if list_all (opt_ok WriteOperation_complete) xs then Some (put_messages h tag (WriteOperation_bytes h) xs acc) else None)"
  by (induction xs) (simp_all add: put_partial_messages_def put_messages_def WriteOperation_marshal)

lemma WriteRequest_marshal:
  "WriteRequest_MarshalToSizedBufferVT h msg
     = (if opt_ok WriteRequest_complete msg then Some (WriteRequest_bytes h msg) else None)"
  by (simp add: WriteRequest_bytes_def WriteRequest_MarshalToSizedBufferVT_def put_operations WriteRequest_complete_def
      split: option.split)

lemma WriteRequest_bytes_Some:
  "WriteRequest_complete m \<Longrightarrow> WriteRequest_bytes h (Some m) =
     put_varint h 0x8 (scast (pbWriteRequest_CompletionMode m)) (
     put_messages h 0x12 (WriteOperation_bytes h) (pbWriteRequest_Operations m) (
     put_messages h 0x1a (LuaProgram_MarshalToSizedBufferVT h) (pbWriteRequest_LuaPrograms m) (
     pbWriteRequest_unknownFields m)))"
  by (simp add: WriteRequest_bytes_def WriteRequest_MarshalToSizedBufferVT_def put_operations WriteRequest_complete_def)

lemma WriteRequest_sized_complete: "WriteRequest_sized m \<Longrightarrow> WriteRequest_complete m"
  by (auto simp: WriteRequest_sized_def WriteRequest_complete_def WriteOperation_sized_def list_all_conv_set opt_ok_def
      split: option.splits)

lemma WriteRequest_size:
  assumes "helpers_ok h" and "WriteRequest_sized m"
  shows "WriteRequest_SizeVT h (Some m) = length (WriteRequest_bytes h (Some m))"
  using assms(2) WriteRequest_sized_complete [OF assms(2)] by (auto simp: WriteRequest_SizeVT_def WriteRequest_bytes_Some
      put_length [OF assms(1)] vt_LuaProgram.put_fields_length [OF assms(1)] vt_WriteOperation.put_fields_length [OF assms(1)]
      opt_ok_memberD [OF assms(2) [unfolded WriteRequest_sized_def]])

lemma WriteRequest_wf_sized: "WriteRequest_wf h m \<Longrightarrow> WriteRequest_sized m"
  by (auto simp: WriteRequest_wf_def WriteRequest_sized_def list_all_conv_set dest!: each_okD [of "WriteOperation_wf h"]
      intro: WriteOperation_wf_sized)

lemma WriteRequest_decodes:
  assumes ok: "helpers_ok h" and "WriteRequest_wf h m"
  shows "decodes (WriteRequest_loop h) (WriteRequest_bytes h (Some m)) WriteRequest_fresh m"
proof -
  let ?m = "\<lambda>x1 x2 x3 u. \<lparr>pbWriteRequest_CompletionMode = x1, pbWriteRequest_Operations = x2, pbWriteRequest_LuaPrograms = x3, pbWriteRequest_unknownFields = u\<rparr>"
  obtain x1 x2 x3 u where m: "m = ?m x1 x2 x3 u" and u: "unknown_ok h (WriteRequest_switch h) u"
    and wf: "each_ok (WriteOperation_wf h) x2" "each_ok (LuaProgram_wf h) x3"
    using assms(2) by (cases m) (auto simp: WriteRequest_wf_def)
  have d3: "decodes (WriteRequest_loop h) u (?m x1 x2 x3 []) (?m x1 x2 x3 u)"
    using decodes_unknown [OF u, where us = "[]" and upd = "?m x1 x2 x3"] by simp
  let ?b2 = "put_messages h 0x1a (LuaProgram_MarshalToSizedBufferVT h) x3 u"
  have d2: "decodes (WriteRequest_loop h) ?b2 (?m x1 x2 [] []) (?m x1 x2 x3 u)"
    by (rule decodes_messages [where nm = "''LuaPrograms''" and upd = "\<lambda>v. ?m x1 x2 v []" and xs = "[]" and ms = x3, unfolded append_Nil,
          OF ok _ _ _ _ vt_LuaProgram.element_round_trip [OF ok wf(2)] d3]) (simp_all add: WriteRequest_switch_def)
  let ?b1 = "put_messages h 0x12 (WriteOperation_bytes h) x2 ?b2"
  have d1: "decodes (WriteRequest_loop h) ?b1 (?m x1 [] [] []) (?m x1 x2 x3 u)"
    by (rule decodes_messages [where nm = "''Operations''" and upd = "\<lambda>v. ?m x1 v [] []" and xs = "[]" and ms = x2, unfolded append_Nil,
          OF ok _ _ _ _ vt_WriteOperation.element_round_trip [OF ok wf(1)] d2]) (simp_all add: WriteRequest_switch_def)
  let ?b0 = "put_varint h 0x8 (scast x1) ?b1"
  have d0: "decodes (WriteRequest_loop h) ?b0 (?m 0 [] [] []) (?m x1 x2 x3 u)"
    by (rule decodes_varint [where nm = "''CompletionMode''" and upd = "\<lambda>v. ?m v [] [] []",
          OF ok _ _ _ _ _ _ d1]) (simp_all add: WriteRequest_switch_def)
  show ?thesis using d0 WriteRequest_sized_complete [OF WriteRequest_wf_sized [OF assms(2)]]
    by (simp add: WriteRequest_bytes_Some) (simp add: m WriteRequest_fresh_def)
qed

lemma WriteRequest_default: "WriteRequest_switch h f w d i m = Default \<Longrightarrow> WriteRequest_switch h f w' d' i' m' = Default"
  by (auto simp: WriteRequest_switch_def split: if_splits)

lemma WriteRequest_fresh_wf: "WriteRequest_wf h WriteRequest_fresh"
  by (simp add: WriteRequest_wf_def WriteRequest_fresh_def)

lemma WriteRequest_returns:
  assumes "skip_ok h" and "length b < 2 ^ 63" and "WriteRequest_wf h m"
  shows "returns_with (WriteRequest_wf h) (WriteRequest_UnmarshalVT h b m)"
  unfolding WriteRequest_UnmarshalVT_def
proof (rule unmarshal_loop_returns [where I = "WriteRequest_wf h", OF assms(1) _ WriteRequest_default _ assms(3)])
  show "case_returns (WriteRequest_wf h) i (WriteRequest_switch h f w b i m)" if "WriteRequest_wf h m" for f w i m
    using that assms(2) by (auto simp: WriteRequest_switch_def WriteRequest_wf_def vt_LuaProgram.fresh_wf vt_WriteOperation.fresh_wf split: option.split intro!: case_returns
      case_returns_message [where J = "LuaProgram_wf h"] vt_LuaProgram.returns [OF assms(1)]
      case_returns_message [where J = "WriteOperation_wf h"] vt_WriteOperation.returns [OF assms(1)])
qed (auto simp: WriteRequest_wf_def unknown_ok_append)

interpretation vt_WriteRequest: vt_message h "WriteRequest_bytes h" "WriteRequest_SizeVT h" "WriteRequest_UnmarshalVT h" WriteRequest_fresh
  WriteRequest_sized "WriteRequest_wf h" for h
  by unfold_locales
    (auto simp: WriteRequest_size WriteRequest_returns WriteRequest_fresh_wf WriteRequest_wf_sized, auto simp: WriteRequest_UnmarshalVT_def decodes_all WriteRequest_decodes,
      simp_all add: WriteRequest_bytes_def WriteRequest_MarshalToSizedBufferVT_def WriteRequest_SizeVT_def)

section \<open>WriteResult: exact size and round trip\<close>

lemma WriteResult_size:
  assumes "helpers_ok h"
  shows "WriteResult_SizeVT h (Some m) = length (WriteResult_MarshalToSizedBufferVT h (Some m))"
  by (simp add: WriteResult_SizeVT_def WriteResult_MarshalToSizedBufferVT_def 
      put_length [OF assms(1)] put_strings_length [OF assms(1)] vt_Document.put_field_length [OF assms(1)] vt_Failure.put_field_length [OF assms(1)] vt_RevisionToken.put_field_length [OF assms(1)])

lemma WriteResult_decodes:
  assumes ok: "helpers_ok h" and "WriteResult_wf h m"
  shows "decodes (WriteResult_loop h) (WriteResult_MarshalToSizedBufferVT h (Some m)) WriteResult_fresh m"
proof -
  let ?m = "\<lambda>x1 x2 x3 x4 x5 u. \<lparr>pbWriteResult_OperationIndex = x1, pbWriteResult_Status = x2, pbWriteResult_Revision = x3, pbWriteResult_Failure = x4, pbWriteResult_Document = x5, pbWriteResult_unknownFields = u\<rparr>"
  obtain x1 x2 x3 x4 x5 u where m: "m = ?m x1 x2 x3 x4 x5 u" and u: "unknown_ok h (WriteResult_switch h) u"
    and wf: "opt_ok (RevisionToken_wf h) x3" "opt_ok (Failure_wf h) x4" "opt_ok (Document_wf h) x5"
    using assms(2) by (cases m) (auto simp: WriteResult_wf_def)
  have d5: "decodes (WriteResult_loop h) u (?m x1 x2 x3 x4 x5 []) (?m x1 x2 x3 x4 x5 u)"
    using decodes_unknown [OF u, where us = "[]" and upd = "?m x1 x2 x3 x4 x5"] by simp
  let ?b4 = "put_message h 0x2a (Document_MarshalToSizedBufferVT h) x5 u"
  have d4: "decodes (WriteResult_loop h) ?b4 (?m x1 x2 x3 x4 None []) (?m x1 x2 x3 x4 x5 u)"
    by (rule decodes_message [where nm = "''Document''" and upd = "\<lambda>v. ?m x1 x2 x3 x4 v []",
          OF ok _ _ _ _ _ vt_Document.option_round_trip [OF ok wf(3)] d5]) (simp_all add: WriteResult_switch_def)
  let ?b3 = "put_message h 0x22 (Failure_MarshalToSizedBufferVT h) x4 ?b4"
  have d3: "decodes (WriteResult_loop h) ?b3 (?m x1 x2 x3 None None []) (?m x1 x2 x3 x4 x5 u)"
    by (rule decodes_message [where nm = "''Failure''" and upd = "\<lambda>v. ?m x1 x2 x3 v None []",
          OF ok _ _ _ _ _ vt_Failure.option_round_trip [OF ok wf(2)] d4]) (simp_all add: WriteResult_switch_def)
  let ?b2 = "put_message h 0x1a (RevisionToken_MarshalToSizedBufferVT h) x3 ?b3"
  have d2: "decodes (WriteResult_loop h) ?b2 (?m x1 x2 None None None []) (?m x1 x2 x3 x4 x5 u)"
    by (rule decodes_message [where nm = "''Revision''" and upd = "\<lambda>v. ?m x1 x2 v None None []",
          OF ok _ _ _ _ _ vt_RevisionToken.option_round_trip [OF ok wf(1)] d3]) (simp_all add: WriteResult_switch_def)
  let ?b1 = "put_varint h 0x10 (scast x2) ?b2"
  have d1: "decodes (WriteResult_loop h) ?b1 (?m x1 0 None None None []) (?m x1 x2 x3 x4 x5 u)"
    by (rule decodes_varint [where nm = "''Status''" and upd = "\<lambda>v. ?m x1 v None None None []",
          OF ok _ _ _ _ _ _ d2]) (simp_all add: WriteResult_switch_def)
  let ?b0 = "put_varint h 0x8 (ucast x1) ?b1"
  have d0: "decodes (WriteResult_loop h) ?b0 (?m 0 0 None None None []) (?m x1 x2 x3 x4 x5 u)"
    by (rule decodes_varint [where nm = "''OperationIndex''" and upd = "\<lambda>v. ?m v 0 None None None []",
          OF ok _ _ _ _ _ _ d1]) (simp_all add: WriteResult_switch_def)
  show ?thesis using d0 by (simp add: m WriteResult_MarshalToSizedBufferVT_def WriteResult_fresh_def)
qed

lemma WriteResult_default: "WriteResult_switch h f w d i m = Default \<Longrightarrow> WriteResult_switch h f w' d' i' m' = Default"
  by (auto simp: WriteResult_switch_def split: if_splits)

lemma WriteResult_fresh_wf: "WriteResult_wf h WriteResult_fresh"
  by (simp add: WriteResult_wf_def WriteResult_fresh_def)

lemma WriteResult_returns:
  assumes "skip_ok h" and "length b < 2 ^ 63" and "WriteResult_wf h m"
  shows "returns_with (WriteResult_wf h) (WriteResult_UnmarshalVT h b m)"
  unfolding WriteResult_UnmarshalVT_def
proof (rule unmarshal_loop_returns [where I = "WriteResult_wf h", OF assms(1) _ WriteResult_default _ assms(3)])
  show "case_returns (WriteResult_wf h) i (WriteResult_switch h f w b i m)" if "WriteResult_wf h m" for f w i m
    using that assms(2) by (auto simp: WriteResult_switch_def WriteResult_wf_def vt_Document.fresh_wf vt_Failure.fresh_wf vt_RevisionToken.fresh_wf split: option.split intro!: case_returns
      case_returns_message [where J = "Document_wf h"] vt_Document.returns [OF assms(1)]
      case_returns_message [where J = "Failure_wf h"] vt_Failure.returns [OF assms(1)]
      case_returns_message [where J = "RevisionToken_wf h"] vt_RevisionToken.returns [OF assms(1)])
qed (auto simp: WriteResult_wf_def unknown_ok_append)

interpretation vt_WriteResult: vt_message h "WriteResult_MarshalToSizedBufferVT h" "WriteResult_SizeVT h" "WriteResult_UnmarshalVT h" WriteResult_fresh
  "\<lambda>m. True" "WriteResult_wf h" for h
  by unfold_locales
    (auto simp: WriteResult_size WriteResult_returns WriteResult_fresh_wf, auto simp: WriteResult_UnmarshalVT_def decodes_all WriteResult_decodes,
      simp_all add: WriteResult_MarshalToSizedBufferVT_def WriteResult_SizeVT_def)

section \<open>WriteResponse: exact size and round trip\<close>

lemma WriteResponse_size:
  assumes "helpers_ok h"
  shows "WriteResponse_SizeVT h (Some m) = length (WriteResponse_MarshalToSizedBufferVT h (Some m))"
  by (simp add: WriteResponse_SizeVT_def WriteResponse_MarshalToSizedBufferVT_def 
      put_length [OF assms(1)] put_strings_length [OF assms(1)] vt_WriteResult.put_fields_length [OF assms(1)])

lemma WriteResponse_decodes:
  assumes ok: "helpers_ok h" and "WriteResponse_wf h m"
  shows "decodes (WriteResponse_loop h) (WriteResponse_MarshalToSizedBufferVT h (Some m)) WriteResponse_fresh m"
proof -
  let ?m = "\<lambda>x1 u. \<lparr>pbWriteResponse_Results = x1, pbWriteResponse_unknownFields = u\<rparr>"
  obtain x1 u where m: "m = ?m x1 u" and u: "unknown_ok h (WriteResponse_switch h) u"
    and wf: "each_ok (WriteResult_wf h) x1"
    using assms(2) by (cases m) (auto simp: WriteResponse_wf_def)
  have d1: "decodes (WriteResponse_loop h) u (?m x1 []) (?m x1 u)"
    using decodes_unknown [OF u, where us = "[]" and upd = "?m x1"] by simp
  let ?b0 = "put_messages h 0xa (WriteResult_MarshalToSizedBufferVT h) x1 u"
  have d0: "decodes (WriteResponse_loop h) ?b0 (?m [] []) (?m x1 u)"
    by (rule decodes_messages [where nm = "''Results''" and upd = "\<lambda>v. ?m v []" and xs = "[]" and ms = x1, unfolded append_Nil,
          OF ok _ _ _ _ vt_WriteResult.element_round_trip [OF ok wf(1)] d1]) (simp_all add: WriteResponse_switch_def)
  show ?thesis using d0 by (simp add: m WriteResponse_MarshalToSizedBufferVT_def WriteResponse_fresh_def)
qed

lemma WriteResponse_default: "WriteResponse_switch h f w d i m = Default \<Longrightarrow> WriteResponse_switch h f w' d' i' m' = Default"
  by (auto simp: WriteResponse_switch_def split: if_splits)

lemma WriteResponse_fresh_wf: "WriteResponse_wf h WriteResponse_fresh"
  by (simp add: WriteResponse_wf_def WriteResponse_fresh_def)

lemma WriteResponse_returns:
  assumes "skip_ok h" and "length b < 2 ^ 63" and "WriteResponse_wf h m"
  shows "returns_with (WriteResponse_wf h) (WriteResponse_UnmarshalVT h b m)"
  unfolding WriteResponse_UnmarshalVT_def
proof (rule unmarshal_loop_returns [where I = "WriteResponse_wf h", OF assms(1) _ WriteResponse_default _ assms(3)])
  show "case_returns (WriteResponse_wf h) i (WriteResponse_switch h f w b i m)" if "WriteResponse_wf h m" for f w i m
    using that assms(2) by (auto simp: WriteResponse_switch_def WriteResponse_wf_def vt_WriteResult.fresh_wf split: option.split intro!: case_returns
      case_returns_message [where J = "WriteResult_wf h"] vt_WriteResult.returns [OF assms(1)])
qed (auto simp: WriteResponse_wf_def unknown_ok_append)

interpretation vt_WriteResponse: vt_message h "WriteResponse_MarshalToSizedBufferVT h" "WriteResponse_SizeVT h" "WriteResponse_UnmarshalVT h" WriteResponse_fresh
  "\<lambda>m. True" "WriteResponse_wf h" for h
  by unfold_locales
    (auto simp: WriteResponse_size WriteResponse_returns WriteResponse_fresh_wf, auto simp: WriteResponse_UnmarshalVT_def decodes_all WriteResponse_decodes,
      simp_all add: WriteResponse_MarshalToSizedBufferVT_def WriteResponse_SizeVT_def)

section \<open>DeleteOperation: exact size and round trip\<close>

lemma DeleteOperation_size:
  assumes "helpers_ok h"
  shows "DeleteOperation_SizeVT h (Some m) = length (DeleteOperation_MarshalToSizedBufferVT h (Some m))"
  by (simp add: DeleteOperation_SizeVT_def DeleteOperation_MarshalToSizedBufferVT_def 
      put_length [OF assms(1)] put_strings_length [OF assms(1)] vt_RecordAddress.put_field_length [OF assms(1)])

lemma DeleteOperation_decodes:
  assumes ok: "helpers_ok h" and "DeleteOperation_wf h m"
  shows "decodes (DeleteOperation_loop h) (DeleteOperation_MarshalToSizedBufferVT h (Some m)) DeleteOperation_fresh m"
proof -
  let ?m = "\<lambda>x1 u. \<lparr>pbDeleteOperation_Address = x1, pbDeleteOperation_unknownFields = u\<rparr>"
  obtain x1 u where m: "m = ?m x1 u" and u: "unknown_ok h (DeleteOperation_switch h) u"
    and wf: "opt_ok (RecordAddress_wf h) x1"
    using assms(2) by (cases m) (auto simp: DeleteOperation_wf_def)
  have d1: "decodes (DeleteOperation_loop h) u (?m x1 []) (?m x1 u)"
    using decodes_unknown [OF u, where us = "[]" and upd = "?m x1"] by simp
  let ?b0 = "put_message h 0xa (RecordAddress_MarshalToSizedBufferVT h) x1 u"
  have d0: "decodes (DeleteOperation_loop h) ?b0 (?m None []) (?m x1 u)"
    by (rule decodes_message [where nm = "''Address''" and upd = "\<lambda>v. ?m v []",
          OF ok _ _ _ _ _ vt_RecordAddress.option_round_trip [OF ok wf(1)] d1]) (simp_all add: DeleteOperation_switch_def)
  show ?thesis using d0 by (simp add: m DeleteOperation_MarshalToSizedBufferVT_def DeleteOperation_fresh_def)
qed

lemma DeleteOperation_default: "DeleteOperation_switch h f w d i m = Default \<Longrightarrow> DeleteOperation_switch h f w' d' i' m' = Default"
  by (auto simp: DeleteOperation_switch_def split: if_splits)

lemma DeleteOperation_fresh_wf: "DeleteOperation_wf h DeleteOperation_fresh"
  by (simp add: DeleteOperation_wf_def DeleteOperation_fresh_def)

lemma DeleteOperation_returns:
  assumes "skip_ok h" and "length b < 2 ^ 63" and "DeleteOperation_wf h m"
  shows "returns_with (DeleteOperation_wf h) (DeleteOperation_UnmarshalVT h b m)"
  unfolding DeleteOperation_UnmarshalVT_def
proof (rule unmarshal_loop_returns [where I = "DeleteOperation_wf h", OF assms(1) _ DeleteOperation_default _ assms(3)])
  show "case_returns (DeleteOperation_wf h) i (DeleteOperation_switch h f w b i m)" if "DeleteOperation_wf h m" for f w i m
    using that assms(2) by (auto simp: DeleteOperation_switch_def DeleteOperation_wf_def vt_RecordAddress.fresh_wf split: option.split intro!: case_returns
      case_returns_message [where J = "RecordAddress_wf h"] vt_RecordAddress.returns [OF assms(1)])
qed (auto simp: DeleteOperation_wf_def unknown_ok_append)

interpretation vt_DeleteOperation: vt_message h "DeleteOperation_MarshalToSizedBufferVT h" "DeleteOperation_SizeVT h" "DeleteOperation_UnmarshalVT h" DeleteOperation_fresh
  "\<lambda>m. True" "DeleteOperation_wf h" for h
  by unfold_locales
    (auto simp: DeleteOperation_size DeleteOperation_returns DeleteOperation_fresh_wf, auto simp: DeleteOperation_UnmarshalVT_def decodes_all DeleteOperation_decodes,
      simp_all add: DeleteOperation_MarshalToSizedBufferVT_def DeleteOperation_SizeVT_def)

section \<open>DeleteRequest: exact size and round trip\<close>

lemma DeleteRequest_size:
  assumes "helpers_ok h"
  shows "DeleteRequest_SizeVT h (Some m) = length (DeleteRequest_MarshalToSizedBufferVT h (Some m))"
  by (simp add: DeleteRequest_SizeVT_def DeleteRequest_MarshalToSizedBufferVT_def 
      put_length [OF assms(1)] put_strings_length [OF assms(1)] vt_DeleteOperation.put_fields_length [OF assms(1)])

lemma DeleteRequest_decodes:
  assumes ok: "helpers_ok h" and "DeleteRequest_wf h m"
  shows "decodes (DeleteRequest_loop h) (DeleteRequest_MarshalToSizedBufferVT h (Some m)) DeleteRequest_fresh m"
proof -
  let ?m = "\<lambda>x1 x2 u. \<lparr>pbDeleteRequest_CompletionMode = x1, pbDeleteRequest_Operations = x2, pbDeleteRequest_unknownFields = u\<rparr>"
  obtain x1 x2 u where m: "m = ?m x1 x2 u" and u: "unknown_ok h (DeleteRequest_switch h) u"
    and wf: "each_ok (DeleteOperation_wf h) x2"
    using assms(2) by (cases m) (auto simp: DeleteRequest_wf_def)
  have d2: "decodes (DeleteRequest_loop h) u (?m x1 x2 []) (?m x1 x2 u)"
    using decodes_unknown [OF u, where us = "[]" and upd = "?m x1 x2"] by simp
  let ?b1 = "put_messages h 0x12 (DeleteOperation_MarshalToSizedBufferVT h) x2 u"
  have d1: "decodes (DeleteRequest_loop h) ?b1 (?m x1 [] []) (?m x1 x2 u)"
    by (rule decodes_messages [where nm = "''Operations''" and upd = "\<lambda>v. ?m x1 v []" and xs = "[]" and ms = x2, unfolded append_Nil,
          OF ok _ _ _ _ vt_DeleteOperation.element_round_trip [OF ok wf(1)] d2]) (simp_all add: DeleteRequest_switch_def)
  let ?b0 = "put_varint h 0x8 (scast x1) ?b1"
  have d0: "decodes (DeleteRequest_loop h) ?b0 (?m 0 [] []) (?m x1 x2 u)"
    by (rule decodes_varint [where nm = "''CompletionMode''" and upd = "\<lambda>v. ?m v [] []",
          OF ok _ _ _ _ _ _ d1]) (simp_all add: DeleteRequest_switch_def)
  show ?thesis using d0 by (simp add: m DeleteRequest_MarshalToSizedBufferVT_def DeleteRequest_fresh_def)
qed

lemma DeleteRequest_default: "DeleteRequest_switch h f w d i m = Default \<Longrightarrow> DeleteRequest_switch h f w' d' i' m' = Default"
  by (auto simp: DeleteRequest_switch_def split: if_splits)

lemma DeleteRequest_fresh_wf: "DeleteRequest_wf h DeleteRequest_fresh"
  by (simp add: DeleteRequest_wf_def DeleteRequest_fresh_def)

lemma DeleteRequest_returns:
  assumes "skip_ok h" and "length b < 2 ^ 63" and "DeleteRequest_wf h m"
  shows "returns_with (DeleteRequest_wf h) (DeleteRequest_UnmarshalVT h b m)"
  unfolding DeleteRequest_UnmarshalVT_def
proof (rule unmarshal_loop_returns [where I = "DeleteRequest_wf h", OF assms(1) _ DeleteRequest_default _ assms(3)])
  show "case_returns (DeleteRequest_wf h) i (DeleteRequest_switch h f w b i m)" if "DeleteRequest_wf h m" for f w i m
    using that assms(2) by (auto simp: DeleteRequest_switch_def DeleteRequest_wf_def vt_DeleteOperation.fresh_wf split: option.split intro!: case_returns
      case_returns_message [where J = "DeleteOperation_wf h"] vt_DeleteOperation.returns [OF assms(1)])
qed (auto simp: DeleteRequest_wf_def unknown_ok_append)

interpretation vt_DeleteRequest: vt_message h "DeleteRequest_MarshalToSizedBufferVT h" "DeleteRequest_SizeVT h" "DeleteRequest_UnmarshalVT h" DeleteRequest_fresh
  "\<lambda>m. True" "DeleteRequest_wf h" for h
  by unfold_locales
    (auto simp: DeleteRequest_size DeleteRequest_returns DeleteRequest_fresh_wf, auto simp: DeleteRequest_UnmarshalVT_def decodes_all DeleteRequest_decodes,
      simp_all add: DeleteRequest_MarshalToSizedBufferVT_def DeleteRequest_SizeVT_def)

section \<open>DeleteResult: exact size and round trip\<close>

lemma DeleteResult_size:
  assumes "helpers_ok h"
  shows "DeleteResult_SizeVT h (Some m) = length (DeleteResult_MarshalToSizedBufferVT h (Some m))"
  by (simp add: DeleteResult_SizeVT_def DeleteResult_MarshalToSizedBufferVT_def 
      put_length [OF assms(1)] put_strings_length [OF assms(1)] vt_Failure.put_field_length [OF assms(1)])

lemma DeleteResult_decodes:
  assumes ok: "helpers_ok h" and "DeleteResult_wf h m"
  shows "decodes (DeleteResult_loop h) (DeleteResult_MarshalToSizedBufferVT h (Some m)) DeleteResult_fresh m"
proof -
  let ?m = "\<lambda>x1 x2 x3 u. \<lparr>pbDeleteResult_OperationIndex = x1, pbDeleteResult_Status = x2, pbDeleteResult_Failure = x3, pbDeleteResult_unknownFields = u\<rparr>"
  obtain x1 x2 x3 u where m: "m = ?m x1 x2 x3 u" and u: "unknown_ok h (DeleteResult_switch h) u"
    and wf: "opt_ok (Failure_wf h) x3"
    using assms(2) by (cases m) (auto simp: DeleteResult_wf_def)
  have d3: "decodes (DeleteResult_loop h) u (?m x1 x2 x3 []) (?m x1 x2 x3 u)"
    using decodes_unknown [OF u, where us = "[]" and upd = "?m x1 x2 x3"] by simp
  let ?b2 = "put_message h 0x1a (Failure_MarshalToSizedBufferVT h) x3 u"
  have d2: "decodes (DeleteResult_loop h) ?b2 (?m x1 x2 None []) (?m x1 x2 x3 u)"
    by (rule decodes_message [where nm = "''Failure''" and upd = "\<lambda>v. ?m x1 x2 v []",
          OF ok _ _ _ _ _ vt_Failure.option_round_trip [OF ok wf(1)] d3]) (simp_all add: DeleteResult_switch_def)
  let ?b1 = "put_varint h 0x10 (scast x2) ?b2"
  have d1: "decodes (DeleteResult_loop h) ?b1 (?m x1 0 None []) (?m x1 x2 x3 u)"
    by (rule decodes_varint [where nm = "''Status''" and upd = "\<lambda>v. ?m x1 v None []",
          OF ok _ _ _ _ _ _ d2]) (simp_all add: DeleteResult_switch_def)
  let ?b0 = "put_varint h 0x8 (ucast x1) ?b1"
  have d0: "decodes (DeleteResult_loop h) ?b0 (?m 0 0 None []) (?m x1 x2 x3 u)"
    by (rule decodes_varint [where nm = "''OperationIndex''" and upd = "\<lambda>v. ?m v 0 None []",
          OF ok _ _ _ _ _ _ d1]) (simp_all add: DeleteResult_switch_def)
  show ?thesis using d0 by (simp add: m DeleteResult_MarshalToSizedBufferVT_def DeleteResult_fresh_def)
qed

lemma DeleteResult_default: "DeleteResult_switch h f w d i m = Default \<Longrightarrow> DeleteResult_switch h f w' d' i' m' = Default"
  by (auto simp: DeleteResult_switch_def split: if_splits)

lemma DeleteResult_fresh_wf: "DeleteResult_wf h DeleteResult_fresh"
  by (simp add: DeleteResult_wf_def DeleteResult_fresh_def)

lemma DeleteResult_returns:
  assumes "skip_ok h" and "length b < 2 ^ 63" and "DeleteResult_wf h m"
  shows "returns_with (DeleteResult_wf h) (DeleteResult_UnmarshalVT h b m)"
  unfolding DeleteResult_UnmarshalVT_def
proof (rule unmarshal_loop_returns [where I = "DeleteResult_wf h", OF assms(1) _ DeleteResult_default _ assms(3)])
  show "case_returns (DeleteResult_wf h) i (DeleteResult_switch h f w b i m)" if "DeleteResult_wf h m" for f w i m
    using that assms(2) by (auto simp: DeleteResult_switch_def DeleteResult_wf_def vt_Failure.fresh_wf split: option.split intro!: case_returns
      case_returns_message [where J = "Failure_wf h"] vt_Failure.returns [OF assms(1)])
qed (auto simp: DeleteResult_wf_def unknown_ok_append)

interpretation vt_DeleteResult: vt_message h "DeleteResult_MarshalToSizedBufferVT h" "DeleteResult_SizeVT h" "DeleteResult_UnmarshalVT h" DeleteResult_fresh
  "\<lambda>m. True" "DeleteResult_wf h" for h
  by unfold_locales
    (auto simp: DeleteResult_size DeleteResult_returns DeleteResult_fresh_wf, auto simp: DeleteResult_UnmarshalVT_def decodes_all DeleteResult_decodes,
      simp_all add: DeleteResult_MarshalToSizedBufferVT_def DeleteResult_SizeVT_def)

section \<open>DeleteResponse: exact size and round trip\<close>

lemma DeleteResponse_size:
  assumes "helpers_ok h"
  shows "DeleteResponse_SizeVT h (Some m) = length (DeleteResponse_MarshalToSizedBufferVT h (Some m))"
  by (simp add: DeleteResponse_SizeVT_def DeleteResponse_MarshalToSizedBufferVT_def 
      put_length [OF assms(1)] put_strings_length [OF assms(1)] vt_DeleteResult.put_fields_length [OF assms(1)])

lemma DeleteResponse_decodes:
  assumes ok: "helpers_ok h" and "DeleteResponse_wf h m"
  shows "decodes (DeleteResponse_loop h) (DeleteResponse_MarshalToSizedBufferVT h (Some m)) DeleteResponse_fresh m"
proof -
  let ?m = "\<lambda>x1 u. \<lparr>pbDeleteResponse_Results = x1, pbDeleteResponse_unknownFields = u\<rparr>"
  obtain x1 u where m: "m = ?m x1 u" and u: "unknown_ok h (DeleteResponse_switch h) u"
    and wf: "each_ok (DeleteResult_wf h) x1"
    using assms(2) by (cases m) (auto simp: DeleteResponse_wf_def)
  have d1: "decodes (DeleteResponse_loop h) u (?m x1 []) (?m x1 u)"
    using decodes_unknown [OF u, where us = "[]" and upd = "?m x1"] by simp
  let ?b0 = "put_messages h 0xa (DeleteResult_MarshalToSizedBufferVT h) x1 u"
  have d0: "decodes (DeleteResponse_loop h) ?b0 (?m [] []) (?m x1 u)"
    by (rule decodes_messages [where nm = "''Results''" and upd = "\<lambda>v. ?m v []" and xs = "[]" and ms = x1, unfolded append_Nil,
          OF ok _ _ _ _ vt_DeleteResult.element_round_trip [OF ok wf(1)] d1]) (simp_all add: DeleteResponse_switch_def)
  show ?thesis using d0 by (simp add: m DeleteResponse_MarshalToSizedBufferVT_def DeleteResponse_fresh_def)
qed

lemma DeleteResponse_default: "DeleteResponse_switch h f w d i m = Default \<Longrightarrow> DeleteResponse_switch h f w' d' i' m' = Default"
  by (auto simp: DeleteResponse_switch_def split: if_splits)

lemma DeleteResponse_fresh_wf: "DeleteResponse_wf h DeleteResponse_fresh"
  by (simp add: DeleteResponse_wf_def DeleteResponse_fresh_def)

lemma DeleteResponse_returns:
  assumes "skip_ok h" and "length b < 2 ^ 63" and "DeleteResponse_wf h m"
  shows "returns_with (DeleteResponse_wf h) (DeleteResponse_UnmarshalVT h b m)"
  unfolding DeleteResponse_UnmarshalVT_def
proof (rule unmarshal_loop_returns [where I = "DeleteResponse_wf h", OF assms(1) _ DeleteResponse_default _ assms(3)])
  show "case_returns (DeleteResponse_wf h) i (DeleteResponse_switch h f w b i m)" if "DeleteResponse_wf h m" for f w i m
    using that assms(2) by (auto simp: DeleteResponse_switch_def DeleteResponse_wf_def vt_DeleteResult.fresh_wf split: option.split intro!: case_returns
      case_returns_message [where J = "DeleteResult_wf h"] vt_DeleteResult.returns [OF assms(1)])
qed (auto simp: DeleteResponse_wf_def unknown_ok_append)

interpretation vt_DeleteResponse: vt_message h "DeleteResponse_MarshalToSizedBufferVT h" "DeleteResponse_SizeVT h" "DeleteResponse_UnmarshalVT h" DeleteResponse_fresh
  "\<lambda>m. True" "DeleteResponse_wf h" for h
  by unfold_locales
    (auto simp: DeleteResponse_size DeleteResponse_returns DeleteResponse_fresh_wf, auto simp: DeleteResponse_UnmarshalVT_def decodes_all DeleteResponse_decodes,
      simp_all add: DeleteResponse_MarshalToSizedBufferVT_def DeleteResponse_SizeVT_def)

end
