(* ===== verification/Vt_Native.thy ===== *)
theory Vt_Native
  imports Vt_Read
begin

text \<open>
  The messages of the native calls: headers, commands, sort fields, projections, and the requests and responses of
  \<^verbatim>\<open>Execute\<close>, \<^verbatim>\<open>Query\<close>, \<^verbatim>\<open>Count\<close> and \<^verbatim>\<open>Scan\<close>.
  One group of definitions per message, each the translation of the generated method of that name in
  \<^verbatim>\<open>api/sink/v1/sink_vtproto.pb.go\<close>: \<open>MarshalToSizedBufferVT\<close>, \<open>SizeVT\<close> and \<open>UnmarshalVT\<close>, the last split into the field switch and the loop
  around it; \<open>fresh\<close> is the message \<^verbatim>\<open>&T{}\<close>. Then, per message, that the size is exact and that reading inverts writing, as an
  interpretation of the interface that the messages containing it use.
\<close>

unbundle bit_operations_syntax

section \<open>Header\<close>

definition Header_MarshalToSizedBufferVT :: "protohelpers \<Rightarrow> pbHeader option \<Rightarrow> bytes" where
  "Header_MarshalToSizedBufferVT h msg =
     (case msg of
        None \<Rightarrow> []
      | Some m \<Rightarrow>
          put_bytes h 0xa (pbHeader_Name m) (
          put_strings h 0x12 (pbHeader_Values m) (
          pbHeader_unknownFields m)))"

definition Header_SizeVT :: "protohelpers \<Rightarrow> pbHeader option \<Rightarrow> nat" where
  "Header_SizeVT h msg =
     (case msg of
        None \<Rightarrow> 0
      | Some m \<Rightarrow>
          size_bytes h (pbHeader_Name m)
          + size_strings h (pbHeader_Values m)
          + length (pbHeader_unknownFields m))"

definition Header_fresh :: pbHeader where
  "Header_fresh = \<lparr>pbHeader_Name = [], pbHeader_Values = [], pbHeader_unknownFields = []\<rparr>"

definition Header_switch :: "protohelpers \<Rightarrow> int \<Rightarrow> nat \<Rightarrow> bytes \<Rightarrow> nat \<Rightarrow> pbHeader \<Rightarrow> pbHeader field_case" where
  "Header_switch h fieldNum wireType dAtA iNdEx m =
     (if fieldNum = 1 then get_bytes ''Name'' wireType dAtA iNdEx (\<lambda>v. m\<lparr>pbHeader_Name := v\<rparr>)
      else if fieldNum = 2 then get_bytes ''Values'' wireType dAtA iNdEx (\<lambda>v. m\<lparr>pbHeader_Values := pbHeader_Values m @ [v]\<rparr>)
      else Default)"

abbreviation Header_loop :: "protohelpers \<Rightarrow> bytes \<Rightarrow> nat \<Rightarrow> pbHeader \<Rightarrow> pbHeader result option" where
  "Header_loop h \<equiv> unmarshal_loop h ''Header'' (Header_switch h)
     (\<lambda>b m. m\<lparr>pbHeader_unknownFields := pbHeader_unknownFields m @ b\<rparr>)"

definition Header_UnmarshalVT :: "protohelpers \<Rightarrow> bytes \<Rightarrow> pbHeader \<Rightarrow> pbHeader result option" where
  "Header_UnmarshalVT h dAtA m = Header_loop h dAtA 0 m"

definition Header_wf :: "protohelpers \<Rightarrow> pbHeader \<Rightarrow> bool" where
  "Header_wf h m \<longleftrightarrow> unknown_ok h (Header_switch h) (pbHeader_unknownFields m)"

section \<open>Command\<close>

definition Command_MarshalToSizedBufferVT :: "protohelpers \<Rightarrow> pbCommand option \<Rightarrow> bytes" where
  "Command_MarshalToSizedBufferVT h msg =
     (case msg of
        None \<Rightarrow> []
      | Some m \<Rightarrow>
          put_bytes h 0xa (pbCommand_Uri m) (
          put_bytes h 0x12 (pbCommand_Method m) (
          put_bytes h 0x1a (pbCommand_Path m) (
          put_bytes h 0x22 (pbCommand_Query m) (
          put_messages h 0x2a (Header_MarshalToSizedBufferVT h) (pbCommand_Headers m) (
          put_bytes h 0x32 (pbCommand_ContentType m) (
          put_bytes h 0x3a (pbCommand_Payload m) (
          pbCommand_unknownFields m))))))))"

definition Command_SizeVT :: "protohelpers \<Rightarrow> pbCommand option \<Rightarrow> nat" where
  "Command_SizeVT h msg =
     (case msg of
        None \<Rightarrow> 0
      | Some m \<Rightarrow>
          size_bytes h (pbCommand_Uri m)
          + size_bytes h (pbCommand_Method m)
          + size_bytes h (pbCommand_Path m)
          + size_bytes h (pbCommand_Query m)
          + size_messages h (Header_SizeVT h) (pbCommand_Headers m)
          + size_bytes h (pbCommand_ContentType m)
          + size_bytes h (pbCommand_Payload m)
          + length (pbCommand_unknownFields m))"

definition Command_fresh :: pbCommand where
  "Command_fresh = \<lparr>pbCommand_Uri = [], pbCommand_Method = [], pbCommand_Path = [], pbCommand_Query = [], pbCommand_Headers = [], pbCommand_ContentType = [], pbCommand_Payload = [], pbCommand_unknownFields = []\<rparr>"

definition Command_switch :: "protohelpers \<Rightarrow> int \<Rightarrow> nat \<Rightarrow> bytes \<Rightarrow> nat \<Rightarrow> pbCommand \<Rightarrow> pbCommand field_case" where
  "Command_switch h fieldNum wireType dAtA iNdEx m =
     (if fieldNum = 1 then get_bytes ''Uri'' wireType dAtA iNdEx (\<lambda>v. m\<lparr>pbCommand_Uri := v\<rparr>)
      else if fieldNum = 2 then get_bytes ''Method'' wireType dAtA iNdEx (\<lambda>v. m\<lparr>pbCommand_Method := v\<rparr>)
      else if fieldNum = 3 then get_bytes ''Path'' wireType dAtA iNdEx (\<lambda>v. m\<lparr>pbCommand_Path := v\<rparr>)
      else if fieldNum = 4 then get_bytes ''Query'' wireType dAtA iNdEx (\<lambda>v. m\<lparr>pbCommand_Query := v\<rparr>)
      else if fieldNum = 5 then get_message ''Headers'' wireType dAtA iNdEx
           (\<lambda>b. Header_UnmarshalVT h b Header_fresh) (\<lambda>v. m\<lparr>pbCommand_Headers := pbCommand_Headers m @ [Some v]\<rparr>)
      else if fieldNum = 6 then get_bytes ''ContentType'' wireType dAtA iNdEx (\<lambda>v. m\<lparr>pbCommand_ContentType := v\<rparr>)
      else if fieldNum = 7 then get_bytes ''Payload'' wireType dAtA iNdEx (\<lambda>v. m\<lparr>pbCommand_Payload := v\<rparr>)
      else Default)"

abbreviation Command_loop :: "protohelpers \<Rightarrow> bytes \<Rightarrow> nat \<Rightarrow> pbCommand \<Rightarrow> pbCommand result option" where
  "Command_loop h \<equiv> unmarshal_loop h ''Command'' (Command_switch h)
     (\<lambda>b m. m\<lparr>pbCommand_unknownFields := pbCommand_unknownFields m @ b\<rparr>)"

definition Command_UnmarshalVT :: "protohelpers \<Rightarrow> bytes \<Rightarrow> pbCommand \<Rightarrow> pbCommand result option" where
  "Command_UnmarshalVT h dAtA m = Command_loop h dAtA 0 m"

definition Command_wf :: "protohelpers \<Rightarrow> pbCommand \<Rightarrow> bool" where
  "Command_wf h m \<longleftrightarrow> unknown_ok h (Command_switch h) (pbCommand_unknownFields m) \<and> each_ok (Header_wf h) (pbCommand_Headers m)"

section \<open>ExecuteRequest\<close>

definition ExecuteRequest_MarshalToSizedBufferVT :: "protohelpers \<Rightarrow> pbExecuteRequest option \<Rightarrow> bytes" where
  "ExecuteRequest_MarshalToSizedBufferVT h msg =
     (case msg of
        None \<Rightarrow> []
      | Some m \<Rightarrow>
          put_message h 0xa (Command_MarshalToSizedBufferVT h) (pbExecuteRequest_Command m) (
          pbExecuteRequest_unknownFields m))"

definition ExecuteRequest_SizeVT :: "protohelpers \<Rightarrow> pbExecuteRequest option \<Rightarrow> nat" where
  "ExecuteRequest_SizeVT h msg =
     (case msg of
        None \<Rightarrow> 0
      | Some m \<Rightarrow>
          size_message h (Command_SizeVT h) (pbExecuteRequest_Command m)
          + length (pbExecuteRequest_unknownFields m))"

definition ExecuteRequest_fresh :: pbExecuteRequest where
  "ExecuteRequest_fresh = \<lparr>pbExecuteRequest_Command = None, pbExecuteRequest_unknownFields = []\<rparr>"

definition ExecuteRequest_switch :: "protohelpers \<Rightarrow> int \<Rightarrow> nat \<Rightarrow> bytes \<Rightarrow> nat \<Rightarrow> pbExecuteRequest \<Rightarrow> pbExecuteRequest field_case" where
  "ExecuteRequest_switch h fieldNum wireType dAtA iNdEx m =
     (if fieldNum = 1 then get_message ''Command'' wireType dAtA iNdEx
           (\<lambda>b. Command_UnmarshalVT h b (case pbExecuteRequest_Command m of None \<Rightarrow> Command_fresh | Some v \<Rightarrow> v)) (\<lambda>v. m\<lparr>pbExecuteRequest_Command := Some v\<rparr>)
      else Default)"

abbreviation ExecuteRequest_loop :: "protohelpers \<Rightarrow> bytes \<Rightarrow> nat \<Rightarrow> pbExecuteRequest \<Rightarrow> pbExecuteRequest result option" where
  "ExecuteRequest_loop h \<equiv> unmarshal_loop h ''ExecuteRequest'' (ExecuteRequest_switch h)
     (\<lambda>b m. m\<lparr>pbExecuteRequest_unknownFields := pbExecuteRequest_unknownFields m @ b\<rparr>)"

definition ExecuteRequest_UnmarshalVT :: "protohelpers \<Rightarrow> bytes \<Rightarrow> pbExecuteRequest \<Rightarrow> pbExecuteRequest result option" where
  "ExecuteRequest_UnmarshalVT h dAtA m = ExecuteRequest_loop h dAtA 0 m"

definition ExecuteRequest_wf :: "protohelpers \<Rightarrow> pbExecuteRequest \<Rightarrow> bool" where
  "ExecuteRequest_wf h m \<longleftrightarrow> unknown_ok h (ExecuteRequest_switch h) (pbExecuteRequest_unknownFields m) \<and> opt_ok (Command_wf h) (pbExecuteRequest_Command m)"

section \<open>ExecuteResponse\<close>

definition ExecuteResponse_MarshalToSizedBufferVT :: "protohelpers \<Rightarrow> pbExecuteResponse option \<Rightarrow> bytes" where
  "ExecuteResponse_MarshalToSizedBufferVT h msg =
     (case msg of
        None \<Rightarrow> []
      | Some m \<Rightarrow>
          put_bytes h 0xa (pbExecuteResponse_ContentType m) (
          put_bytes h 0x12 (pbExecuteResponse_Payload m) (
          put_bool 0x18 (pbExecuteResponse_Success m) (
          put_varint h 0x20 (ucast (pbExecuteResponse_StatusCode m)) (
          put_messages h 0x2a (Header_MarshalToSizedBufferVT h) (pbExecuteResponse_Headers m) (
          pbExecuteResponse_unknownFields m))))))"

definition ExecuteResponse_SizeVT :: "protohelpers \<Rightarrow> pbExecuteResponse option \<Rightarrow> nat" where
  "ExecuteResponse_SizeVT h msg =
     (case msg of
        None \<Rightarrow> 0
      | Some m \<Rightarrow>
          size_bytes h (pbExecuteResponse_ContentType m)
          + size_bytes h (pbExecuteResponse_Payload m)
          + size_bool (pbExecuteResponse_Success m)
          + size_varint h (ucast (pbExecuteResponse_StatusCode m))
          + size_messages h (Header_SizeVT h) (pbExecuteResponse_Headers m)
          + length (pbExecuteResponse_unknownFields m))"

definition ExecuteResponse_fresh :: pbExecuteResponse where
  "ExecuteResponse_fresh = \<lparr>pbExecuteResponse_ContentType = [], pbExecuteResponse_Payload = [], pbExecuteResponse_Success = False, pbExecuteResponse_StatusCode = 0, pbExecuteResponse_Headers = [], pbExecuteResponse_unknownFields = []\<rparr>"

definition ExecuteResponse_switch :: "protohelpers \<Rightarrow> int \<Rightarrow> nat \<Rightarrow> bytes \<Rightarrow> nat \<Rightarrow> pbExecuteResponse \<Rightarrow> pbExecuteResponse field_case" where
  "ExecuteResponse_switch h fieldNum wireType dAtA iNdEx m =
     (if fieldNum = 1 then get_bytes ''ContentType'' wireType dAtA iNdEx (\<lambda>v. m\<lparr>pbExecuteResponse_ContentType := v\<rparr>)
      else if fieldNum = 2 then get_bytes ''Payload'' wireType dAtA iNdEx (\<lambda>v. m\<lparr>pbExecuteResponse_Payload := v\<rparr>)
      else if fieldNum = 3 then get_bool ''Success'' wireType dAtA iNdEx (\<lambda>v. m\<lparr>pbExecuteResponse_Success := v\<rparr>)
      else if fieldNum = 4 then get_varint ''StatusCode'' wireType dAtA iNdEx (\<lambda>v. m\<lparr>pbExecuteResponse_StatusCode := v\<rparr>)
      else if fieldNum = 5 then get_message ''Headers'' wireType dAtA iNdEx
           (\<lambda>b. Header_UnmarshalVT h b Header_fresh) (\<lambda>v. m\<lparr>pbExecuteResponse_Headers := pbExecuteResponse_Headers m @ [Some v]\<rparr>)
      else Default)"

abbreviation ExecuteResponse_loop :: "protohelpers \<Rightarrow> bytes \<Rightarrow> nat \<Rightarrow> pbExecuteResponse \<Rightarrow> pbExecuteResponse result option" where
  "ExecuteResponse_loop h \<equiv> unmarshal_loop h ''ExecuteResponse'' (ExecuteResponse_switch h)
     (\<lambda>b m. m\<lparr>pbExecuteResponse_unknownFields := pbExecuteResponse_unknownFields m @ b\<rparr>)"

definition ExecuteResponse_UnmarshalVT :: "protohelpers \<Rightarrow> bytes \<Rightarrow> pbExecuteResponse \<Rightarrow> pbExecuteResponse result option" where
  "ExecuteResponse_UnmarshalVT h dAtA m = ExecuteResponse_loop h dAtA 0 m"

definition ExecuteResponse_wf :: "protohelpers \<Rightarrow> pbExecuteResponse \<Rightarrow> bool" where
  "ExecuteResponse_wf h m \<longleftrightarrow> unknown_ok h (ExecuteResponse_switch h) (pbExecuteResponse_unknownFields m) \<and> each_ok (Header_wf h) (pbExecuteResponse_Headers m)"

section \<open>SortField\<close>

definition SortField_MarshalToSizedBufferVT :: "protohelpers \<Rightarrow> pbSortField option \<Rightarrow> bytes" where
  "SortField_MarshalToSizedBufferVT h msg =
     (case msg of
        None \<Rightarrow> []
      | Some m \<Rightarrow>
          put_bytes h 0xa (pbSortField_Field m) (
          put_bool 0x10 (pbSortField_Descending m) (
          pbSortField_unknownFields m)))"

definition SortField_SizeVT :: "protohelpers \<Rightarrow> pbSortField option \<Rightarrow> nat" where
  "SortField_SizeVT h msg =
     (case msg of
        None \<Rightarrow> 0
      | Some m \<Rightarrow>
          size_bytes h (pbSortField_Field m)
          + size_bool (pbSortField_Descending m)
          + length (pbSortField_unknownFields m))"

definition SortField_fresh :: pbSortField where
  "SortField_fresh = \<lparr>pbSortField_Field = [], pbSortField_Descending = False, pbSortField_unknownFields = []\<rparr>"

definition SortField_switch :: "protohelpers \<Rightarrow> int \<Rightarrow> nat \<Rightarrow> bytes \<Rightarrow> nat \<Rightarrow> pbSortField \<Rightarrow> pbSortField field_case" where
  "SortField_switch h fieldNum wireType dAtA iNdEx m =
     (if fieldNum = 1 then get_bytes ''Field'' wireType dAtA iNdEx (\<lambda>v. m\<lparr>pbSortField_Field := v\<rparr>)
      else if fieldNum = 2 then get_bool ''Descending'' wireType dAtA iNdEx (\<lambda>v. m\<lparr>pbSortField_Descending := v\<rparr>)
      else Default)"

abbreviation SortField_loop :: "protohelpers \<Rightarrow> bytes \<Rightarrow> nat \<Rightarrow> pbSortField \<Rightarrow> pbSortField result option" where
  "SortField_loop h \<equiv> unmarshal_loop h ''SortField'' (SortField_switch h)
     (\<lambda>b m. m\<lparr>pbSortField_unknownFields := pbSortField_unknownFields m @ b\<rparr>)"

definition SortField_UnmarshalVT :: "protohelpers \<Rightarrow> bytes \<Rightarrow> pbSortField \<Rightarrow> pbSortField result option" where
  "SortField_UnmarshalVT h dAtA m = SortField_loop h dAtA 0 m"

definition SortField_wf :: "protohelpers \<Rightarrow> pbSortField \<Rightarrow> bool" where
  "SortField_wf h m \<longleftrightarrow> unknown_ok h (SortField_switch h) (pbSortField_unknownFields m)"

section \<open>Projection\<close>

definition Projection_MarshalToSizedBufferVT :: "protohelpers \<Rightarrow> pbProjection option \<Rightarrow> bytes" where
  "Projection_MarshalToSizedBufferVT h msg =
     (case msg of
        None \<Rightarrow> []
      | Some m \<Rightarrow>
          put_strings h 0xa (pbProjection_Fields m) (
          put_bool 0x10 (pbProjection_Exclude m) (
          pbProjection_unknownFields m)))"

definition Projection_SizeVT :: "protohelpers \<Rightarrow> pbProjection option \<Rightarrow> nat" where
  "Projection_SizeVT h msg =
     (case msg of
        None \<Rightarrow> 0
      | Some m \<Rightarrow>
          size_strings h (pbProjection_Fields m)
          + size_bool (pbProjection_Exclude m)
          + length (pbProjection_unknownFields m))"

definition Projection_fresh :: pbProjection where
  "Projection_fresh = \<lparr>pbProjection_Fields = [], pbProjection_Exclude = False, pbProjection_unknownFields = []\<rparr>"

definition Projection_switch :: "protohelpers \<Rightarrow> int \<Rightarrow> nat \<Rightarrow> bytes \<Rightarrow> nat \<Rightarrow> pbProjection \<Rightarrow> pbProjection field_case" where
  "Projection_switch h fieldNum wireType dAtA iNdEx m =
     (if fieldNum = 1 then get_bytes ''Fields'' wireType dAtA iNdEx (\<lambda>v. m\<lparr>pbProjection_Fields := pbProjection_Fields m @ [v]\<rparr>)
      else if fieldNum = 2 then get_bool ''Exclude'' wireType dAtA iNdEx (\<lambda>v. m\<lparr>pbProjection_Exclude := v\<rparr>)
      else Default)"

abbreviation Projection_loop :: "protohelpers \<Rightarrow> bytes \<Rightarrow> nat \<Rightarrow> pbProjection \<Rightarrow> pbProjection result option" where
  "Projection_loop h \<equiv> unmarshal_loop h ''Projection'' (Projection_switch h)
     (\<lambda>b m. m\<lparr>pbProjection_unknownFields := pbProjection_unknownFields m @ b\<rparr>)"

definition Projection_UnmarshalVT :: "protohelpers \<Rightarrow> bytes \<Rightarrow> pbProjection \<Rightarrow> pbProjection result option" where
  "Projection_UnmarshalVT h dAtA m = Projection_loop h dAtA 0 m"

definition Projection_wf :: "protohelpers \<Rightarrow> pbProjection \<Rightarrow> bool" where
  "Projection_wf h m \<longleftrightarrow> unknown_ok h (Projection_switch h) (pbProjection_unknownFields m)"

section \<open>QueryRequest\<close>

definition QueryRequest_MarshalToSizedBufferVT :: "protohelpers \<Rightarrow> pbQueryRequest option \<Rightarrow> bytes" where
  "QueryRequest_MarshalToSizedBufferVT h msg =
     (case msg of
        None \<Rightarrow> []
      | Some m \<Rightarrow>
          put_message h 0xa (Command_MarshalToSizedBufferVT h) (pbQueryRequest_Command m) (
          put_varint h 0x10 (ucast (pbQueryRequest_Page m)) (
          put_varint h 0x18 (ucast (pbQueryRequest_PageSize m)) (
          put_messages h 0x22 (SortField_MarshalToSizedBufferVT h) (pbQueryRequest_Sort m) (
          put_message h 0x2a (Projection_MarshalToSizedBufferVT h) (pbQueryRequest_Projection m) (
          pbQueryRequest_unknownFields m))))))"

definition QueryRequest_SizeVT :: "protohelpers \<Rightarrow> pbQueryRequest option \<Rightarrow> nat" where
  "QueryRequest_SizeVT h msg =
     (case msg of
        None \<Rightarrow> 0
      | Some m \<Rightarrow>
          size_message h (Command_SizeVT h) (pbQueryRequest_Command m)
          + size_varint h (ucast (pbQueryRequest_Page m))
          + size_varint h (ucast (pbQueryRequest_PageSize m))
          + size_messages h (SortField_SizeVT h) (pbQueryRequest_Sort m)
          + size_message h (Projection_SizeVT h) (pbQueryRequest_Projection m)
          + length (pbQueryRequest_unknownFields m))"

definition QueryRequest_fresh :: pbQueryRequest where
  "QueryRequest_fresh = \<lparr>pbQueryRequest_Command = None, pbQueryRequest_Page = 0, pbQueryRequest_PageSize = 0, pbQueryRequest_Sort = [], pbQueryRequest_Projection = None, pbQueryRequest_unknownFields = []\<rparr>"

definition QueryRequest_switch :: "protohelpers \<Rightarrow> int \<Rightarrow> nat \<Rightarrow> bytes \<Rightarrow> nat \<Rightarrow> pbQueryRequest \<Rightarrow> pbQueryRequest field_case" where
  "QueryRequest_switch h fieldNum wireType dAtA iNdEx m =
     (if fieldNum = 1 then get_message ''Command'' wireType dAtA iNdEx
           (\<lambda>b. Command_UnmarshalVT h b (case pbQueryRequest_Command m of None \<Rightarrow> Command_fresh | Some v \<Rightarrow> v)) (\<lambda>v. m\<lparr>pbQueryRequest_Command := Some v\<rparr>)
      else if fieldNum = 2 then get_varint ''Page'' wireType dAtA iNdEx (\<lambda>v. m\<lparr>pbQueryRequest_Page := v\<rparr>)
      else if fieldNum = 3 then get_varint ''PageSize'' wireType dAtA iNdEx (\<lambda>v. m\<lparr>pbQueryRequest_PageSize := v\<rparr>)
      else if fieldNum = 4 then get_message ''Sort'' wireType dAtA iNdEx
           (\<lambda>b. SortField_UnmarshalVT h b SortField_fresh) (\<lambda>v. m\<lparr>pbQueryRequest_Sort := pbQueryRequest_Sort m @ [Some v]\<rparr>)
      else if fieldNum = 5 then get_message ''Projection'' wireType dAtA iNdEx
           (\<lambda>b. Projection_UnmarshalVT h b (case pbQueryRequest_Projection m of None \<Rightarrow> Projection_fresh | Some v \<Rightarrow> v)) (\<lambda>v. m\<lparr>pbQueryRequest_Projection := Some v\<rparr>)
      else Default)"

abbreviation QueryRequest_loop :: "protohelpers \<Rightarrow> bytes \<Rightarrow> nat \<Rightarrow> pbQueryRequest \<Rightarrow> pbQueryRequest result option" where
  "QueryRequest_loop h \<equiv> unmarshal_loop h ''QueryRequest'' (QueryRequest_switch h)
     (\<lambda>b m. m\<lparr>pbQueryRequest_unknownFields := pbQueryRequest_unknownFields m @ b\<rparr>)"

definition QueryRequest_UnmarshalVT :: "protohelpers \<Rightarrow> bytes \<Rightarrow> pbQueryRequest \<Rightarrow> pbQueryRequest result option" where
  "QueryRequest_UnmarshalVT h dAtA m = QueryRequest_loop h dAtA 0 m"

definition QueryRequest_wf :: "protohelpers \<Rightarrow> pbQueryRequest \<Rightarrow> bool" where
  "QueryRequest_wf h m \<longleftrightarrow> unknown_ok h (QueryRequest_switch h) (pbQueryRequest_unknownFields m) \<and> opt_ok (Command_wf h) (pbQueryRequest_Command m) \<and> each_ok (SortField_wf h) (pbQueryRequest_Sort m) \<and> opt_ok (Projection_wf h) (pbQueryRequest_Projection m)"

section \<open>QueryResponse\<close>

definition QueryResponse_MarshalToSizedBufferVT :: "protohelpers \<Rightarrow> pbQueryResponse option \<Rightarrow> bytes" where
  "QueryResponse_MarshalToSizedBufferVT h msg =
     (case msg of
        None \<Rightarrow> []
      | Some m \<Rightarrow>
          put_messages h 0xa (Document_MarshalToSizedBufferVT h) (pbQueryResponse_Documents m) (
          put_bool 0x10 (pbQueryResponse_HasMore m) (
          pbQueryResponse_unknownFields m)))"

definition QueryResponse_SizeVT :: "protohelpers \<Rightarrow> pbQueryResponse option \<Rightarrow> nat" where
  "QueryResponse_SizeVT h msg =
     (case msg of
        None \<Rightarrow> 0
      | Some m \<Rightarrow>
          size_messages h (Document_SizeVT h) (pbQueryResponse_Documents m)
          + size_bool (pbQueryResponse_HasMore m)
          + length (pbQueryResponse_unknownFields m))"

definition QueryResponse_fresh :: pbQueryResponse where
  "QueryResponse_fresh = \<lparr>pbQueryResponse_Documents = [], pbQueryResponse_HasMore = False, pbQueryResponse_unknownFields = []\<rparr>"

definition QueryResponse_switch :: "protohelpers \<Rightarrow> int \<Rightarrow> nat \<Rightarrow> bytes \<Rightarrow> nat \<Rightarrow> pbQueryResponse \<Rightarrow> pbQueryResponse field_case" where
  "QueryResponse_switch h fieldNum wireType dAtA iNdEx m =
     (if fieldNum = 1 then get_message ''Documents'' wireType dAtA iNdEx
           (\<lambda>b. Document_UnmarshalVT h b Document_fresh) (\<lambda>v. m\<lparr>pbQueryResponse_Documents := pbQueryResponse_Documents m @ [Some v]\<rparr>)
      else if fieldNum = 2 then get_bool ''HasMore'' wireType dAtA iNdEx (\<lambda>v. m\<lparr>pbQueryResponse_HasMore := v\<rparr>)
      else Default)"

abbreviation QueryResponse_loop :: "protohelpers \<Rightarrow> bytes \<Rightarrow> nat \<Rightarrow> pbQueryResponse \<Rightarrow> pbQueryResponse result option" where
  "QueryResponse_loop h \<equiv> unmarshal_loop h ''QueryResponse'' (QueryResponse_switch h)
     (\<lambda>b m. m\<lparr>pbQueryResponse_unknownFields := pbQueryResponse_unknownFields m @ b\<rparr>)"

definition QueryResponse_UnmarshalVT :: "protohelpers \<Rightarrow> bytes \<Rightarrow> pbQueryResponse \<Rightarrow> pbQueryResponse result option" where
  "QueryResponse_UnmarshalVT h dAtA m = QueryResponse_loop h dAtA 0 m"

definition QueryResponse_wf :: "protohelpers \<Rightarrow> pbQueryResponse \<Rightarrow> bool" where
  "QueryResponse_wf h m \<longleftrightarrow> unknown_ok h (QueryResponse_switch h) (pbQueryResponse_unknownFields m) \<and> each_ok (Document_wf h) (pbQueryResponse_Documents m)"

section \<open>CountRequest\<close>

definition CountRequest_MarshalToSizedBufferVT :: "protohelpers \<Rightarrow> pbCountRequest option \<Rightarrow> bytes" where
  "CountRequest_MarshalToSizedBufferVT h msg =
     (case msg of
        None \<Rightarrow> []
      | Some m \<Rightarrow>
          put_message h 0xa (Command_MarshalToSizedBufferVT h) (pbCountRequest_Command m) (
          pbCountRequest_unknownFields m))"

definition CountRequest_SizeVT :: "protohelpers \<Rightarrow> pbCountRequest option \<Rightarrow> nat" where
  "CountRequest_SizeVT h msg =
     (case msg of
        None \<Rightarrow> 0
      | Some m \<Rightarrow>
          size_message h (Command_SizeVT h) (pbCountRequest_Command m)
          + length (pbCountRequest_unknownFields m))"

definition CountRequest_fresh :: pbCountRequest where
  "CountRequest_fresh = \<lparr>pbCountRequest_Command = None, pbCountRequest_unknownFields = []\<rparr>"

definition CountRequest_switch :: "protohelpers \<Rightarrow> int \<Rightarrow> nat \<Rightarrow> bytes \<Rightarrow> nat \<Rightarrow> pbCountRequest \<Rightarrow> pbCountRequest field_case" where
  "CountRequest_switch h fieldNum wireType dAtA iNdEx m =
     (if fieldNum = 1 then get_message ''Command'' wireType dAtA iNdEx
           (\<lambda>b. Command_UnmarshalVT h b (case pbCountRequest_Command m of None \<Rightarrow> Command_fresh | Some v \<Rightarrow> v)) (\<lambda>v. m\<lparr>pbCountRequest_Command := Some v\<rparr>)
      else Default)"

abbreviation CountRequest_loop :: "protohelpers \<Rightarrow> bytes \<Rightarrow> nat \<Rightarrow> pbCountRequest \<Rightarrow> pbCountRequest result option" where
  "CountRequest_loop h \<equiv> unmarshal_loop h ''CountRequest'' (CountRequest_switch h)
     (\<lambda>b m. m\<lparr>pbCountRequest_unknownFields := pbCountRequest_unknownFields m @ b\<rparr>)"

definition CountRequest_UnmarshalVT :: "protohelpers \<Rightarrow> bytes \<Rightarrow> pbCountRequest \<Rightarrow> pbCountRequest result option" where
  "CountRequest_UnmarshalVT h dAtA m = CountRequest_loop h dAtA 0 m"

definition CountRequest_wf :: "protohelpers \<Rightarrow> pbCountRequest \<Rightarrow> bool" where
  "CountRequest_wf h m \<longleftrightarrow> unknown_ok h (CountRequest_switch h) (pbCountRequest_unknownFields m) \<and> opt_ok (Command_wf h) (pbCountRequest_Command m)"

section \<open>CountResponse\<close>

definition CountResponse_MarshalToSizedBufferVT :: "protohelpers \<Rightarrow> pbCountResponse option \<Rightarrow> bytes" where
  "CountResponse_MarshalToSizedBufferVT h msg =
     (case msg of
        None \<Rightarrow> []
      | Some m \<Rightarrow>
          put_varint h 0x8 (pbCountResponse_Count m) (
          put_bool 0x10 (pbCountResponse_Estimated m) (
          pbCountResponse_unknownFields m)))"

definition CountResponse_SizeVT :: "protohelpers \<Rightarrow> pbCountResponse option \<Rightarrow> nat" where
  "CountResponse_SizeVT h msg =
     (case msg of
        None \<Rightarrow> 0
      | Some m \<Rightarrow>
          size_varint h (pbCountResponse_Count m)
          + size_bool (pbCountResponse_Estimated m)
          + length (pbCountResponse_unknownFields m))"

definition CountResponse_fresh :: pbCountResponse where
  "CountResponse_fresh = \<lparr>pbCountResponse_Count = 0, pbCountResponse_Estimated = False, pbCountResponse_unknownFields = []\<rparr>"

definition CountResponse_switch :: "protohelpers \<Rightarrow> int \<Rightarrow> nat \<Rightarrow> bytes \<Rightarrow> nat \<Rightarrow> pbCountResponse \<Rightarrow> pbCountResponse field_case" where
  "CountResponse_switch h fieldNum wireType dAtA iNdEx m =
     (if fieldNum = 1 then get_varint ''Count'' wireType dAtA iNdEx (\<lambda>v. m\<lparr>pbCountResponse_Count := v\<rparr>)
      else if fieldNum = 2 then get_bool ''Estimated'' wireType dAtA iNdEx (\<lambda>v. m\<lparr>pbCountResponse_Estimated := v\<rparr>)
      else Default)"

abbreviation CountResponse_loop :: "protohelpers \<Rightarrow> bytes \<Rightarrow> nat \<Rightarrow> pbCountResponse \<Rightarrow> pbCountResponse result option" where
  "CountResponse_loop h \<equiv> unmarshal_loop h ''CountResponse'' (CountResponse_switch h)
     (\<lambda>b m. m\<lparr>pbCountResponse_unknownFields := pbCountResponse_unknownFields m @ b\<rparr>)"

definition CountResponse_UnmarshalVT :: "protohelpers \<Rightarrow> bytes \<Rightarrow> pbCountResponse \<Rightarrow> pbCountResponse result option" where
  "CountResponse_UnmarshalVT h dAtA m = CountResponse_loop h dAtA 0 m"

definition CountResponse_wf :: "protohelpers \<Rightarrow> pbCountResponse \<Rightarrow> bool" where
  "CountResponse_wf h m \<longleftrightarrow> unknown_ok h (CountResponse_switch h) (pbCountResponse_unknownFields m)"

section \<open>ScanRequest\<close>

definition ScanRequest_MarshalToSizedBufferVT :: "protohelpers \<Rightarrow> pbScanRequest option \<Rightarrow> bytes" where
  "ScanRequest_MarshalToSizedBufferVT h msg =
     (case msg of
        None \<Rightarrow> []
      | Some m \<Rightarrow>
          put_message h 0xa (Command_MarshalToSizedBufferVT h) (pbScanRequest_Command m) (
          put_varint h 0x10 (ucast (pbScanRequest_BatchSize m)) (
          put_bytes h 0x1a (pbScanRequest_Cursor m) (
          put_message h 0x22 (Projection_MarshalToSizedBufferVT h) (pbScanRequest_Projection m) (
          pbScanRequest_unknownFields m)))))"

definition ScanRequest_SizeVT :: "protohelpers \<Rightarrow> pbScanRequest option \<Rightarrow> nat" where
  "ScanRequest_SizeVT h msg =
     (case msg of
        None \<Rightarrow> 0
      | Some m \<Rightarrow>
          size_message h (Command_SizeVT h) (pbScanRequest_Command m)
          + size_varint h (ucast (pbScanRequest_BatchSize m))
          + size_bytes h (pbScanRequest_Cursor m)
          + size_message h (Projection_SizeVT h) (pbScanRequest_Projection m)
          + length (pbScanRequest_unknownFields m))"

definition ScanRequest_fresh :: pbScanRequest where
  "ScanRequest_fresh = \<lparr>pbScanRequest_Command = None, pbScanRequest_BatchSize = 0, pbScanRequest_Cursor = [], pbScanRequest_Projection = None, pbScanRequest_unknownFields = []\<rparr>"

definition ScanRequest_switch :: "protohelpers \<Rightarrow> int \<Rightarrow> nat \<Rightarrow> bytes \<Rightarrow> nat \<Rightarrow> pbScanRequest \<Rightarrow> pbScanRequest field_case" where
  "ScanRequest_switch h fieldNum wireType dAtA iNdEx m =
     (if fieldNum = 1 then get_message ''Command'' wireType dAtA iNdEx
           (\<lambda>b. Command_UnmarshalVT h b (case pbScanRequest_Command m of None \<Rightarrow> Command_fresh | Some v \<Rightarrow> v)) (\<lambda>v. m\<lparr>pbScanRequest_Command := Some v\<rparr>)
      else if fieldNum = 2 then get_varint ''BatchSize'' wireType dAtA iNdEx (\<lambda>v. m\<lparr>pbScanRequest_BatchSize := v\<rparr>)
      else if fieldNum = 3 then get_bytes ''Cursor'' wireType dAtA iNdEx (\<lambda>v. m\<lparr>pbScanRequest_Cursor := v\<rparr>)
      else if fieldNum = 4 then get_message ''Projection'' wireType dAtA iNdEx
           (\<lambda>b. Projection_UnmarshalVT h b (case pbScanRequest_Projection m of None \<Rightarrow> Projection_fresh | Some v \<Rightarrow> v)) (\<lambda>v. m\<lparr>pbScanRequest_Projection := Some v\<rparr>)
      else Default)"

abbreviation ScanRequest_loop :: "protohelpers \<Rightarrow> bytes \<Rightarrow> nat \<Rightarrow> pbScanRequest \<Rightarrow> pbScanRequest result option" where
  "ScanRequest_loop h \<equiv> unmarshal_loop h ''ScanRequest'' (ScanRequest_switch h)
     (\<lambda>b m. m\<lparr>pbScanRequest_unknownFields := pbScanRequest_unknownFields m @ b\<rparr>)"

definition ScanRequest_UnmarshalVT :: "protohelpers \<Rightarrow> bytes \<Rightarrow> pbScanRequest \<Rightarrow> pbScanRequest result option" where
  "ScanRequest_UnmarshalVT h dAtA m = ScanRequest_loop h dAtA 0 m"

definition ScanRequest_wf :: "protohelpers \<Rightarrow> pbScanRequest \<Rightarrow> bool" where
  "ScanRequest_wf h m \<longleftrightarrow> unknown_ok h (ScanRequest_switch h) (pbScanRequest_unknownFields m) \<and> opt_ok (Command_wf h) (pbScanRequest_Command m) \<and> opt_ok (Projection_wf h) (pbScanRequest_Projection m)"

section \<open>ScanResponse\<close>

definition ScanResponse_MarshalToSizedBufferVT :: "protohelpers \<Rightarrow> pbScanResponse option \<Rightarrow> bytes" where
  "ScanResponse_MarshalToSizedBufferVT h msg =
     (case msg of
        None \<Rightarrow> []
      | Some m \<Rightarrow>
          put_messages h 0xa (Document_MarshalToSizedBufferVT h) (pbScanResponse_Documents m) (
          put_bytes h 0x12 (pbScanResponse_NextCursor m) (
          pbScanResponse_unknownFields m)))"

definition ScanResponse_SizeVT :: "protohelpers \<Rightarrow> pbScanResponse option \<Rightarrow> nat" where
  "ScanResponse_SizeVT h msg =
     (case msg of
        None \<Rightarrow> 0
      | Some m \<Rightarrow>
          size_messages h (Document_SizeVT h) (pbScanResponse_Documents m)
          + size_bytes h (pbScanResponse_NextCursor m)
          + length (pbScanResponse_unknownFields m))"

definition ScanResponse_fresh :: pbScanResponse where
  "ScanResponse_fresh = \<lparr>pbScanResponse_Documents = [], pbScanResponse_NextCursor = [], pbScanResponse_unknownFields = []\<rparr>"

definition ScanResponse_switch :: "protohelpers \<Rightarrow> int \<Rightarrow> nat \<Rightarrow> bytes \<Rightarrow> nat \<Rightarrow> pbScanResponse \<Rightarrow> pbScanResponse field_case" where
  "ScanResponse_switch h fieldNum wireType dAtA iNdEx m =
     (if fieldNum = 1 then get_message ''Documents'' wireType dAtA iNdEx
           (\<lambda>b. Document_UnmarshalVT h b Document_fresh) (\<lambda>v. m\<lparr>pbScanResponse_Documents := pbScanResponse_Documents m @ [Some v]\<rparr>)
      else if fieldNum = 2 then get_bytes ''NextCursor'' wireType dAtA iNdEx (\<lambda>v. m\<lparr>pbScanResponse_NextCursor := v\<rparr>)
      else Default)"

abbreviation ScanResponse_loop :: "protohelpers \<Rightarrow> bytes \<Rightarrow> nat \<Rightarrow> pbScanResponse \<Rightarrow> pbScanResponse result option" where
  "ScanResponse_loop h \<equiv> unmarshal_loop h ''ScanResponse'' (ScanResponse_switch h)
     (\<lambda>b m. m\<lparr>pbScanResponse_unknownFields := pbScanResponse_unknownFields m @ b\<rparr>)"

definition ScanResponse_UnmarshalVT :: "protohelpers \<Rightarrow> bytes \<Rightarrow> pbScanResponse \<Rightarrow> pbScanResponse result option" where
  "ScanResponse_UnmarshalVT h dAtA m = ScanResponse_loop h dAtA 0 m"

definition ScanResponse_wf :: "protohelpers \<Rightarrow> pbScanResponse \<Rightarrow> bool" where
  "ScanResponse_wf h m \<longleftrightarrow> unknown_ok h (ScanResponse_switch h) (pbScanResponse_unknownFields m) \<and> each_ok (Document_wf h) (pbScanResponse_Documents m)"

section \<open>Header: exact size and round trip\<close>

lemma Header_size:
  assumes "helpers_ok h"
  shows "Header_SizeVT h (Some m) = length (Header_MarshalToSizedBufferVT h (Some m))"
  by (simp add: Header_SizeVT_def Header_MarshalToSizedBufferVT_def 
      put_length [OF assms(1)] put_strings_length [OF assms(1)])

lemma Header_decodes:
  assumes ok: "helpers_ok h" and "Header_wf h m"
  shows "decodes (Header_loop h) (Header_MarshalToSizedBufferVT h (Some m)) Header_fresh m"
proof -
  let ?m = "\<lambda>x1 x2 u. \<lparr>pbHeader_Name = x1, pbHeader_Values = x2, pbHeader_unknownFields = u\<rparr>"
  obtain x1 x2 u where m: "m = ?m x1 x2 u" and u: "unknown_ok h (Header_switch h) u"
    using assms(2) by (cases m) (auto simp: Header_wf_def)
  have d2: "decodes (Header_loop h) u (?m x1 x2 []) (?m x1 x2 u)"
    using decodes_unknown [OF u, where us = "[]" and upd = "?m x1 x2"] by simp
  let ?b1 = "put_strings h 0x12 x2 u"
  have d1: "decodes (Header_loop h) ?b1 (?m x1 [] []) (?m x1 x2 u)"
    by (rule decodes_strings [where nm = "''Values''" and upd = "\<lambda>v. ?m x1 v []" and xs = "[]", simplified,
          OF ok _ _ _ _ d2]) (simp_all add: Header_switch_def)
  let ?b0 = "put_bytes h 0xa x1 ?b1"
  have d0: "decodes (Header_loop h) ?b0 (?m [] [] []) (?m x1 x2 u)"
    by (rule decodes_bytes [where nm = "''Name''" and upd = "\<lambda>v. ?m v [] []",
          OF ok _ _ _ _ _ d1]) (simp_all add: Header_switch_def)
  show ?thesis using d0 by (simp add: m Header_MarshalToSizedBufferVT_def Header_fresh_def)
qed

lemma Header_default: "Header_switch h f w d i m = Default \<Longrightarrow> Header_switch h f w' d' i' m' = Default"
  by (auto simp: Header_switch_def split: if_splits)

lemma Header_fresh_wf: "Header_wf h Header_fresh"
  by (simp add: Header_wf_def Header_fresh_def)

lemma Header_returns:
  assumes "skip_ok h" and "length b < 2 ^ 63" and "Header_wf h m"
  shows "returns_with (Header_wf h) (Header_UnmarshalVT h b m)"
  unfolding Header_UnmarshalVT_def
proof (rule unmarshal_loop_returns [where I = "Header_wf h", OF assms(1) _ Header_default _ assms(3)])
  show "case_returns (Header_wf h) i (Header_switch h f w b i m)" if "Header_wf h m" for f w i m
    using that assms(2) by (auto simp: Header_switch_def Header_wf_def split: option.split intro!: case_returns)
qed (auto simp: Header_wf_def unknown_ok_append)

interpretation vt_Header: vt_message h "Header_MarshalToSizedBufferVT h" "Header_SizeVT h" "Header_UnmarshalVT h" Header_fresh
  "\<lambda>m. True" "Header_wf h" for h
  by unfold_locales
    (auto simp: Header_size Header_returns Header_fresh_wf, auto simp: Header_UnmarshalVT_def decodes_all Header_decodes,
      simp_all add: Header_MarshalToSizedBufferVT_def Header_SizeVT_def)

section \<open>Command: exact size and round trip\<close>

lemma Command_size:
  assumes "helpers_ok h"
  shows "Command_SizeVT h (Some m) = length (Command_MarshalToSizedBufferVT h (Some m))"
  by (simp add: Command_SizeVT_def Command_MarshalToSizedBufferVT_def 
      put_length [OF assms(1)] put_strings_length [OF assms(1)] vt_Header.put_fields_length [OF assms(1)])

lemma Command_decodes:
  assumes ok: "helpers_ok h" and "Command_wf h m"
  shows "decodes (Command_loop h) (Command_MarshalToSizedBufferVT h (Some m)) Command_fresh m"
proof -
  let ?m = "\<lambda>x1 x2 x3 x4 x5 x6 x7 u. \<lparr>pbCommand_Uri = x1, pbCommand_Method = x2, pbCommand_Path = x3, pbCommand_Query = x4, pbCommand_Headers = x5, pbCommand_ContentType = x6, pbCommand_Payload = x7, pbCommand_unknownFields = u\<rparr>"
  obtain x1 x2 x3 x4 x5 x6 x7 u where m: "m = ?m x1 x2 x3 x4 x5 x6 x7 u" and u: "unknown_ok h (Command_switch h) u"
    and wf: "each_ok (Header_wf h) x5"
    using assms(2) by (cases m) (auto simp: Command_wf_def)
  have d7: "decodes (Command_loop h) u (?m x1 x2 x3 x4 x5 x6 x7 []) (?m x1 x2 x3 x4 x5 x6 x7 u)"
    using decodes_unknown [OF u, where us = "[]" and upd = "?m x1 x2 x3 x4 x5 x6 x7"] by simp
  let ?b6 = "put_bytes h 0x3a x7 u"
  have d6: "decodes (Command_loop h) ?b6 (?m x1 x2 x3 x4 x5 x6 [] []) (?m x1 x2 x3 x4 x5 x6 x7 u)"
    by (rule decodes_bytes [where nm = "''Payload''" and upd = "\<lambda>v. ?m x1 x2 x3 x4 x5 x6 v []",
          OF ok _ _ _ _ _ d7]) (simp_all add: Command_switch_def)
  let ?b5 = "put_bytes h 0x32 x6 ?b6"
  have d5: "decodes (Command_loop h) ?b5 (?m x1 x2 x3 x4 x5 [] [] []) (?m x1 x2 x3 x4 x5 x6 x7 u)"
    by (rule decodes_bytes [where nm = "''ContentType''" and upd = "\<lambda>v. ?m x1 x2 x3 x4 x5 v [] []",
          OF ok _ _ _ _ _ d6]) (simp_all add: Command_switch_def)
  let ?b4 = "put_messages h 0x2a (Header_MarshalToSizedBufferVT h) x5 ?b5"
  have d4: "decodes (Command_loop h) ?b4 (?m x1 x2 x3 x4 [] [] [] []) (?m x1 x2 x3 x4 x5 x6 x7 u)"
    by (rule decodes_messages [where nm = "''Headers''" and upd = "\<lambda>v. ?m x1 x2 x3 x4 v [] [] []" and xs = "[]" and ms = x5, unfolded append_Nil,
          OF ok _ _ _ _ vt_Header.element_round_trip [OF ok wf(1)] d5]) (simp_all add: Command_switch_def)
  let ?b3 = "put_bytes h 0x22 x4 ?b4"
  have d3: "decodes (Command_loop h) ?b3 (?m x1 x2 x3 [] [] [] [] []) (?m x1 x2 x3 x4 x5 x6 x7 u)"
    by (rule decodes_bytes [where nm = "''Query''" and upd = "\<lambda>v. ?m x1 x2 x3 v [] [] [] []",
          OF ok _ _ _ _ _ d4]) (simp_all add: Command_switch_def)
  let ?b2 = "put_bytes h 0x1a x3 ?b3"
  have d2: "decodes (Command_loop h) ?b2 (?m x1 x2 [] [] [] [] [] []) (?m x1 x2 x3 x4 x5 x6 x7 u)"
    by (rule decodes_bytes [where nm = "''Path''" and upd = "\<lambda>v. ?m x1 x2 v [] [] [] [] []",
          OF ok _ _ _ _ _ d3]) (simp_all add: Command_switch_def)
  let ?b1 = "put_bytes h 0x12 x2 ?b2"
  have d1: "decodes (Command_loop h) ?b1 (?m x1 [] [] [] [] [] [] []) (?m x1 x2 x3 x4 x5 x6 x7 u)"
    by (rule decodes_bytes [where nm = "''Method''" and upd = "\<lambda>v. ?m x1 v [] [] [] [] [] []",
          OF ok _ _ _ _ _ d2]) (simp_all add: Command_switch_def)
  let ?b0 = "put_bytes h 0xa x1 ?b1"
  have d0: "decodes (Command_loop h) ?b0 (?m [] [] [] [] [] [] [] []) (?m x1 x2 x3 x4 x5 x6 x7 u)"
    by (rule decodes_bytes [where nm = "''Uri''" and upd = "\<lambda>v. ?m v [] [] [] [] [] [] []",
          OF ok _ _ _ _ _ d1]) (simp_all add: Command_switch_def)
  show ?thesis using d0 by (simp add: m Command_MarshalToSizedBufferVT_def Command_fresh_def)
qed

lemma Command_default: "Command_switch h f w d i m = Default \<Longrightarrow> Command_switch h f w' d' i' m' = Default"
  by (auto simp: Command_switch_def split: if_splits)

lemma Command_fresh_wf: "Command_wf h Command_fresh"
  by (simp add: Command_wf_def Command_fresh_def)

lemma Command_returns:
  assumes "skip_ok h" and "length b < 2 ^ 63" and "Command_wf h m"
  shows "returns_with (Command_wf h) (Command_UnmarshalVT h b m)"
  unfolding Command_UnmarshalVT_def
proof (rule unmarshal_loop_returns [where I = "Command_wf h", OF assms(1) _ Command_default _ assms(3)])
  show "case_returns (Command_wf h) i (Command_switch h f w b i m)" if "Command_wf h m" for f w i m
    using that assms(2) by (auto simp: Command_switch_def Command_wf_def vt_Header.fresh_wf split: option.split intro!: case_returns
      case_returns_message [where J = "Header_wf h"] vt_Header.returns [OF assms(1)])
qed (auto simp: Command_wf_def unknown_ok_append)

interpretation vt_Command: vt_message h "Command_MarshalToSizedBufferVT h" "Command_SizeVT h" "Command_UnmarshalVT h" Command_fresh
  "\<lambda>m. True" "Command_wf h" for h
  by unfold_locales
    (auto simp: Command_size Command_returns Command_fresh_wf, auto simp: Command_UnmarshalVT_def decodes_all Command_decodes,
      simp_all add: Command_MarshalToSizedBufferVT_def Command_SizeVT_def)

section \<open>ExecuteRequest: exact size and round trip\<close>

lemma ExecuteRequest_size:
  assumes "helpers_ok h"
  shows "ExecuteRequest_SizeVT h (Some m) = length (ExecuteRequest_MarshalToSizedBufferVT h (Some m))"
  by (simp add: ExecuteRequest_SizeVT_def ExecuteRequest_MarshalToSizedBufferVT_def 
      put_length [OF assms(1)] put_strings_length [OF assms(1)] vt_Command.put_field_length [OF assms(1)])

lemma ExecuteRequest_decodes:
  assumes ok: "helpers_ok h" and "ExecuteRequest_wf h m"
  shows "decodes (ExecuteRequest_loop h) (ExecuteRequest_MarshalToSizedBufferVT h (Some m)) ExecuteRequest_fresh m"
proof -
  let ?m = "\<lambda>x1 u. \<lparr>pbExecuteRequest_Command = x1, pbExecuteRequest_unknownFields = u\<rparr>"
  obtain x1 u where m: "m = ?m x1 u" and u: "unknown_ok h (ExecuteRequest_switch h) u"
    and wf: "opt_ok (Command_wf h) x1"
    using assms(2) by (cases m) (auto simp: ExecuteRequest_wf_def)
  have d1: "decodes (ExecuteRequest_loop h) u (?m x1 []) (?m x1 u)"
    using decodes_unknown [OF u, where us = "[]" and upd = "?m x1"] by simp
  let ?b0 = "put_message h 0xa (Command_MarshalToSizedBufferVT h) x1 u"
  have d0: "decodes (ExecuteRequest_loop h) ?b0 (?m None []) (?m x1 u)"
    by (rule decodes_message [where nm = "''Command''" and upd = "\<lambda>v. ?m v []",
          OF ok _ _ _ _ _ vt_Command.option_round_trip [OF ok wf(1)] d1]) (simp_all add: ExecuteRequest_switch_def)
  show ?thesis using d0 by (simp add: m ExecuteRequest_MarshalToSizedBufferVT_def ExecuteRequest_fresh_def)
qed

lemma ExecuteRequest_default: "ExecuteRequest_switch h f w d i m = Default \<Longrightarrow> ExecuteRequest_switch h f w' d' i' m' = Default"
  by (auto simp: ExecuteRequest_switch_def split: if_splits)

lemma ExecuteRequest_fresh_wf: "ExecuteRequest_wf h ExecuteRequest_fresh"
  by (simp add: ExecuteRequest_wf_def ExecuteRequest_fresh_def)

lemma ExecuteRequest_returns:
  assumes "skip_ok h" and "length b < 2 ^ 63" and "ExecuteRequest_wf h m"
  shows "returns_with (ExecuteRequest_wf h) (ExecuteRequest_UnmarshalVT h b m)"
  unfolding ExecuteRequest_UnmarshalVT_def
proof (rule unmarshal_loop_returns [where I = "ExecuteRequest_wf h", OF assms(1) _ ExecuteRequest_default _ assms(3)])
  show "case_returns (ExecuteRequest_wf h) i (ExecuteRequest_switch h f w b i m)" if "ExecuteRequest_wf h m" for f w i m
    using that assms(2) by (auto simp: ExecuteRequest_switch_def ExecuteRequest_wf_def vt_Command.fresh_wf split: option.split intro!: case_returns
      case_returns_message [where J = "Command_wf h"] vt_Command.returns [OF assms(1)])
qed (auto simp: ExecuteRequest_wf_def unknown_ok_append)

interpretation vt_ExecuteRequest: vt_message h "ExecuteRequest_MarshalToSizedBufferVT h" "ExecuteRequest_SizeVT h" "ExecuteRequest_UnmarshalVT h" ExecuteRequest_fresh
  "\<lambda>m. True" "ExecuteRequest_wf h" for h
  by unfold_locales
    (auto simp: ExecuteRequest_size ExecuteRequest_returns ExecuteRequest_fresh_wf, auto simp: ExecuteRequest_UnmarshalVT_def decodes_all ExecuteRequest_decodes,
      simp_all add: ExecuteRequest_MarshalToSizedBufferVT_def ExecuteRequest_SizeVT_def)

section \<open>ExecuteResponse: exact size and round trip\<close>

lemma ExecuteResponse_size:
  assumes "helpers_ok h"
  shows "ExecuteResponse_SizeVT h (Some m) = length (ExecuteResponse_MarshalToSizedBufferVT h (Some m))"
  by (simp add: ExecuteResponse_SizeVT_def ExecuteResponse_MarshalToSizedBufferVT_def 
      put_length [OF assms(1)] put_strings_length [OF assms(1)] vt_Header.put_fields_length [OF assms(1)])

lemma ExecuteResponse_decodes:
  assumes ok: "helpers_ok h" and "ExecuteResponse_wf h m"
  shows "decodes (ExecuteResponse_loop h) (ExecuteResponse_MarshalToSizedBufferVT h (Some m)) ExecuteResponse_fresh m"
proof -
  let ?m = "\<lambda>x1 x2 x3 x4 x5 u. \<lparr>pbExecuteResponse_ContentType = x1, pbExecuteResponse_Payload = x2, pbExecuteResponse_Success = x3, pbExecuteResponse_StatusCode = x4, pbExecuteResponse_Headers = x5, pbExecuteResponse_unknownFields = u\<rparr>"
  obtain x1 x2 x3 x4 x5 u where m: "m = ?m x1 x2 x3 x4 x5 u" and u: "unknown_ok h (ExecuteResponse_switch h) u"
    and wf: "each_ok (Header_wf h) x5"
    using assms(2) by (cases m) (auto simp: ExecuteResponse_wf_def)
  have d5: "decodes (ExecuteResponse_loop h) u (?m x1 x2 x3 x4 x5 []) (?m x1 x2 x3 x4 x5 u)"
    using decodes_unknown [OF u, where us = "[]" and upd = "?m x1 x2 x3 x4 x5"] by simp
  let ?b4 = "put_messages h 0x2a (Header_MarshalToSizedBufferVT h) x5 u"
  have d4: "decodes (ExecuteResponse_loop h) ?b4 (?m x1 x2 x3 x4 [] []) (?m x1 x2 x3 x4 x5 u)"
    by (rule decodes_messages [where nm = "''Headers''" and upd = "\<lambda>v. ?m x1 x2 x3 x4 v []" and xs = "[]" and ms = x5, unfolded append_Nil,
          OF ok _ _ _ _ vt_Header.element_round_trip [OF ok wf(1)] d5]) (simp_all add: ExecuteResponse_switch_def)
  let ?b3 = "put_varint h 0x20 (ucast x4) ?b4"
  have d3: "decodes (ExecuteResponse_loop h) ?b3 (?m x1 x2 x3 0 [] []) (?m x1 x2 x3 x4 x5 u)"
    by (rule decodes_varint [where nm = "''StatusCode''" and upd = "\<lambda>v. ?m x1 x2 x3 v [] []",
          OF ok _ _ _ _ _ _ d4]) (simp_all add: ExecuteResponse_switch_def)
  let ?b2 = "put_bool 0x18 x3 ?b3"
  have d2: "decodes (ExecuteResponse_loop h) ?b2 (?m x1 x2 False 0 [] []) (?m x1 x2 x3 x4 x5 u)"
    by (rule decodes_bool [where nm = "''Success''" and upd = "\<lambda>v. ?m x1 x2 v 0 [] []",
          OF _ _ _ _ _ d3]) (simp_all add: ExecuteResponse_switch_def)
  let ?b1 = "put_bytes h 0x12 x2 ?b2"
  have d1: "decodes (ExecuteResponse_loop h) ?b1 (?m x1 [] False 0 [] []) (?m x1 x2 x3 x4 x5 u)"
    by (rule decodes_bytes [where nm = "''Payload''" and upd = "\<lambda>v. ?m x1 v False 0 [] []",
          OF ok _ _ _ _ _ d2]) (simp_all add: ExecuteResponse_switch_def)
  let ?b0 = "put_bytes h 0xa x1 ?b1"
  have d0: "decodes (ExecuteResponse_loop h) ?b0 (?m [] [] False 0 [] []) (?m x1 x2 x3 x4 x5 u)"
    by (rule decodes_bytes [where nm = "''ContentType''" and upd = "\<lambda>v. ?m v [] False 0 [] []",
          OF ok _ _ _ _ _ d1]) (simp_all add: ExecuteResponse_switch_def)
  show ?thesis using d0 by (simp add: m ExecuteResponse_MarshalToSizedBufferVT_def ExecuteResponse_fresh_def)
qed

lemma ExecuteResponse_default: "ExecuteResponse_switch h f w d i m = Default \<Longrightarrow> ExecuteResponse_switch h f w' d' i' m' = Default"
  by (auto simp: ExecuteResponse_switch_def split: if_splits)

lemma ExecuteResponse_fresh_wf: "ExecuteResponse_wf h ExecuteResponse_fresh"
  by (simp add: ExecuteResponse_wf_def ExecuteResponse_fresh_def)

lemma ExecuteResponse_returns:
  assumes "skip_ok h" and "length b < 2 ^ 63" and "ExecuteResponse_wf h m"
  shows "returns_with (ExecuteResponse_wf h) (ExecuteResponse_UnmarshalVT h b m)"
  unfolding ExecuteResponse_UnmarshalVT_def
proof (rule unmarshal_loop_returns [where I = "ExecuteResponse_wf h", OF assms(1) _ ExecuteResponse_default _ assms(3)])
  show "case_returns (ExecuteResponse_wf h) i (ExecuteResponse_switch h f w b i m)" if "ExecuteResponse_wf h m" for f w i m
    using that assms(2) by (auto simp: ExecuteResponse_switch_def ExecuteResponse_wf_def vt_Header.fresh_wf split: option.split intro!: case_returns
      case_returns_message [where J = "Header_wf h"] vt_Header.returns [OF assms(1)])
qed (auto simp: ExecuteResponse_wf_def unknown_ok_append)

interpretation vt_ExecuteResponse: vt_message h "ExecuteResponse_MarshalToSizedBufferVT h" "ExecuteResponse_SizeVT h" "ExecuteResponse_UnmarshalVT h" ExecuteResponse_fresh
  "\<lambda>m. True" "ExecuteResponse_wf h" for h
  by unfold_locales
    (auto simp: ExecuteResponse_size ExecuteResponse_returns ExecuteResponse_fresh_wf, auto simp: ExecuteResponse_UnmarshalVT_def decodes_all ExecuteResponse_decodes,
      simp_all add: ExecuteResponse_MarshalToSizedBufferVT_def ExecuteResponse_SizeVT_def)

section \<open>SortField: exact size and round trip\<close>

lemma SortField_size:
  assumes "helpers_ok h"
  shows "SortField_SizeVT h (Some m) = length (SortField_MarshalToSizedBufferVT h (Some m))"
  by (simp add: SortField_SizeVT_def SortField_MarshalToSizedBufferVT_def 
      put_length [OF assms(1)] put_strings_length [OF assms(1)])

lemma SortField_decodes:
  assumes ok: "helpers_ok h" and "SortField_wf h m"
  shows "decodes (SortField_loop h) (SortField_MarshalToSizedBufferVT h (Some m)) SortField_fresh m"
proof -
  let ?m = "\<lambda>x1 x2 u. \<lparr>pbSortField_Field = x1, pbSortField_Descending = x2, pbSortField_unknownFields = u\<rparr>"
  obtain x1 x2 u where m: "m = ?m x1 x2 u" and u: "unknown_ok h (SortField_switch h) u"
    using assms(2) by (cases m) (auto simp: SortField_wf_def)
  have d2: "decodes (SortField_loop h) u (?m x1 x2 []) (?m x1 x2 u)"
    using decodes_unknown [OF u, where us = "[]" and upd = "?m x1 x2"] by simp
  let ?b1 = "put_bool 0x10 x2 u"
  have d1: "decodes (SortField_loop h) ?b1 (?m x1 False []) (?m x1 x2 u)"
    by (rule decodes_bool [where nm = "''Descending''" and upd = "\<lambda>v. ?m x1 v []",
          OF _ _ _ _ _ d2]) (simp_all add: SortField_switch_def)
  let ?b0 = "put_bytes h 0xa x1 ?b1"
  have d0: "decodes (SortField_loop h) ?b0 (?m [] False []) (?m x1 x2 u)"
    by (rule decodes_bytes [where nm = "''Field''" and upd = "\<lambda>v. ?m v False []",
          OF ok _ _ _ _ _ d1]) (simp_all add: SortField_switch_def)
  show ?thesis using d0 by (simp add: m SortField_MarshalToSizedBufferVT_def SortField_fresh_def)
qed

lemma SortField_default: "SortField_switch h f w d i m = Default \<Longrightarrow> SortField_switch h f w' d' i' m' = Default"
  by (auto simp: SortField_switch_def split: if_splits)

lemma SortField_fresh_wf: "SortField_wf h SortField_fresh"
  by (simp add: SortField_wf_def SortField_fresh_def)

lemma SortField_returns:
  assumes "skip_ok h" and "length b < 2 ^ 63" and "SortField_wf h m"
  shows "returns_with (SortField_wf h) (SortField_UnmarshalVT h b m)"
  unfolding SortField_UnmarshalVT_def
proof (rule unmarshal_loop_returns [where I = "SortField_wf h", OF assms(1) _ SortField_default _ assms(3)])
  show "case_returns (SortField_wf h) i (SortField_switch h f w b i m)" if "SortField_wf h m" for f w i m
    using that assms(2) by (auto simp: SortField_switch_def SortField_wf_def split: option.split intro!: case_returns)
qed (auto simp: SortField_wf_def unknown_ok_append)

interpretation vt_SortField: vt_message h "SortField_MarshalToSizedBufferVT h" "SortField_SizeVT h" "SortField_UnmarshalVT h" SortField_fresh
  "\<lambda>m. True" "SortField_wf h" for h
  by unfold_locales
    (auto simp: SortField_size SortField_returns SortField_fresh_wf, auto simp: SortField_UnmarshalVT_def decodes_all SortField_decodes,
      simp_all add: SortField_MarshalToSizedBufferVT_def SortField_SizeVT_def)

section \<open>Projection: exact size and round trip\<close>

lemma Projection_size:
  assumes "helpers_ok h"
  shows "Projection_SizeVT h (Some m) = length (Projection_MarshalToSizedBufferVT h (Some m))"
  by (simp add: Projection_SizeVT_def Projection_MarshalToSizedBufferVT_def 
      put_length [OF assms(1)] put_strings_length [OF assms(1)])

lemma Projection_decodes:
  assumes ok: "helpers_ok h" and "Projection_wf h m"
  shows "decodes (Projection_loop h) (Projection_MarshalToSizedBufferVT h (Some m)) Projection_fresh m"
proof -
  let ?m = "\<lambda>x1 x2 u. \<lparr>pbProjection_Fields = x1, pbProjection_Exclude = x2, pbProjection_unknownFields = u\<rparr>"
  obtain x1 x2 u where m: "m = ?m x1 x2 u" and u: "unknown_ok h (Projection_switch h) u"
    using assms(2) by (cases m) (auto simp: Projection_wf_def)
  have d2: "decodes (Projection_loop h) u (?m x1 x2 []) (?m x1 x2 u)"
    using decodes_unknown [OF u, where us = "[]" and upd = "?m x1 x2"] by simp
  let ?b1 = "put_bool 0x10 x2 u"
  have d1: "decodes (Projection_loop h) ?b1 (?m x1 False []) (?m x1 x2 u)"
    by (rule decodes_bool [where nm = "''Exclude''" and upd = "\<lambda>v. ?m x1 v []",
          OF _ _ _ _ _ d2]) (simp_all add: Projection_switch_def)
  let ?b0 = "put_strings h 0xa x1 ?b1"
  have d0: "decodes (Projection_loop h) ?b0 (?m [] False []) (?m x1 x2 u)"
    by (rule decodes_strings [where nm = "''Fields''" and upd = "\<lambda>v. ?m v False []" and xs = "[]", simplified,
          OF ok _ _ _ _ d1]) (simp_all add: Projection_switch_def)
  show ?thesis using d0 by (simp add: m Projection_MarshalToSizedBufferVT_def Projection_fresh_def)
qed

lemma Projection_default: "Projection_switch h f w d i m = Default \<Longrightarrow> Projection_switch h f w' d' i' m' = Default"
  by (auto simp: Projection_switch_def split: if_splits)

lemma Projection_fresh_wf: "Projection_wf h Projection_fresh"
  by (simp add: Projection_wf_def Projection_fresh_def)

lemma Projection_returns:
  assumes "skip_ok h" and "length b < 2 ^ 63" and "Projection_wf h m"
  shows "returns_with (Projection_wf h) (Projection_UnmarshalVT h b m)"
  unfolding Projection_UnmarshalVT_def
proof (rule unmarshal_loop_returns [where I = "Projection_wf h", OF assms(1) _ Projection_default _ assms(3)])
  show "case_returns (Projection_wf h) i (Projection_switch h f w b i m)" if "Projection_wf h m" for f w i m
    using that assms(2) by (auto simp: Projection_switch_def Projection_wf_def split: option.split intro!: case_returns)
qed (auto simp: Projection_wf_def unknown_ok_append)

interpretation vt_Projection: vt_message h "Projection_MarshalToSizedBufferVT h" "Projection_SizeVT h" "Projection_UnmarshalVT h" Projection_fresh
  "\<lambda>m. True" "Projection_wf h" for h
  by unfold_locales
    (auto simp: Projection_size Projection_returns Projection_fresh_wf, auto simp: Projection_UnmarshalVT_def decodes_all Projection_decodes,
      simp_all add: Projection_MarshalToSizedBufferVT_def Projection_SizeVT_def)

section \<open>QueryRequest: exact size and round trip\<close>

lemma QueryRequest_size:
  assumes "helpers_ok h"
  shows "QueryRequest_SizeVT h (Some m) = length (QueryRequest_MarshalToSizedBufferVT h (Some m))"
  by (simp add: QueryRequest_SizeVT_def QueryRequest_MarshalToSizedBufferVT_def 
      put_length [OF assms(1)] put_strings_length [OF assms(1)] vt_Command.put_field_length [OF assms(1)] vt_Projection.put_field_length [OF assms(1)] vt_SortField.put_fields_length [OF assms(1)])

lemma QueryRequest_decodes:
  assumes ok: "helpers_ok h" and "QueryRequest_wf h m"
  shows "decodes (QueryRequest_loop h) (QueryRequest_MarshalToSizedBufferVT h (Some m)) QueryRequest_fresh m"
proof -
  let ?m = "\<lambda>x1 x2 x3 x4 x5 u. \<lparr>pbQueryRequest_Command = x1, pbQueryRequest_Page = x2, pbQueryRequest_PageSize = x3, pbQueryRequest_Sort = x4, pbQueryRequest_Projection = x5, pbQueryRequest_unknownFields = u\<rparr>"
  obtain x1 x2 x3 x4 x5 u where m: "m = ?m x1 x2 x3 x4 x5 u" and u: "unknown_ok h (QueryRequest_switch h) u"
    and wf: "opt_ok (Command_wf h) x1" "each_ok (SortField_wf h) x4" "opt_ok (Projection_wf h) x5"
    using assms(2) by (cases m) (auto simp: QueryRequest_wf_def)
  have d5: "decodes (QueryRequest_loop h) u (?m x1 x2 x3 x4 x5 []) (?m x1 x2 x3 x4 x5 u)"
    using decodes_unknown [OF u, where us = "[]" and upd = "?m x1 x2 x3 x4 x5"] by simp
  let ?b4 = "put_message h 0x2a (Projection_MarshalToSizedBufferVT h) x5 u"
  have d4: "decodes (QueryRequest_loop h) ?b4 (?m x1 x2 x3 x4 None []) (?m x1 x2 x3 x4 x5 u)"
    by (rule decodes_message [where nm = "''Projection''" and upd = "\<lambda>v. ?m x1 x2 x3 x4 v []",
          OF ok _ _ _ _ _ vt_Projection.option_round_trip [OF ok wf(3)] d5]) (simp_all add: QueryRequest_switch_def)
  let ?b3 = "put_messages h 0x22 (SortField_MarshalToSizedBufferVT h) x4 ?b4"
  have d3: "decodes (QueryRequest_loop h) ?b3 (?m x1 x2 x3 [] None []) (?m x1 x2 x3 x4 x5 u)"
    by (rule decodes_messages [where nm = "''Sort''" and upd = "\<lambda>v. ?m x1 x2 x3 v None []" and xs = "[]" and ms = x4, unfolded append_Nil,
          OF ok _ _ _ _ vt_SortField.element_round_trip [OF ok wf(2)] d4]) (simp_all add: QueryRequest_switch_def)
  let ?b2 = "put_varint h 0x18 (ucast x3) ?b3"
  have d2: "decodes (QueryRequest_loop h) ?b2 (?m x1 x2 0 [] None []) (?m x1 x2 x3 x4 x5 u)"
    by (rule decodes_varint [where nm = "''PageSize''" and upd = "\<lambda>v. ?m x1 x2 v [] None []",
          OF ok _ _ _ _ _ _ d3]) (simp_all add: QueryRequest_switch_def)
  let ?b1 = "put_varint h 0x10 (ucast x2) ?b2"
  have d1: "decodes (QueryRequest_loop h) ?b1 (?m x1 0 0 [] None []) (?m x1 x2 x3 x4 x5 u)"
    by (rule decodes_varint [where nm = "''Page''" and upd = "\<lambda>v. ?m x1 v 0 [] None []",
          OF ok _ _ _ _ _ _ d2]) (simp_all add: QueryRequest_switch_def)
  let ?b0 = "put_message h 0xa (Command_MarshalToSizedBufferVT h) x1 ?b1"
  have d0: "decodes (QueryRequest_loop h) ?b0 (?m None 0 0 [] None []) (?m x1 x2 x3 x4 x5 u)"
    by (rule decodes_message [where nm = "''Command''" and upd = "\<lambda>v. ?m v 0 0 [] None []",
          OF ok _ _ _ _ _ vt_Command.option_round_trip [OF ok wf(1)] d1]) (simp_all add: QueryRequest_switch_def)
  show ?thesis using d0 by (simp add: m QueryRequest_MarshalToSizedBufferVT_def QueryRequest_fresh_def)
qed

lemma QueryRequest_default: "QueryRequest_switch h f w d i m = Default \<Longrightarrow> QueryRequest_switch h f w' d' i' m' = Default"
  by (auto simp: QueryRequest_switch_def split: if_splits)

lemma QueryRequest_fresh_wf: "QueryRequest_wf h QueryRequest_fresh"
  by (simp add: QueryRequest_wf_def QueryRequest_fresh_def)

lemma QueryRequest_returns:
  assumes "skip_ok h" and "length b < 2 ^ 63" and "QueryRequest_wf h m"
  shows "returns_with (QueryRequest_wf h) (QueryRequest_UnmarshalVT h b m)"
  unfolding QueryRequest_UnmarshalVT_def
proof (rule unmarshal_loop_returns [where I = "QueryRequest_wf h", OF assms(1) _ QueryRequest_default _ assms(3)])
  show "case_returns (QueryRequest_wf h) i (QueryRequest_switch h f w b i m)" if "QueryRequest_wf h m" for f w i m
    using that assms(2) by (auto simp: QueryRequest_switch_def QueryRequest_wf_def vt_Command.fresh_wf vt_Projection.fresh_wf vt_SortField.fresh_wf split: option.split intro!: case_returns
      case_returns_message [where J = "Command_wf h"] vt_Command.returns [OF assms(1)]
      case_returns_message [where J = "Projection_wf h"] vt_Projection.returns [OF assms(1)]
      case_returns_message [where J = "SortField_wf h"] vt_SortField.returns [OF assms(1)])
qed (auto simp: QueryRequest_wf_def unknown_ok_append)

interpretation vt_QueryRequest: vt_message h "QueryRequest_MarshalToSizedBufferVT h" "QueryRequest_SizeVT h" "QueryRequest_UnmarshalVT h" QueryRequest_fresh
  "\<lambda>m. True" "QueryRequest_wf h" for h
  by unfold_locales
    (auto simp: QueryRequest_size QueryRequest_returns QueryRequest_fresh_wf, auto simp: QueryRequest_UnmarshalVT_def decodes_all QueryRequest_decodes,
      simp_all add: QueryRequest_MarshalToSizedBufferVT_def QueryRequest_SizeVT_def)

section \<open>QueryResponse: exact size and round trip\<close>

lemma QueryResponse_size:
  assumes "helpers_ok h"
  shows "QueryResponse_SizeVT h (Some m) = length (QueryResponse_MarshalToSizedBufferVT h (Some m))"
  by (simp add: QueryResponse_SizeVT_def QueryResponse_MarshalToSizedBufferVT_def 
      put_length [OF assms(1)] put_strings_length [OF assms(1)] vt_Document.put_fields_length [OF assms(1)])

lemma QueryResponse_decodes:
  assumes ok: "helpers_ok h" and "QueryResponse_wf h m"
  shows "decodes (QueryResponse_loop h) (QueryResponse_MarshalToSizedBufferVT h (Some m)) QueryResponse_fresh m"
proof -
  let ?m = "\<lambda>x1 x2 u. \<lparr>pbQueryResponse_Documents = x1, pbQueryResponse_HasMore = x2, pbQueryResponse_unknownFields = u\<rparr>"
  obtain x1 x2 u where m: "m = ?m x1 x2 u" and u: "unknown_ok h (QueryResponse_switch h) u"
    and wf: "each_ok (Document_wf h) x1"
    using assms(2) by (cases m) (auto simp: QueryResponse_wf_def)
  have d2: "decodes (QueryResponse_loop h) u (?m x1 x2 []) (?m x1 x2 u)"
    using decodes_unknown [OF u, where us = "[]" and upd = "?m x1 x2"] by simp
  let ?b1 = "put_bool 0x10 x2 u"
  have d1: "decodes (QueryResponse_loop h) ?b1 (?m x1 False []) (?m x1 x2 u)"
    by (rule decodes_bool [where nm = "''HasMore''" and upd = "\<lambda>v. ?m x1 v []",
          OF _ _ _ _ _ d2]) (simp_all add: QueryResponse_switch_def)
  let ?b0 = "put_messages h 0xa (Document_MarshalToSizedBufferVT h) x1 ?b1"
  have d0: "decodes (QueryResponse_loop h) ?b0 (?m [] False []) (?m x1 x2 u)"
    by (rule decodes_messages [where nm = "''Documents''" and upd = "\<lambda>v. ?m v False []" and xs = "[]" and ms = x1, unfolded append_Nil,
          OF ok _ _ _ _ vt_Document.element_round_trip [OF ok wf(1)] d1]) (simp_all add: QueryResponse_switch_def)
  show ?thesis using d0 by (simp add: m QueryResponse_MarshalToSizedBufferVT_def QueryResponse_fresh_def)
qed

lemma QueryResponse_default: "QueryResponse_switch h f w d i m = Default \<Longrightarrow> QueryResponse_switch h f w' d' i' m' = Default"
  by (auto simp: QueryResponse_switch_def split: if_splits)

lemma QueryResponse_fresh_wf: "QueryResponse_wf h QueryResponse_fresh"
  by (simp add: QueryResponse_wf_def QueryResponse_fresh_def)

lemma QueryResponse_returns:
  assumes "skip_ok h" and "length b < 2 ^ 63" and "QueryResponse_wf h m"
  shows "returns_with (QueryResponse_wf h) (QueryResponse_UnmarshalVT h b m)"
  unfolding QueryResponse_UnmarshalVT_def
proof (rule unmarshal_loop_returns [where I = "QueryResponse_wf h", OF assms(1) _ QueryResponse_default _ assms(3)])
  show "case_returns (QueryResponse_wf h) i (QueryResponse_switch h f w b i m)" if "QueryResponse_wf h m" for f w i m
    using that assms(2) by (auto simp: QueryResponse_switch_def QueryResponse_wf_def vt_Document.fresh_wf split: option.split intro!: case_returns
      case_returns_message [where J = "Document_wf h"] vt_Document.returns [OF assms(1)])
qed (auto simp: QueryResponse_wf_def unknown_ok_append)

interpretation vt_QueryResponse: vt_message h "QueryResponse_MarshalToSizedBufferVT h" "QueryResponse_SizeVT h" "QueryResponse_UnmarshalVT h" QueryResponse_fresh
  "\<lambda>m. True" "QueryResponse_wf h" for h
  by unfold_locales
    (auto simp: QueryResponse_size QueryResponse_returns QueryResponse_fresh_wf, auto simp: QueryResponse_UnmarshalVT_def decodes_all QueryResponse_decodes,
      simp_all add: QueryResponse_MarshalToSizedBufferVT_def QueryResponse_SizeVT_def)

section \<open>CountRequest: exact size and round trip\<close>

lemma CountRequest_size:
  assumes "helpers_ok h"
  shows "CountRequest_SizeVT h (Some m) = length (CountRequest_MarshalToSizedBufferVT h (Some m))"
  by (simp add: CountRequest_SizeVT_def CountRequest_MarshalToSizedBufferVT_def 
      put_length [OF assms(1)] put_strings_length [OF assms(1)] vt_Command.put_field_length [OF assms(1)])

lemma CountRequest_decodes:
  assumes ok: "helpers_ok h" and "CountRequest_wf h m"
  shows "decodes (CountRequest_loop h) (CountRequest_MarshalToSizedBufferVT h (Some m)) CountRequest_fresh m"
proof -
  let ?m = "\<lambda>x1 u. \<lparr>pbCountRequest_Command = x1, pbCountRequest_unknownFields = u\<rparr>"
  obtain x1 u where m: "m = ?m x1 u" and u: "unknown_ok h (CountRequest_switch h) u"
    and wf: "opt_ok (Command_wf h) x1"
    using assms(2) by (cases m) (auto simp: CountRequest_wf_def)
  have d1: "decodes (CountRequest_loop h) u (?m x1 []) (?m x1 u)"
    using decodes_unknown [OF u, where us = "[]" and upd = "?m x1"] by simp
  let ?b0 = "put_message h 0xa (Command_MarshalToSizedBufferVT h) x1 u"
  have d0: "decodes (CountRequest_loop h) ?b0 (?m None []) (?m x1 u)"
    by (rule decodes_message [where nm = "''Command''" and upd = "\<lambda>v. ?m v []",
          OF ok _ _ _ _ _ vt_Command.option_round_trip [OF ok wf(1)] d1]) (simp_all add: CountRequest_switch_def)
  show ?thesis using d0 by (simp add: m CountRequest_MarshalToSizedBufferVT_def CountRequest_fresh_def)
qed

lemma CountRequest_default: "CountRequest_switch h f w d i m = Default \<Longrightarrow> CountRequest_switch h f w' d' i' m' = Default"
  by (auto simp: CountRequest_switch_def split: if_splits)

lemma CountRequest_fresh_wf: "CountRequest_wf h CountRequest_fresh"
  by (simp add: CountRequest_wf_def CountRequest_fresh_def)

lemma CountRequest_returns:
  assumes "skip_ok h" and "length b < 2 ^ 63" and "CountRequest_wf h m"
  shows "returns_with (CountRequest_wf h) (CountRequest_UnmarshalVT h b m)"
  unfolding CountRequest_UnmarshalVT_def
proof (rule unmarshal_loop_returns [where I = "CountRequest_wf h", OF assms(1) _ CountRequest_default _ assms(3)])
  show "case_returns (CountRequest_wf h) i (CountRequest_switch h f w b i m)" if "CountRequest_wf h m" for f w i m
    using that assms(2) by (auto simp: CountRequest_switch_def CountRequest_wf_def vt_Command.fresh_wf split: option.split intro!: case_returns
      case_returns_message [where J = "Command_wf h"] vt_Command.returns [OF assms(1)])
qed (auto simp: CountRequest_wf_def unknown_ok_append)

interpretation vt_CountRequest: vt_message h "CountRequest_MarshalToSizedBufferVT h" "CountRequest_SizeVT h" "CountRequest_UnmarshalVT h" CountRequest_fresh
  "\<lambda>m. True" "CountRequest_wf h" for h
  by unfold_locales
    (auto simp: CountRequest_size CountRequest_returns CountRequest_fresh_wf, auto simp: CountRequest_UnmarshalVT_def decodes_all CountRequest_decodes,
      simp_all add: CountRequest_MarshalToSizedBufferVT_def CountRequest_SizeVT_def)

section \<open>CountResponse: exact size and round trip\<close>

lemma CountResponse_size:
  assumes "helpers_ok h"
  shows "CountResponse_SizeVT h (Some m) = length (CountResponse_MarshalToSizedBufferVT h (Some m))"
  by (simp add: CountResponse_SizeVT_def CountResponse_MarshalToSizedBufferVT_def 
      put_length [OF assms(1)] put_strings_length [OF assms(1)])

lemma CountResponse_decodes:
  assumes ok: "helpers_ok h" and "CountResponse_wf h m"
  shows "decodes (CountResponse_loop h) (CountResponse_MarshalToSizedBufferVT h (Some m)) CountResponse_fresh m"
proof -
  let ?m = "\<lambda>x1 x2 u. \<lparr>pbCountResponse_Count = x1, pbCountResponse_Estimated = x2, pbCountResponse_unknownFields = u\<rparr>"
  obtain x1 x2 u where m: "m = ?m x1 x2 u" and u: "unknown_ok h (CountResponse_switch h) u"
    using assms(2) by (cases m) (auto simp: CountResponse_wf_def)
  have d2: "decodes (CountResponse_loop h) u (?m x1 x2 []) (?m x1 x2 u)"
    using decodes_unknown [OF u, where us = "[]" and upd = "?m x1 x2"] by simp
  let ?b1 = "put_bool 0x10 x2 u"
  have d1: "decodes (CountResponse_loop h) ?b1 (?m x1 False []) (?m x1 x2 u)"
    by (rule decodes_bool [where nm = "''Estimated''" and upd = "\<lambda>v. ?m x1 v []",
          OF _ _ _ _ _ d2]) (simp_all add: CountResponse_switch_def)
  let ?b0 = "put_varint h 0x8 x1 ?b1"
  have d0: "decodes (CountResponse_loop h) ?b0 (?m 0 False []) (?m x1 x2 u)"
    by (rule decodes_varint [where nm = "''Count''" and upd = "\<lambda>v. ?m v False []",
          OF ok _ _ _ _ _ _ d1]) (simp_all add: CountResponse_switch_def)
  show ?thesis using d0 by (simp add: m CountResponse_MarshalToSizedBufferVT_def CountResponse_fresh_def)
qed

lemma CountResponse_default: "CountResponse_switch h f w d i m = Default \<Longrightarrow> CountResponse_switch h f w' d' i' m' = Default"
  by (auto simp: CountResponse_switch_def split: if_splits)

lemma CountResponse_fresh_wf: "CountResponse_wf h CountResponse_fresh"
  by (simp add: CountResponse_wf_def CountResponse_fresh_def)

lemma CountResponse_returns:
  assumes "skip_ok h" and "length b < 2 ^ 63" and "CountResponse_wf h m"
  shows "returns_with (CountResponse_wf h) (CountResponse_UnmarshalVT h b m)"
  unfolding CountResponse_UnmarshalVT_def
proof (rule unmarshal_loop_returns [where I = "CountResponse_wf h", OF assms(1) _ CountResponse_default _ assms(3)])
  show "case_returns (CountResponse_wf h) i (CountResponse_switch h f w b i m)" if "CountResponse_wf h m" for f w i m
    using that assms(2) by (auto simp: CountResponse_switch_def CountResponse_wf_def split: option.split intro!: case_returns)
qed (auto simp: CountResponse_wf_def unknown_ok_append)

interpretation vt_CountResponse: vt_message h "CountResponse_MarshalToSizedBufferVT h" "CountResponse_SizeVT h" "CountResponse_UnmarshalVT h" CountResponse_fresh
  "\<lambda>m. True" "CountResponse_wf h" for h
  by unfold_locales
    (auto simp: CountResponse_size CountResponse_returns CountResponse_fresh_wf, auto simp: CountResponse_UnmarshalVT_def decodes_all CountResponse_decodes,
      simp_all add: CountResponse_MarshalToSizedBufferVT_def CountResponse_SizeVT_def)

section \<open>ScanRequest: exact size and round trip\<close>

lemma ScanRequest_size:
  assumes "helpers_ok h"
  shows "ScanRequest_SizeVT h (Some m) = length (ScanRequest_MarshalToSizedBufferVT h (Some m))"
  by (simp add: ScanRequest_SizeVT_def ScanRequest_MarshalToSizedBufferVT_def 
      put_length [OF assms(1)] put_strings_length [OF assms(1)] vt_Command.put_field_length [OF assms(1)] vt_Projection.put_field_length [OF assms(1)])

lemma ScanRequest_decodes:
  assumes ok: "helpers_ok h" and "ScanRequest_wf h m"
  shows "decodes (ScanRequest_loop h) (ScanRequest_MarshalToSizedBufferVT h (Some m)) ScanRequest_fresh m"
proof -
  let ?m = "\<lambda>x1 x2 x3 x4 u. \<lparr>pbScanRequest_Command = x1, pbScanRequest_BatchSize = x2, pbScanRequest_Cursor = x3, pbScanRequest_Projection = x4, pbScanRequest_unknownFields = u\<rparr>"
  obtain x1 x2 x3 x4 u where m: "m = ?m x1 x2 x3 x4 u" and u: "unknown_ok h (ScanRequest_switch h) u"
    and wf: "opt_ok (Command_wf h) x1" "opt_ok (Projection_wf h) x4"
    using assms(2) by (cases m) (auto simp: ScanRequest_wf_def)
  have d4: "decodes (ScanRequest_loop h) u (?m x1 x2 x3 x4 []) (?m x1 x2 x3 x4 u)"
    using decodes_unknown [OF u, where us = "[]" and upd = "?m x1 x2 x3 x4"] by simp
  let ?b3 = "put_message h 0x22 (Projection_MarshalToSizedBufferVT h) x4 u"
  have d3: "decodes (ScanRequest_loop h) ?b3 (?m x1 x2 x3 None []) (?m x1 x2 x3 x4 u)"
    by (rule decodes_message [where nm = "''Projection''" and upd = "\<lambda>v. ?m x1 x2 x3 v []",
          OF ok _ _ _ _ _ vt_Projection.option_round_trip [OF ok wf(2)] d4]) (simp_all add: ScanRequest_switch_def)
  let ?b2 = "put_bytes h 0x1a x3 ?b3"
  have d2: "decodes (ScanRequest_loop h) ?b2 (?m x1 x2 [] None []) (?m x1 x2 x3 x4 u)"
    by (rule decodes_bytes [where nm = "''Cursor''" and upd = "\<lambda>v. ?m x1 x2 v None []",
          OF ok _ _ _ _ _ d3]) (simp_all add: ScanRequest_switch_def)
  let ?b1 = "put_varint h 0x10 (ucast x2) ?b2"
  have d1: "decodes (ScanRequest_loop h) ?b1 (?m x1 0 [] None []) (?m x1 x2 x3 x4 u)"
    by (rule decodes_varint [where nm = "''BatchSize''" and upd = "\<lambda>v. ?m x1 v [] None []",
          OF ok _ _ _ _ _ _ d2]) (simp_all add: ScanRequest_switch_def)
  let ?b0 = "put_message h 0xa (Command_MarshalToSizedBufferVT h) x1 ?b1"
  have d0: "decodes (ScanRequest_loop h) ?b0 (?m None 0 [] None []) (?m x1 x2 x3 x4 u)"
    by (rule decodes_message [where nm = "''Command''" and upd = "\<lambda>v. ?m v 0 [] None []",
          OF ok _ _ _ _ _ vt_Command.option_round_trip [OF ok wf(1)] d1]) (simp_all add: ScanRequest_switch_def)
  show ?thesis using d0 by (simp add: m ScanRequest_MarshalToSizedBufferVT_def ScanRequest_fresh_def)
qed

lemma ScanRequest_default: "ScanRequest_switch h f w d i m = Default \<Longrightarrow> ScanRequest_switch h f w' d' i' m' = Default"
  by (auto simp: ScanRequest_switch_def split: if_splits)

lemma ScanRequest_fresh_wf: "ScanRequest_wf h ScanRequest_fresh"
  by (simp add: ScanRequest_wf_def ScanRequest_fresh_def)

lemma ScanRequest_returns:
  assumes "skip_ok h" and "length b < 2 ^ 63" and "ScanRequest_wf h m"
  shows "returns_with (ScanRequest_wf h) (ScanRequest_UnmarshalVT h b m)"
  unfolding ScanRequest_UnmarshalVT_def
proof (rule unmarshal_loop_returns [where I = "ScanRequest_wf h", OF assms(1) _ ScanRequest_default _ assms(3)])
  show "case_returns (ScanRequest_wf h) i (ScanRequest_switch h f w b i m)" if "ScanRequest_wf h m" for f w i m
    using that assms(2) by (auto simp: ScanRequest_switch_def ScanRequest_wf_def vt_Command.fresh_wf vt_Projection.fresh_wf split: option.split intro!: case_returns
      case_returns_message [where J = "Command_wf h"] vt_Command.returns [OF assms(1)]
      case_returns_message [where J = "Projection_wf h"] vt_Projection.returns [OF assms(1)])
qed (auto simp: ScanRequest_wf_def unknown_ok_append)

interpretation vt_ScanRequest: vt_message h "ScanRequest_MarshalToSizedBufferVT h" "ScanRequest_SizeVT h" "ScanRequest_UnmarshalVT h" ScanRequest_fresh
  "\<lambda>m. True" "ScanRequest_wf h" for h
  by unfold_locales
    (auto simp: ScanRequest_size ScanRequest_returns ScanRequest_fresh_wf, auto simp: ScanRequest_UnmarshalVT_def decodes_all ScanRequest_decodes,
      simp_all add: ScanRequest_MarshalToSizedBufferVT_def ScanRequest_SizeVT_def)

section \<open>ScanResponse: exact size and round trip\<close>

lemma ScanResponse_size:
  assumes "helpers_ok h"
  shows "ScanResponse_SizeVT h (Some m) = length (ScanResponse_MarshalToSizedBufferVT h (Some m))"
  by (simp add: ScanResponse_SizeVT_def ScanResponse_MarshalToSizedBufferVT_def 
      put_length [OF assms(1)] put_strings_length [OF assms(1)] vt_Document.put_fields_length [OF assms(1)])

lemma ScanResponse_decodes:
  assumes ok: "helpers_ok h" and "ScanResponse_wf h m"
  shows "decodes (ScanResponse_loop h) (ScanResponse_MarshalToSizedBufferVT h (Some m)) ScanResponse_fresh m"
proof -
  let ?m = "\<lambda>x1 x2 u. \<lparr>pbScanResponse_Documents = x1, pbScanResponse_NextCursor = x2, pbScanResponse_unknownFields = u\<rparr>"
  obtain x1 x2 u where m: "m = ?m x1 x2 u" and u: "unknown_ok h (ScanResponse_switch h) u"
    and wf: "each_ok (Document_wf h) x1"
    using assms(2) by (cases m) (auto simp: ScanResponse_wf_def)
  have d2: "decodes (ScanResponse_loop h) u (?m x1 x2 []) (?m x1 x2 u)"
    using decodes_unknown [OF u, where us = "[]" and upd = "?m x1 x2"] by simp
  let ?b1 = "put_bytes h 0x12 x2 u"
  have d1: "decodes (ScanResponse_loop h) ?b1 (?m x1 [] []) (?m x1 x2 u)"
    by (rule decodes_bytes [where nm = "''NextCursor''" and upd = "\<lambda>v. ?m x1 v []",
          OF ok _ _ _ _ _ d2]) (simp_all add: ScanResponse_switch_def)
  let ?b0 = "put_messages h 0xa (Document_MarshalToSizedBufferVT h) x1 ?b1"
  have d0: "decodes (ScanResponse_loop h) ?b0 (?m [] [] []) (?m x1 x2 u)"
    by (rule decodes_messages [where nm = "''Documents''" and upd = "\<lambda>v. ?m v [] []" and xs = "[]" and ms = x1, unfolded append_Nil,
          OF ok _ _ _ _ vt_Document.element_round_trip [OF ok wf(1)] d1]) (simp_all add: ScanResponse_switch_def)
  show ?thesis using d0 by (simp add: m ScanResponse_MarshalToSizedBufferVT_def ScanResponse_fresh_def)
qed

lemma ScanResponse_default: "ScanResponse_switch h f w d i m = Default \<Longrightarrow> ScanResponse_switch h f w' d' i' m' = Default"
  by (auto simp: ScanResponse_switch_def split: if_splits)

lemma ScanResponse_fresh_wf: "ScanResponse_wf h ScanResponse_fresh"
  by (simp add: ScanResponse_wf_def ScanResponse_fresh_def)

lemma ScanResponse_returns:
  assumes "skip_ok h" and "length b < 2 ^ 63" and "ScanResponse_wf h m"
  shows "returns_with (ScanResponse_wf h) (ScanResponse_UnmarshalVT h b m)"
  unfolding ScanResponse_UnmarshalVT_def
proof (rule unmarshal_loop_returns [where I = "ScanResponse_wf h", OF assms(1) _ ScanResponse_default _ assms(3)])
  show "case_returns (ScanResponse_wf h) i (ScanResponse_switch h f w b i m)" if "ScanResponse_wf h m" for f w i m
    using that assms(2) by (auto simp: ScanResponse_switch_def ScanResponse_wf_def vt_Document.fresh_wf split: option.split intro!: case_returns
      case_returns_message [where J = "Document_wf h"] vt_Document.returns [OF assms(1)])
qed (auto simp: ScanResponse_wf_def unknown_ok_append)

interpretation vt_ScanResponse: vt_message h "ScanResponse_MarshalToSizedBufferVT h" "ScanResponse_SizeVT h" "ScanResponse_UnmarshalVT h" ScanResponse_fresh
  "\<lambda>m. True" "ScanResponse_wf h" for h
  by unfold_locales
    (auto simp: ScanResponse_size ScanResponse_returns ScanResponse_fresh_wf, auto simp: ScanResponse_UnmarshalVT_def decodes_all ScanResponse_decodes,
      simp_all add: ScanResponse_MarshalToSizedBufferVT_def ScanResponse_SizeVT_def)

end
