(* ===== verification/Grpc_Codec.thy ===== *)
theory Grpc_Codec
  imports Sink_Errors
begin

text \<open>
  \<^verbatim>\<open>grpc_codec.go\<close>: the gRPC codec that marshals into pooled buffers. A message offers its size, a marshaller that
  fills a buffer of that size, and an unmarshaller, the interface \<^verbatim>\<open>vtProtoCodecMessage\<close>; the theory \<^verbatim>\<open>Vt_Codec\<close> gives it
  the generated methods. A method that panics is \<^const>\<open>None\<close>, and so is the result of the codec's call then.
  The pool is gRPC's; the model keeps the calls made to it, also those made before a panic, so that the theorems can say
  on which paths a buffer is lost.
\<close>

section \<open>Messages and the pool\<close>

record 'm vtProtoCodecMessage =
  SizeVT :: nat
  MarshalToSizedBufferVT :: "nat \<Rightarrow> (nat \<times> bytes) result option"   \<comment> \<open>bytes written, and the buffer afterwards\<close>
  UnmarshalVT :: "bytes \<Rightarrow> 'm result option"

datatype pool_call = PoolGet nat | PoolPut nat | Materialized | Freed

text \<open>A buffer of the returned slice: a plain one, or a pooled one that its consumer gives back.\<close>

datatype mem_Buffer = SliceBuffer bytes | PooledBuffer nat bytes

definition written_mismatch :: "nat \<Rightarrow> nat \<Rightarrow> go_error" where
  "written_mismatch written sz =
     ErrorString (''vtproto: marshaled '' @ itoa written @ '' bytes, expected '' @ itoa sz)"

text \<open>
  \<open>value\<close> is \<^const>\<open>None\<close> when it does not provide the generated methods, and \<open>typeName\<close> is its Go type;
  \<open>below\<close> is \<^verbatim>\<open>mem.IsBelowBufferPoolingThreshold\<close>.
\<close>

definition Marshal ::
  "(nat \<Rightarrow> bool) \<Rightarrow> bytes \<Rightarrow> 'm vtProtoCodecMessage option \<Rightarrow> pool_call list
     \<Rightarrow> mem_Buffer list result option \<times> pool_call list" where
  "Marshal below typeName v pool =
     (case v of
        None \<Rightarrow> (Some (Inl (ErrorString (''vtproto: message '' @ typeName @ '' does not provide VT marshal helpers''))), pool)
      | Some message \<Rightarrow>
          (let sz = SizeVT message
           in if below sz then
                (case MarshalToSizedBufferVT message sz of
                   None \<Rightarrow> (None, pool)
                 | Some (Inl err) \<Rightarrow> (Some (Inl err), pool)
                 | Some (Inr (written, buffer)) \<Rightarrow>
                     if written \<noteq> sz then (Some (Inl (written_mismatch written sz)), pool)
                     else (Some (Inr [SliceBuffer buffer]), pool))
              else
                (let pool = pool @ [PoolGet sz]
                 in case MarshalToSizedBufferVT message sz of
                      None \<Rightarrow> (None, pool)
                    | Some (Inl err) \<Rightarrow> (Some (Inl err), pool @ [PoolPut sz])
                    | Some (Inr (written, buffer)) \<Rightarrow>
                        if written \<noteq> sz then (Some (Inl (written_mismatch written sz)), pool @ [PoolPut sz])
                        else (Some (Inr [PooledBuffer sz buffer]), pool))))"

text \<open>
  \<open>MaterializeToBuffer\<close> joins the slices into one buffer. The deferred \<open>Free\<close> gives it back when the function returns, and
  also when \<open>UnmarshalVT\<close> panics.
\<close>

definition Unmarshal ::
  "bytes \<Rightarrow> bytes list \<Rightarrow> 'm vtProtoCodecMessage option \<Rightarrow> pool_call list \<Rightarrow> 'm result option \<times> pool_call list" where
  "Unmarshal typeName data v pool =
     (case v of
        None \<Rightarrow> (Some (Inl (ErrorString (''vtproto: message '' @ typeName @ '' does not provide VT unmarshal helpers''))), pool)
      | Some message \<Rightarrow> (UnmarshalVT message (concat data), pool @ [Materialized, Freed]))"

definition vtProtoCodecName :: bytes where
  "vtProtoCodecName = ''proto''"

section \<open>Accounting\<close>

definition outstanding :: "pool_call list \<Rightarrow> int" where
  "outstanding calls =
     sum_list (map (\<lambda>c. case c of PoolGet n \<Rightarrow> 1 | PoolPut n \<Rightarrow> - 1 | Materialized \<Rightarrow> 1 | Freed \<Rightarrow> - 1) calls)"

lemma outstanding_append [simp]: "outstanding (xs @ ys) = outstanding xs + outstanding ys"
  by (simp add: outstanding_def)

lemma outstanding_simps [simp]:
  "outstanding [] = 0" "outstanding (PoolGet n # cs) = 1 + outstanding cs"
  "outstanding (PoolPut n # cs) = outstanding cs - 1" "outstanding (Materialized # cs) = 1 + outstanding cs"
  "outstanding (Freed # cs) = outstanding cs - 1"
  by (simp_all add: outstanding_def)

fun pooled :: "mem_Buffer \<Rightarrow> nat" where
  "pooled (SliceBuffer b) = 0"
| "pooled (PooledBuffer n b) = 1"

fun buffer_data :: "mem_Buffer \<Rightarrow> bytes" where
  "buffer_data (SliceBuffer b) = b"
| "buffer_data (PooledBuffer n b) = b"

definition buffers_data :: "mem_Buffer list \<Rightarrow> bytes" where
  "buffers_data bs = concat (map buffer_data bs)"

section \<open>What the codec does with a message\<close>

lemma Marshal_written:
  assumes "MarshalToSizedBufferVT message (SizeVT message) = Some (Inr (SizeVT message, buffer))"
  shows "\<exists>bs pool'. Marshal below typeName (Some message) pool = (Some (Inr bs), pool') \<and> buffers_data bs = buffer"
  using assms by (simp add: Marshal_def buffers_data_def Let_def)

lemma Marshal_mismatch:
  assumes "MarshalToSizedBufferVT message (SizeVT message) = Some (Inr (n, buffer))" and "n \<noteq> SizeVT message"
  shows "\<exists>pool'. Marshal below typeName (Some message) pool = (Some (Inl (written_mismatch n (SizeVT message))), pool')"
  using assms by (simp add: Marshal_def Let_def)

text \<open>A panic while the buffer is being filled: a buffer taken from the pool is not put back.\<close>

lemma Marshal_panic:
  assumes "MarshalToSizedBufferVT message (SizeVT message) = None"
  shows "Marshal below typeName (Some message) pool
    = (None, pool @ (if below (SizeVT message) then [] else [PoolGet (SizeVT message)]))"
  using assms by (simp add: Marshal_def Let_def)

section \<open>Properties\<close>

text \<open>
  C38: what the codec does to the pool, on every path. After a return of \<^verbatim>\<open>Marshal\<close> the pool is short of exactly the pooled buffers
  of the returned slice, which is none after an error. When the message's marshaller panics, the pool is short of one buffer that nobody
  holds, if the message was large enough for a pooled buffer, and of none otherwise. \<^verbatim>\<open>Unmarshal\<close> gives back what it takes, also
  when it panics. Neither panics unless the message's own method does.
\<close>

theorem codec_pool_balanced:
  "(case Marshal below typeName v pool of
      (Some (Inl err), pool') \<Rightarrow> outstanding pool' = outstanding pool
    | (Some (Inr bs), pool') \<Rightarrow> outstanding pool' = outstanding pool + int (sum_list (map pooled bs))
    | (None, pool') \<Rightarrow> \<exists>message. v = Some message \<and> MarshalToSizedBufferVT message (SizeVT message) = None
        \<and> outstanding pool' = outstanding pool + (if below (SizeVT message) then 0 else 1))
   \<and> (case Unmarshal typeName data v pool of
      (r, pool') \<Rightarrow> outstanding pool' = outstanding pool
        \<and> (r = None \<longleftrightarrow> (\<exists>message. v = Some message \<and> UnmarshalVT message (concat data) = None)))"
  by (auto simp: Marshal_def Unmarshal_def Let_def split: option.split sum.split)

end
