(* ===== verification/Vt_Codec.thy ===== *)
theory Vt_Codec
  imports Vt_Write Vt_Native Grpc_Codec
begin

text \<open>
  The codec of \<^verbatim>\<open>grpc_codec.go\<close> on the generated messages: the methods of a message as a \<^verbatim>\<open>vtProtoCodecMessage\<close>, what it
  means that a message crosses the wire, and that every well-formed message does. The messages that do not are write requests with
  a \<^verbatim>\<open>oneof\<close> wrapper that is nil or has no message: the codec panics on the one and refuses the other.
\<close>

section \<open>The generated methods as the codec's interface\<close>

text \<open>
  \<open>MarshalToSizedBufferVT\<close> fills a buffer of \<open>n\<close> bytes from its end with \<open>out\<close>: the number of bytes written
  and the buffer. When they do not fit, an index is out of range; \<^const>\<open>None\<close> for \<open>out\<close> is a panic of the method before.
\<close>

definition fill_buffer :: "bytes option \<Rightarrow> nat \<Rightarrow> (nat \<times> bytes) result option" where
  "fill_buffer out n =
     (case out of
        None \<Rightarrow> None
      | Some b \<Rightarrow> if length b \<le> n then Some (Inr (length b, replicate (n - length b) (chr 0) @ b)) else None)"

text \<open>The marshaller of a message that has no way to panic. All are of this kind but those of write requests and their operations.\<close>

definition returning :: "('m option \<Rightarrow> bytes) \<Rightarrow> 'm option \<Rightarrow> bytes option" where
  "returning marshal msg = Some (marshal msg)"

text \<open>
  The wrappers \<open>MarshalVT\<close> and \<open>MarshalToVT\<close>, the same code for every message: the first allocates a buffer of the computed size
  and returns its first \<open>n\<close> bytes, the second fills the first \<open>size\<close> bytes of a buffer of \<open>len\<close> bytes.
\<close>

definition MarshalVT :: "('m option \<Rightarrow> bytes option) \<Rightarrow> ('m option \<Rightarrow> nat) \<Rightarrow> 'm option \<Rightarrow> bytes result option" where
  "MarshalVT marshal sz msg =
     (if msg = None then Some (Inr [])
      else (case fill_buffer (marshal msg) (sz msg) of
              None \<Rightarrow> None
            | Some (Inl err) \<Rightarrow> Some (Inl err)
            | Some (Inr (n, dAtA)) \<Rightarrow> Some (Inr (take n dAtA))))"

definition MarshalToVT ::
  "('m option \<Rightarrow> bytes option) \<Rightarrow> ('m option \<Rightarrow> nat) \<Rightarrow> 'm option \<Rightarrow> nat \<Rightarrow> (nat \<times> bytes) result option" where
  "MarshalToVT marshal sz msg len = (if sz msg \<le> len then fill_buffer (marshal msg) (sz msg) else None)"

definition codec_message ::
  "('m option \<Rightarrow> bytes option) \<Rightarrow> ('m option \<Rightarrow> nat) \<Rightarrow> (bytes \<Rightarrow> 'm \<Rightarrow> 'm result option) \<Rightarrow> 'm \<Rightarrow> 'm vtProtoCodecMessage" where
  "codec_message marshal sz unmarshal m =
     \<lparr>SizeVT = sz (Some m), MarshalToSizedBufferVT = fill_buffer (marshal (Some m)), UnmarshalVT = (\<lambda>b. unmarshal b m)\<rparr>"

text \<open>The fourteen messages that the client's calls send and receive.\<close>

abbreviation ReadRequest_message :: "protohelpers \<Rightarrow> pbReadRequest \<Rightarrow> pbReadRequest vtProtoCodecMessage" where
  "ReadRequest_message h \<equiv> codec_message (returning (ReadRequest_MarshalToSizedBufferVT h)) (ReadRequest_SizeVT h) (ReadRequest_UnmarshalVT h)"

abbreviation ReadResponse_message :: "protohelpers \<Rightarrow> pbReadResponse \<Rightarrow> pbReadResponse vtProtoCodecMessage" where
  "ReadResponse_message h \<equiv> codec_message (returning (ReadResponse_MarshalToSizedBufferVT h)) (ReadResponse_SizeVT h) (ReadResponse_UnmarshalVT h)"

abbreviation WriteRequest_message :: "protohelpers \<Rightarrow> pbWriteRequest \<Rightarrow> pbWriteRequest vtProtoCodecMessage" where
  "WriteRequest_message h \<equiv> codec_message (WriteRequest_MarshalToSizedBufferVT h) (WriteRequest_SizeVT h) (WriteRequest_UnmarshalVT h)"

abbreviation WriteResponse_message :: "protohelpers \<Rightarrow> pbWriteResponse \<Rightarrow> pbWriteResponse vtProtoCodecMessage" where
  "WriteResponse_message h \<equiv> codec_message (returning (WriteResponse_MarshalToSizedBufferVT h)) (WriteResponse_SizeVT h) (WriteResponse_UnmarshalVT h)"

abbreviation DeleteRequest_message :: "protohelpers \<Rightarrow> pbDeleteRequest \<Rightarrow> pbDeleteRequest vtProtoCodecMessage" where
  "DeleteRequest_message h \<equiv> codec_message (returning (DeleteRequest_MarshalToSizedBufferVT h)) (DeleteRequest_SizeVT h) (DeleteRequest_UnmarshalVT h)"

abbreviation DeleteResponse_message :: "protohelpers \<Rightarrow> pbDeleteResponse \<Rightarrow> pbDeleteResponse vtProtoCodecMessage" where
  "DeleteResponse_message h \<equiv> codec_message (returning (DeleteResponse_MarshalToSizedBufferVT h)) (DeleteResponse_SizeVT h) (DeleteResponse_UnmarshalVT h)"

abbreviation ExecuteRequest_message :: "protohelpers \<Rightarrow> pbExecuteRequest \<Rightarrow> pbExecuteRequest vtProtoCodecMessage" where
  "ExecuteRequest_message h \<equiv> codec_message (returning (ExecuteRequest_MarshalToSizedBufferVT h)) (ExecuteRequest_SizeVT h) (ExecuteRequest_UnmarshalVT h)"

abbreviation ExecuteResponse_message :: "protohelpers \<Rightarrow> pbExecuteResponse \<Rightarrow> pbExecuteResponse vtProtoCodecMessage" where
  "ExecuteResponse_message h \<equiv> codec_message (returning (ExecuteResponse_MarshalToSizedBufferVT h)) (ExecuteResponse_SizeVT h) (ExecuteResponse_UnmarshalVT h)"

abbreviation QueryRequest_message :: "protohelpers \<Rightarrow> pbQueryRequest \<Rightarrow> pbQueryRequest vtProtoCodecMessage" where
  "QueryRequest_message h \<equiv> codec_message (returning (QueryRequest_MarshalToSizedBufferVT h)) (QueryRequest_SizeVT h) (QueryRequest_UnmarshalVT h)"

abbreviation QueryResponse_message :: "protohelpers \<Rightarrow> pbQueryResponse \<Rightarrow> pbQueryResponse vtProtoCodecMessage" where
  "QueryResponse_message h \<equiv> codec_message (returning (QueryResponse_MarshalToSizedBufferVT h)) (QueryResponse_SizeVT h) (QueryResponse_UnmarshalVT h)"

abbreviation CountRequest_message :: "protohelpers \<Rightarrow> pbCountRequest \<Rightarrow> pbCountRequest vtProtoCodecMessage" where
  "CountRequest_message h \<equiv> codec_message (returning (CountRequest_MarshalToSizedBufferVT h)) (CountRequest_SizeVT h) (CountRequest_UnmarshalVT h)"

abbreviation CountResponse_message :: "protohelpers \<Rightarrow> pbCountResponse \<Rightarrow> pbCountResponse vtProtoCodecMessage" where
  "CountResponse_message h \<equiv> codec_message (returning (CountResponse_MarshalToSizedBufferVT h)) (CountResponse_SizeVT h) (CountResponse_UnmarshalVT h)"

abbreviation ScanRequest_message :: "protohelpers \<Rightarrow> pbScanRequest \<Rightarrow> pbScanRequest vtProtoCodecMessage" where
  "ScanRequest_message h \<equiv> codec_message (returning (ScanRequest_MarshalToSizedBufferVT h)) (ScanRequest_SizeVT h) (ScanRequest_UnmarshalVT h)"

abbreviation ScanResponse_message :: "protohelpers \<Rightarrow> pbScanResponse \<Rightarrow> pbScanResponse vtProtoCodecMessage" where
  "ScanResponse_message h \<equiv> codec_message (returning (ScanResponse_MarshalToSizedBufferVT h)) (ScanResponse_SizeVT h) (ScanResponse_UnmarshalVT h)"

text \<open>
  A message crosses the wire when \<^verbatim>\<open>Marshal\<close> gives a buffer slice, and \<^verbatim>\<open>Unmarshal\<close> of the same bytes, received in any
  pieces, into a new message gives an equal message.
\<close>

definition crosses ::
  "('m option \<Rightarrow> bytes option) \<Rightarrow> ('m option \<Rightarrow> nat) \<Rightarrow> (bytes \<Rightarrow> 'm \<Rightarrow> 'm result option) \<Rightarrow> 'm \<Rightarrow> 'm \<Rightarrow> bool" where
  "crosses marshal sz unmarshal fresh m \<longleftrightarrow>
     (\<forall>below typeName pool. \<exists>bs pool'.
        Marshal below typeName (Some (codec_message marshal sz unmarshal m)) pool = (Some (Inr bs), pool')
        \<and> (\<forall>data pool2. concat data = buffers_data bs \<longrightarrow>
             Unmarshal typeName data (Some (codec_message marshal sz unmarshal fresh)) pool2
               = (Some (Inr m), pool2 @ [Materialized, Freed])))"

abbreviation ReadRequest_crosses :: "protohelpers \<Rightarrow> pbReadRequest \<Rightarrow> bool" where
  "ReadRequest_crosses h \<equiv> crosses (returning (ReadRequest_MarshalToSizedBufferVT h)) (ReadRequest_SizeVT h) (ReadRequest_UnmarshalVT h) ReadRequest_fresh"

abbreviation ReadResponse_crosses :: "protohelpers \<Rightarrow> pbReadResponse \<Rightarrow> bool" where
  "ReadResponse_crosses h \<equiv> crosses (returning (ReadResponse_MarshalToSizedBufferVT h)) (ReadResponse_SizeVT h) (ReadResponse_UnmarshalVT h) ReadResponse_fresh"

abbreviation WriteRequest_crosses :: "protohelpers \<Rightarrow> pbWriteRequest \<Rightarrow> bool" where
  "WriteRequest_crosses h \<equiv> crosses (WriteRequest_MarshalToSizedBufferVT h) (WriteRequest_SizeVT h) (WriteRequest_UnmarshalVT h) WriteRequest_fresh"

abbreviation WriteResponse_crosses :: "protohelpers \<Rightarrow> pbWriteResponse \<Rightarrow> bool" where
  "WriteResponse_crosses h \<equiv> crosses (returning (WriteResponse_MarshalToSizedBufferVT h)) (WriteResponse_SizeVT h) (WriteResponse_UnmarshalVT h) WriteResponse_fresh"

abbreviation DeleteRequest_crosses :: "protohelpers \<Rightarrow> pbDeleteRequest \<Rightarrow> bool" where
  "DeleteRequest_crosses h \<equiv> crosses (returning (DeleteRequest_MarshalToSizedBufferVT h)) (DeleteRequest_SizeVT h) (DeleteRequest_UnmarshalVT h) DeleteRequest_fresh"

abbreviation DeleteResponse_crosses :: "protohelpers \<Rightarrow> pbDeleteResponse \<Rightarrow> bool" where
  "DeleteResponse_crosses h \<equiv> crosses (returning (DeleteResponse_MarshalToSizedBufferVT h)) (DeleteResponse_SizeVT h) (DeleteResponse_UnmarshalVT h) DeleteResponse_fresh"

abbreviation ExecuteRequest_crosses :: "protohelpers \<Rightarrow> pbExecuteRequest \<Rightarrow> bool" where
  "ExecuteRequest_crosses h \<equiv> crosses (returning (ExecuteRequest_MarshalToSizedBufferVT h)) (ExecuteRequest_SizeVT h) (ExecuteRequest_UnmarshalVT h) ExecuteRequest_fresh"

abbreviation ExecuteResponse_crosses :: "protohelpers \<Rightarrow> pbExecuteResponse \<Rightarrow> bool" where
  "ExecuteResponse_crosses h \<equiv> crosses (returning (ExecuteResponse_MarshalToSizedBufferVT h)) (ExecuteResponse_SizeVT h) (ExecuteResponse_UnmarshalVT h) ExecuteResponse_fresh"

abbreviation QueryRequest_crosses :: "protohelpers \<Rightarrow> pbQueryRequest \<Rightarrow> bool" where
  "QueryRequest_crosses h \<equiv> crosses (returning (QueryRequest_MarshalToSizedBufferVT h)) (QueryRequest_SizeVT h) (QueryRequest_UnmarshalVT h) QueryRequest_fresh"

abbreviation QueryResponse_crosses :: "protohelpers \<Rightarrow> pbQueryResponse \<Rightarrow> bool" where
  "QueryResponse_crosses h \<equiv> crosses (returning (QueryResponse_MarshalToSizedBufferVT h)) (QueryResponse_SizeVT h) (QueryResponse_UnmarshalVT h) QueryResponse_fresh"

abbreviation CountRequest_crosses :: "protohelpers \<Rightarrow> pbCountRequest \<Rightarrow> bool" where
  "CountRequest_crosses h \<equiv> crosses (returning (CountRequest_MarshalToSizedBufferVT h)) (CountRequest_SizeVT h) (CountRequest_UnmarshalVT h) CountRequest_fresh"

abbreviation CountResponse_crosses :: "protohelpers \<Rightarrow> pbCountResponse \<Rightarrow> bool" where
  "CountResponse_crosses h \<equiv> crosses (returning (CountResponse_MarshalToSizedBufferVT h)) (CountResponse_SizeVT h) (CountResponse_UnmarshalVT h) CountResponse_fresh"

abbreviation ScanRequest_crosses :: "protohelpers \<Rightarrow> pbScanRequest \<Rightarrow> bool" where
  "ScanRequest_crosses h \<equiv> crosses (returning (ScanRequest_MarshalToSizedBufferVT h)) (ScanRequest_SizeVT h) (ScanRequest_UnmarshalVT h) ScanRequest_fresh"

abbreviation ScanResponse_crosses :: "protohelpers \<Rightarrow> pbScanResponse \<Rightarrow> bool" where
  "ScanResponse_crosses h \<equiv> crosses (returning (ScanResponse_MarshalToSizedBufferVT h)) (ScanResponse_SizeVT h) (ScanResponse_UnmarshalVT h) ScanResponse_fresh"

text \<open>The byte that \<^verbatim>\<open>SizeVT\<close> counts too much for an operation whose wrapper is not nil and has no message.\<close>

definition excess :: "pbWriteOperation option \<Rightarrow> nat" where
  "excess x = (if opt_ok WriteOperation_sized x then 0 else 1)"

text \<open>
  Decoding is stable when \<^verbatim>\<open>Unmarshal\<close> of the data into a new message returns, frees its buffer, and gives an error or a
  message whose encoding does not panic and that crosses the wire again.
\<close>

definition decodes_stably ::
  "('m option \<Rightarrow> bytes option) \<Rightarrow> ('m option \<Rightarrow> nat) \<Rightarrow> (bytes \<Rightarrow> 'm \<Rightarrow> 'm result option) \<Rightarrow> 'm \<Rightarrow> bytes list \<Rightarrow> bool" where
  "decodes_stably marshal sz unmarshal fresh data \<longleftrightarrow>
     (\<forall>typeName pool. \<exists>r. Unmarshal typeName data (Some (codec_message marshal sz unmarshal fresh)) pool
        = (Some r, pool @ [Materialized, Freed])
        \<and> (case r of Inl err \<Rightarrow> True
           | Inr m \<Rightarrow> \<exists>b. marshal (Some m) = Some b \<and> (length b < 2 ^ 63 \<longrightarrow> crosses marshal sz unmarshal fresh m)))"

text \<open>Helpers that do what the library documents, for examples; \<open>Skip\<close> without groups.\<close>

definition ex_skip :: "bytes \<Rightarrow> int result" where
  "ex_skip d =
     (case varint_loop d 0 0 (0 :: 64 word) of
        Inl err \<Rightarrow> Inl err
      | Inr (wire, j) \<Rightarrow>
          (let wireType = unat (wire AND 7)
           in if wireType = 1 then Inr (int j + 8)
              else if wireType = 5 then Inr (int j + 4)
              else if wireType \<noteq> 0 \<and> wireType \<noteq> 2 then Inl (LibError ''illegal wireType'')
              else (case varint_loop d j 0 (0 :: 64 word) of
                      Inl err \<Rightarrow> Inl err
                    | Inr (v, k) \<Rightarrow>
                        if wireType = 0 then Inr (int k)
                        else if sint v < 0 then Inl ErrInvalidLength else Inr (int k + sint v))))"

definition ex_helpers :: protohelpers where
  "ex_helpers = \<lparr>ph_EncodeVarint = varint, ph_SizeOfVarint = (\<lambda>v. length (varint v)),
     ph_Skip = ex_skip\<rparr>"

definition ex_empty_put :: pbWriteRequest where
  "ex_empty_put = \<lparr>pbWriteRequest_CompletionMode = 1,
     pbWriteRequest_Operations = [Some \<lparr>pbWriteOperation_Address = None, pbWriteOperation_ReturnDocument = False,
       pbWriteOperation_Action = Some (WriteOperation_Put (Some None)), pbWriteOperation_unknownFields = []\<rparr>],
     pbWriteRequest_LuaPrograms = [], pbWriteRequest_unknownFields = []\<rparr>"

definition ex_nil_put :: pbWriteRequest where
  "ex_nil_put = ex_empty_put\<lparr>pbWriteRequest_Operations := [Some \<lparr>pbWriteOperation_Address = None,
     pbWriteOperation_ReturnDocument = False, pbWriteOperation_Action = Some (WriteOperation_Put None),
     pbWriteOperation_unknownFields = []\<rparr>]\<rparr>"

definition ex_read_response :: pbReadResponse where
  "ex_read_response = \<lparr>pbReadResponse_Results = [
     Some \<lparr>pbReadResult_OperationIndex = 0, pbReadResult_Status = 1,
       pbReadResult_Document = Some \<lparr>pbDocument_Encoding = 1, pbDocument_Payload = ''{}'', pbDocument_unknownFields = []\<rparr>,
       pbReadResult_Revision = Some \<lparr>pbRevisionToken_Data = ''r1'', pbRevisionToken_unknownFields = []\<rparr>,
       pbReadResult_Failure = None, pbReadResult_unknownFields = []\<rparr>,
     Some \<lparr>pbReadResult_OperationIndex = 300, pbReadResult_Status = 3, pbReadResult_Document = None,
       pbReadResult_Revision = None,
       pbReadResult_Failure = Some \<lparr>pbFailure_Code = 6, pbFailure_Message = ''busy'', pbFailure_Retryable = True,
         pbFailure_unknownFields = []\<rparr>, pbReadResult_unknownFields = []\<rparr>],
     pbReadResponse_unknownFields = []\<rparr>"

section \<open>Well-formed messages cross\<close>

lemma fill_buffer_exact: "fill_buffer (Some out) (length out) = Some (Inr (length out, out))"
  by (simp add: fill_buffer_def)

text \<open>
  A message under the codec: \<open>run\<close> is its marshaller, which returns the bytes of every message that has its exact size, and of nil.
\<close>

locale codec_type = vt_message h marshal sz unmarshal fresh sized wf
  for h :: protohelpers and marshal :: "'m option \<Rightarrow> bytes" and sz :: "'m option \<Rightarrow> nat"
    and unmarshal :: "bytes \<Rightarrow> 'm \<Rightarrow> 'm result option" and fresh :: 'm and sized :: "'m \<Rightarrow> bool" and wf :: "'m \<Rightarrow> bool" +
  fixes run :: "'m option \<Rightarrow> bytes option"
  assumes runs: "opt_ok sized x \<Longrightarrow> run x = Some (marshal x)"
begin

lemma codec_marshals:
  assumes "helpers_ok h" and "sized m"
  shows "\<exists>bs pool'. Marshal below typeName (Some (codec_message run sz unmarshal m)) pool = (Some (Inr bs), pool')
    \<and> buffers_data bs = marshal (Some m)"
  by (rule Marshal_written) (simp add: codec_message_def runs assms(2) size_exact [OF assms] fill_buffer_exact)

text \<open>The wrappers give the same bytes.\<close>

lemma wrappers_exact:
  assumes "helpers_ok h" and "sized m" and "sz (Some m) \<le> len"
  shows "MarshalVT run sz (Some m) = Some (Inr (marshal (Some m)))
    \<and> MarshalToVT run sz (Some m) len = Some (Inr (length (marshal (Some m)), marshal (Some m)))"
  using assms(3) by (simp add: MarshalVT_def MarshalToVT_def runs assms(2) size_exact [OF assms(1,2)] fill_buffer_exact)

lemma crosses_wire:
  assumes "helpers_ok h" and "wf m" and "length (marshal (Some m)) < 2 ^ 63"
  shows "crosses run sz unmarshal fresh m"
proof -
  have "Unmarshal typeName data (Some (codec_message run sz unmarshal fresh)) pool = (Some (Inr m), pool @ [Materialized, Freed])"
    if "concat data = marshal (Some m)" for typeName data pool
    using that round_trip [OF assms] by (simp add: Unmarshal_def codec_message_def)
  then show ?thesis unfolding crosses_def using codec_marshals [OF assms(1) wf_sized [OF assms(2)]] by metis
qed

lemma codec_decodes_stably:
  assumes "helpers_ok h" and "skip_ok h" and "length (concat data) < 2 ^ 63"
  shows "decodes_stably run sz unmarshal fresh data"
proof -
  obtain r where r: "unmarshal (concat data) fresh = Some r" and "case r of Inl err \<Rightarrow> True | Inr m \<Rightarrow> wf m"
    using returns [OF assms(2,3) fresh_wf] unfolding returns_with_ex by blast
  then have wf: "wf m" if "r = Inr m" for m using that by simp
  have "run (Some m) = Some (marshal (Some m)) \<and> (length (marshal (Some m)) < 2 ^ 63 \<longrightarrow> crosses run sz unmarshal fresh m)"
    if "r = Inr m" for m
    using wf [OF that] by (simp add: runs wf_sized crosses_wire [OF assms(1)])
  then show ?thesis by (cases r) (simp_all add: decodes_stably_def Unmarshal_def codec_message_def r)
qed

end

interpretation codec_ReadRequest: codec_type h "ReadRequest_MarshalToSizedBufferVT h" "ReadRequest_SizeVT h" "ReadRequest_UnmarshalVT h" ReadRequest_fresh
  "\<lambda>m. True" "ReadRequest_wf h" "returning (ReadRequest_MarshalToSizedBufferVT h)" for h
  by unfold_locales (rule returning_def)

interpretation codec_ReadResponse: codec_type h "ReadResponse_MarshalToSizedBufferVT h" "ReadResponse_SizeVT h" "ReadResponse_UnmarshalVT h" ReadResponse_fresh
  "\<lambda>m. True" "ReadResponse_wf h" "returning (ReadResponse_MarshalToSizedBufferVT h)" for h
  by unfold_locales (rule returning_def)

interpretation codec_WriteResponse: codec_type h "WriteResponse_MarshalToSizedBufferVT h" "WriteResponse_SizeVT h" "WriteResponse_UnmarshalVT h" WriteResponse_fresh
  "\<lambda>m. True" "WriteResponse_wf h" "returning (WriteResponse_MarshalToSizedBufferVT h)" for h
  by unfold_locales (rule returning_def)

interpretation codec_DeleteRequest: codec_type h "DeleteRequest_MarshalToSizedBufferVT h" "DeleteRequest_SizeVT h" "DeleteRequest_UnmarshalVT h" DeleteRequest_fresh
  "\<lambda>m. True" "DeleteRequest_wf h" "returning (DeleteRequest_MarshalToSizedBufferVT h)" for h
  by unfold_locales (rule returning_def)

interpretation codec_DeleteResponse: codec_type h "DeleteResponse_MarshalToSizedBufferVT h" "DeleteResponse_SizeVT h" "DeleteResponse_UnmarshalVT h" DeleteResponse_fresh
  "\<lambda>m. True" "DeleteResponse_wf h" "returning (DeleteResponse_MarshalToSizedBufferVT h)" for h
  by unfold_locales (rule returning_def)

interpretation codec_ExecuteRequest: codec_type h "ExecuteRequest_MarshalToSizedBufferVT h" "ExecuteRequest_SizeVT h" "ExecuteRequest_UnmarshalVT h" ExecuteRequest_fresh
  "\<lambda>m. True" "ExecuteRequest_wf h" "returning (ExecuteRequest_MarshalToSizedBufferVT h)" for h
  by unfold_locales (rule returning_def)

interpretation codec_ExecuteResponse: codec_type h "ExecuteResponse_MarshalToSizedBufferVT h" "ExecuteResponse_SizeVT h" "ExecuteResponse_UnmarshalVT h" ExecuteResponse_fresh
  "\<lambda>m. True" "ExecuteResponse_wf h" "returning (ExecuteResponse_MarshalToSizedBufferVT h)" for h
  by unfold_locales (rule returning_def)

interpretation codec_QueryRequest: codec_type h "QueryRequest_MarshalToSizedBufferVT h" "QueryRequest_SizeVT h" "QueryRequest_UnmarshalVT h" QueryRequest_fresh
  "\<lambda>m. True" "QueryRequest_wf h" "returning (QueryRequest_MarshalToSizedBufferVT h)" for h
  by unfold_locales (rule returning_def)

interpretation codec_QueryResponse: codec_type h "QueryResponse_MarshalToSizedBufferVT h" "QueryResponse_SizeVT h" "QueryResponse_UnmarshalVT h" QueryResponse_fresh
  "\<lambda>m. True" "QueryResponse_wf h" "returning (QueryResponse_MarshalToSizedBufferVT h)" for h
  by unfold_locales (rule returning_def)

interpretation codec_CountRequest: codec_type h "CountRequest_MarshalToSizedBufferVT h" "CountRequest_SizeVT h" "CountRequest_UnmarshalVT h" CountRequest_fresh
  "\<lambda>m. True" "CountRequest_wf h" "returning (CountRequest_MarshalToSizedBufferVT h)" for h
  by unfold_locales (rule returning_def)

interpretation codec_CountResponse: codec_type h "CountResponse_MarshalToSizedBufferVT h" "CountResponse_SizeVT h" "CountResponse_UnmarshalVT h" CountResponse_fresh
  "\<lambda>m. True" "CountResponse_wf h" "returning (CountResponse_MarshalToSizedBufferVT h)" for h
  by unfold_locales (rule returning_def)

interpretation codec_ScanRequest: codec_type h "ScanRequest_MarshalToSizedBufferVT h" "ScanRequest_SizeVT h" "ScanRequest_UnmarshalVT h" ScanRequest_fresh
  "\<lambda>m. True" "ScanRequest_wf h" "returning (ScanRequest_MarshalToSizedBufferVT h)" for h
  by unfold_locales (rule returning_def)

interpretation codec_ScanResponse: codec_type h "ScanResponse_MarshalToSizedBufferVT h" "ScanResponse_SizeVT h" "ScanResponse_UnmarshalVT h" ScanResponse_fresh
  "\<lambda>m. True" "ScanResponse_wf h" "returning (ScanResponse_MarshalToSizedBufferVT h)" for h
  by unfold_locales (rule returning_def)

interpretation codec_WriteRequest: codec_type h "WriteRequest_bytes h" "WriteRequest_SizeVT h" "WriteRequest_UnmarshalVT h"
  WriteRequest_fresh WriteRequest_sized "WriteRequest_wf h" "WriteRequest_MarshalToSizedBufferVT h" for h
  by unfold_locales (auto simp: WriteRequest_marshal opt_ok_def WriteRequest_sized_complete split: option.splits)

section \<open>A wrapper without a message\<close>

text \<open>
  \<open>SizeVT\<close> of a \<^verbatim>\<open>oneof\<close> wrapper whose message is nil counts three bytes, \<open>MarshalToSizedBufferVT\<close> writes two.
\<close>

lemma varint_nat_mono: "m \<le> n \<Longrightarrow> length (varint_nat m) \<le> length (varint_nat n)"
proof (induction n arbitrary: m rule: varint_nat.induct)
  case (1 n)
  show ?case
  proof (cases "n < 128")
    case True
    then show ?thesis using "1.prems" by (simp add: varint_nat.simps [of m] varint_nat.simps [of n])
  next
    case False
    have "length (varint_nat (m div 128)) \<le> length (varint_nat (n div 128))"
      using "1.IH" [OF False div_le_mono [OF "1.prems"]] .
    then show ?thesis using False by (simp add: varint_nat.simps [of m] varint_nat.simps [of n])
  qed
qed

lemma size_delimited_mono:
  assumes "helpers_ok h" and "l + k < 2 ^ 64"
  shows "size_delimited h l + k \<le> size_delimited h (l + k)"
proof -
  have "length (varint (of_nat l)) \<le> length (varint (of_nat (l + k)))"
    using assms(2) unfolding varint_def
    by (intro varint_nat_mono) (simp add: unsigned_of_nat take_bit_nat_eq_self flip: of_nat_add)
  then show ?thesis by (simp add: size_delimited_def helpers_okD [OF assms(1)])
qed

lemma WriteOperation_excess:
  assumes "helpers_ok h" and "opt_ok WriteOperation_complete x"
  shows "WriteOperation_SizeVT h x = length (WriteOperation_bytes h x) + excess x"
proof (cases x)
  case None
  then show ?thesis by (simp add: WriteOperation_SizeVT_def WriteOperation_bytes_def WriteOperation_MarshalToSizedBufferVT_def excess_def)
next
  case (Some m)
  let ?u = "pbWriteOperation_unknownFields m"
  have c: "WriteOperation_complete m" using assms(2) Some by simp
  then obtain out where "WriteAction_MarshalToSizedBufferVT h (pbWriteOperation_Action m) ?u = Some out"
    using WriteAction_returns [of h "pbWriteOperation_Action m" ?u] by (auto simp: WriteOperation_complete_def)
  from WriteAction_length [OF assms(1) this] this c show ?thesis
    by (auto simp: Some excess_def WriteOperation_sized_def WriteOperation_SizeVT_def WriteOperation_bytes_Some
        put_length [OF assms(1)] vt_RecordAddress.put_field_length [OF assms(1)])
qed

lemma put_operations_excess:
  assumes "helpers_ok h" and "list_all (opt_ok WriteOperation_complete) xs" and "size_messages h (WriteOperation_SizeVT h) xs < 2 ^ 63"
  shows "length (put_messages h tag (WriteOperation_bytes h) xs acc) + sum_list (map excess xs)
     \<le> size_messages h (WriteOperation_SizeVT h) xs + length acc"
  using assms(2,3)
proof (induction xs)
  case Nil
  then show ?case by (simp add: put_messages_def)
next
  case (Cons x xs)
  have x: "WriteOperation_SizeVT h x = length (WriteOperation_bytes h x) + excess x"
    using WriteOperation_excess [OF assms(1)] Cons.prems(1) by simp
  let ?l = "length (WriteOperation_bytes h x)"
  have "?l + excess x < 2 ^ 63" using Cons.prems(2) by (simp add: size_messages_def size_delimited_def x)
  then have "size_delimited h ?l + excess x \<le> size_delimited h (?l + excess x)"
    by (intro size_delimited_mono assms(1)) simp
  with Cons show ?case
    by (simp add: put_messages_def size_messages_def put_length [OF assms(1)] x)
qed

lemma WriteRequest_unsized:
  assumes "helpers_ok h" and "WriteRequest_complete m" and "\<not> WriteRequest_sized m" and "WriteRequest_SizeVT h (Some m) < 2 ^ 63"
  shows "length (WriteRequest_bytes h (Some m)) < WriteRequest_SizeVT h (Some m)"
proof -
  let ?xs = "pbWriteRequest_Operations m"
  obtain x where x: "x \<in> set ?xs" "excess x = 1"
    using assms(3) by (auto simp: WriteRequest_sized_def list_all_conv_set excess_def)
  have "excess x \<in> set (map excess ?xs)" using x(1) by simp
  from member_le_sum_list [OF this] have "0 < sum_list (map excess ?xs)" using x(2) by simp
  moreover have "size_messages h (WriteOperation_SizeVT h) ?xs < 2 ^ 63"
    using assms(4) by (simp add: WriteRequest_SizeVT_def)
  ultimately show ?thesis
    using put_operations_excess [OF assms(1) assms(2) [unfolded WriteRequest_complete_def], where tag = "0x12"
        and acc = "put_messages h 0x1a (LuaProgram_MarshalToSizedBufferVT h) (pbWriteRequest_LuaPrograms m)
          (pbWriteRequest_unknownFields m)"]
    by (simp add: WriteRequest_SizeVT_def WriteRequest_bytes_Some assms(2) put_length [OF assms(1)]
        vt_LuaProgram.put_fields_length [OF assms(1)])
qed

text \<open>\<open>MarshalVT\<close> does not compare: it returns the head of a buffer that is filled from its end.\<close>

lemma MarshalVT_unsized:
  assumes "helpers_ok h" and "WriteRequest_complete m" and "\<not> WriteRequest_sized m" and "WriteRequest_SizeVT h (Some m) < 2 ^ 63"
    and "WriteRequest_bytes h (Some m) \<noteq> []"
  shows "\<exists>b. MarshalVT (WriteRequest_MarshalToSizedBufferVT h) (WriteRequest_SizeVT h) (Some m) = Some (Inr (chr 0 # b))"
proof -
  let ?out = "WriteRequest_bytes h (Some m)" and ?n = "WriteRequest_SizeVT h (Some m)"
  have "length ?out < ?n" by (rule WriteRequest_unsized [OF assms(1-4)])
  then obtain k where "?n - length ?out = Suc k" by (metis Suc_diff_Suc)
  moreover obtain l where "length ?out = Suc l" using assms(5) by (cases ?out) auto
  ultimately show ?thesis using \<open>length ?out < ?n\<close>
    by (simp add: MarshalVT_def fill_buffer_def WriteRequest_marshal assms(2))
qed

lemma varint_loop_prefix:
  assumes "varint_loop d i shift acc = Inr (v, k)" and "k \<le> n" and "n \<le> length d"
  shows "varint_loop (take n d @ rest) i shift acc = Inr (v, k)"
proof -
  have k: "i < k" "k \<le> length d" using varint_loop_forward [OF assms(1)] by auto
  then have "placed (take n d @ rest) i (take (k - i) (drop i d))"
    using assms(2,3) by (simp add: placed_def drop_take min_def)
  from varint_loop_local [OF assms(1) this] k show ?thesis by simp
qed

lemma ex_skip_ok:
  assumes "ex_skip d = Inr n"
  shows "0 < n \<and> (n \<le> int (length d) \<longrightarrow> (\<forall>rest. ex_skip (take (nat n) d @ rest) = Inr n)
    \<and> (\<forall>wire j. varint_loop d 0 0 (0 :: 64 word) = Inr (wire, j) \<longrightarrow> j \<le> nat n))"
proof -
  obtain wire j where v: "varint_loop d 0 0 (0 :: 64 word) = Inr (wire, j)"
    using assms by (auto simp: ex_skip_def split: sum.splits)
  then have j: "0 < j" "int j \<le> n"
    using assms varint_loop_forward [OF v]
    by (auto simp: ex_skip_def Let_def split: sum.splits if_splits dest!: varint_loop_forward)
  have "ex_skip (take (nat n) d @ rest) = Inr n" if n: "n \<le> int (length d)" for rest
  proof -
    have pre: "varint_loop (take (nat n) d @ rest) i 0 (0 :: 64 word) = Inr (x, k)"
      if "varint_loop d i 0 (0 :: 64 word) = Inr (x, k)" "int k \<le> n" for i x k
      using varint_loop_prefix [OF that(1)] that(2) n by simp
    show ?thesis using assms pre [OF v j(2)] v
      by (auto simp: ex_skip_def Let_def split: sum.splits if_splits dest!: pre)
  qed
  then show ?thesis using j v by auto
qed

lemma ex_helpers_ok: "helpers_ok ex_helpers" "skip_ok ex_helpers"
  using ex_skip_ok by (simp_all add: helpers_ok_def skip_ok_def ex_helpers_def)

lemma decodes_stably_crosses:
  assumes "decodes_stably marshal sz unmarshal fresh data"
    and "Unmarshal typeName data (Some (codec_message marshal sz unmarshal fresh)) pool = (Some (Inr m), pool')"
  shows "\<exists>b. marshal (Some m) = Some b \<and> (length b < 2 ^ 63 \<longrightarrow> crosses marshal sz unmarshal fresh m)"
proof -
  obtain r where "Unmarshal typeName data (Some (codec_message marshal sz unmarshal fresh)) pool = (Some r, pool @ [Materialized, Freed])"
      and "case r of Inl err \<Rightarrow> True | Inr m \<Rightarrow> \<exists>b. marshal (Some m) = Some b
        \<and> (length b < 2 ^ 63 \<longrightarrow> crosses marshal sz unmarshal fresh m)"
    using assms(1) unfolding decodes_stably_def by blast
  moreover from this have "r = Inr m" using assms(2) by simp
  ultimately show ?thesis by simp
qed

section \<open>Properties\<close>

text \<open>
  C39: the codec on write requests, in every case. When an operation's action is a nil wrapper, \<^verbatim>\<open>Marshal\<close> panics, and the buffer it
  took from the pool, if the computed size asks for one, is not given back. Otherwise, when some wrapper has no message, the request
  is refused with the error that the number of bytes written is not the computed size, since \<^verbatim>\<open>SizeVT\<close> of that wrapper counts a byte
  that is never written. In all other cases \<^verbatim>\<open>Marshal\<close> succeeds, with exactly the bytes that \<^verbatim>\<open>MarshalToSizedBufferVT\<close> writes.
\<close>

theorem write_request_marshal:
  assumes "helpers_ok h" and "WriteRequest_SizeVT h (Some m) < 2 ^ 63"
  shows "if \<not> WriteRequest_complete m
    then Marshal below typeName (Some (WriteRequest_message h m)) pool
      = (None, pool @ (if below (WriteRequest_SizeVT h (Some m)) then [] else [PoolGet (WriteRequest_SizeVT h (Some m))]))
    else if WriteRequest_sized m
    then \<exists>bs pool'. Marshal below typeName (Some (WriteRequest_message h m)) pool = (Some (Inr bs), pool')
      \<and> WriteRequest_MarshalToSizedBufferVT h (Some m) = Some (buffers_data bs)
    else \<exists>n<WriteRequest_SizeVT h (Some m). \<exists>pool'. Marshal below typeName (Some (WriteRequest_message h m)) pool
      = (Some (Inl (written_mismatch n (WriteRequest_SizeVT h (Some m)))), pool')"
proof (cases "WriteRequest_complete m")
  case False
  then show ?thesis using Marshal_panic [of "WriteRequest_message h m"]
    by (simp add: codec_message_def fill_buffer_def WriteRequest_marshal)
next
  case complete: True
  show ?thesis
  proof (cases "WriteRequest_sized m")
    case True
    then show ?thesis using codec_WriteRequest.codec_marshals [OF assms(1) True, of below typeName pool] complete
      by (auto simp: WriteRequest_marshal)
  next
    case False
    let ?n = "length (WriteRequest_bytes h (Some m))"
    have "?n < WriteRequest_SizeVT h (Some m)" by (rule WriteRequest_unsized [OF assms(1) complete False assms(2)])
    moreover from this have "\<exists>pool'. Marshal below typeName (Some (WriteRequest_message h m)) pool
        = (Some (Inl (written_mismatch ?n (WriteRequest_SizeVT h (Some m)))), pool')"
      using Marshal_mismatch [of "WriteRequest_message h m" ?n] complete
      by (simp add: codec_message_def fill_buffer_def WriteRequest_marshal)
    ultimately show ?thesis using False complete by auto
  qed
qed

theorem write_request_marshal_witness:
  "WriteRequest_SizeVT ex_helpers (Some ex_empty_put) = 7
   \<and> (\<exists>n<7. \<exists>pool'. Marshal (\<lambda>n. True) ''*sinkv1.WriteRequest'' (Some (WriteRequest_message ex_helpers ex_empty_put)) []
        = (Some (Inl (written_mismatch n 7)), pool'))
   \<and> Marshal (\<lambda>n. False) ''*sinkv1.WriteRequest'' (Some (WriteRequest_message ex_helpers ex_nil_put)) [] = (None, [PoolGet 4])"
proof -
  have "WriteRequest_SizeVT ex_helpers (Some ex_empty_put) = 7" "WriteRequest_SizeVT ex_helpers (Some ex_nil_put) = 4"
    by code_simp+
  moreover have "\<not> WriteRequest_sized ex_empty_put" "WriteRequest_complete ex_empty_put" "\<not> WriteRequest_complete ex_nil_put"
    by code_simp+
  ultimately show ?thesis
    using write_request_marshal [OF ex_helpers_ok(1), of ex_empty_put "\<lambda>n. True" "''*sinkv1.WriteRequest''" "[]"]
      write_request_marshal [OF ex_helpers_ok(1), of ex_nil_put "\<lambda>n. False" "''*sinkv1.WriteRequest''" "[]"] by simp
qed

text \<open>
  C16: decoding always returns, and what it gives is stable. Whatever bytes arrive, in whatever pieces, \<^verbatim>\<open>Unmarshal\<close> into a
  new message of each of the fourteen types ends with a message or an error, and gives its buffer back: it neither runs
  forever nor panics. A message decoded from any bytes, with the fields this version does not know, encodes without an error
  or a panic and decodes to itself.
\<close>

theorem decoding_returns:
  assumes "helpers_ok h" and "skip_ok h" and "length (concat data) < 2 ^ 63"
  shows "decodes_stably (returning (ReadRequest_MarshalToSizedBufferVT h)) (ReadRequest_SizeVT h) (ReadRequest_UnmarshalVT h) ReadRequest_fresh data
    \<and> decodes_stably (returning (ReadResponse_MarshalToSizedBufferVT h)) (ReadResponse_SizeVT h) (ReadResponse_UnmarshalVT h) ReadResponse_fresh data
    \<and> decodes_stably (WriteRequest_MarshalToSizedBufferVT h) (WriteRequest_SizeVT h) (WriteRequest_UnmarshalVT h) WriteRequest_fresh data
    \<and> decodes_stably (returning (WriteResponse_MarshalToSizedBufferVT h)) (WriteResponse_SizeVT h) (WriteResponse_UnmarshalVT h) WriteResponse_fresh data
    \<and> decodes_stably (returning (DeleteRequest_MarshalToSizedBufferVT h)) (DeleteRequest_SizeVT h) (DeleteRequest_UnmarshalVT h) DeleteRequest_fresh data
    \<and> decodes_stably (returning (DeleteResponse_MarshalToSizedBufferVT h)) (DeleteResponse_SizeVT h) (DeleteResponse_UnmarshalVT h) DeleteResponse_fresh data
    \<and> decodes_stably (returning (ExecuteRequest_MarshalToSizedBufferVT h)) (ExecuteRequest_SizeVT h) (ExecuteRequest_UnmarshalVT h) ExecuteRequest_fresh data
    \<and> decodes_stably (returning (ExecuteResponse_MarshalToSizedBufferVT h)) (ExecuteResponse_SizeVT h) (ExecuteResponse_UnmarshalVT h) ExecuteResponse_fresh data
    \<and> decodes_stably (returning (QueryRequest_MarshalToSizedBufferVT h)) (QueryRequest_SizeVT h) (QueryRequest_UnmarshalVT h) QueryRequest_fresh data
    \<and> decodes_stably (returning (QueryResponse_MarshalToSizedBufferVT h)) (QueryResponse_SizeVT h) (QueryResponse_UnmarshalVT h) QueryResponse_fresh data
    \<and> decodes_stably (returning (CountRequest_MarshalToSizedBufferVT h)) (CountRequest_SizeVT h) (CountRequest_UnmarshalVT h) CountRequest_fresh data
    \<and> decodes_stably (returning (CountResponse_MarshalToSizedBufferVT h)) (CountResponse_SizeVT h) (CountResponse_UnmarshalVT h) CountResponse_fresh data
    \<and> decodes_stably (returning (ScanRequest_MarshalToSizedBufferVT h)) (ScanRequest_SizeVT h) (ScanRequest_UnmarshalVT h) ScanRequest_fresh data
    \<and> decodes_stably (returning (ScanResponse_MarshalToSizedBufferVT h)) (ScanResponse_SizeVT h) (ScanResponse_UnmarshalVT h) ScanResponse_fresh data"
  using assms
  by (intro conjI codec_ReadRequest.codec_decodes_stably
      codec_ReadResponse.codec_decodes_stably
      codec_WriteRequest.codec_decodes_stably
      codec_WriteResponse.codec_decodes_stably
      codec_DeleteRequest.codec_decodes_stably
      codec_DeleteResponse.codec_decodes_stably
      codec_ExecuteRequest.codec_decodes_stably
      codec_ExecuteResponse.codec_decodes_stably
      codec_QueryRequest.codec_decodes_stably
      codec_QueryResponse.codec_decodes_stably
      codec_CountRequest.codec_decodes_stably
      codec_CountResponse.codec_decodes_stably
      codec_ScanRequest.codec_decodes_stably
      codec_ScanResponse.codec_decodes_stably)

theorem decoding_returns_witness:
  "\<exists>m. Unmarshal ''*sinkv1.CountResponse'' [[chr 8], [chr 5, chr 120, chr 7]]
       (Some (CountResponse_message ex_helpers CountResponse_fresh)) [] = (Some (Inr m), [Materialized, Freed])
     \<and> pbCountResponse_Count m = 5 \<and> pbCountResponse_unknownFields m = [chr 120, chr 7] \<and> CountResponse_crosses ex_helpers m"
proof -
  let ?m = "\<lparr>pbCountResponse_Count = 5, pbCountResponse_Estimated = False, pbCountResponse_unknownFields = [chr 120, chr 7]\<rparr>"
  have "CountResponse_UnmarshalVT ex_helpers [chr 8, chr 5, chr 120, chr 7] CountResponse_fresh = Some (Inr ?m)" by code_simp
  then have run: "Unmarshal ''*sinkv1.CountResponse'' [[chr 8], [chr 5, chr 120, chr 7]]
       (Some (CountResponse_message ex_helpers CountResponse_fresh)) [] = (Some (Inr ?m), [Materialized, Freed])"
    by (simp add: Unmarshal_def codec_message_def)
  have len: "length (CountResponse_MarshalToSizedBufferVT ex_helpers (Some ?m)) = 4" by code_simp
  have stable: "decodes_stably (returning (CountResponse_MarshalToSizedBufferVT ex_helpers)) (CountResponse_SizeVT ex_helpers)
      (CountResponse_UnmarshalVT ex_helpers) CountResponse_fresh [[chr 8], [chr 5, chr 120, chr 7]]"
    using decoding_returns [OF ex_helpers_ok, of "[[chr 8], [chr 5, chr 120, chr 7]]"] by simp
  have "CountResponse_crosses ex_helpers ?m" 
    using decodes_stably_crosses [OF stable run] len by (simp add: returning_def)
  then show ?thesis using run by (intro exI [of _ ?m]) simp
qed

text \<open>
  Every well-formed response crosses the wire: what a server that encodes with these methods answers is what the client's
  \<^verbatim>\<open>Unmarshal\<close> gives the stub, however the transport cuts the bytes.
\<close>

theorem responses_cross_the_wire:
  assumes "helpers_ok h"
  shows "(ReadResponse_wf h r1 \<and> length (ReadResponse_MarshalToSizedBufferVT h (Some r1)) < 2 ^ 63 \<longrightarrow> ReadResponse_crosses h r1)
    \<and> (WriteResponse_wf h r2 \<and> length (WriteResponse_MarshalToSizedBufferVT h (Some r2)) < 2 ^ 63 \<longrightarrow> WriteResponse_crosses h r2)
    \<and> (DeleteResponse_wf h r3 \<and> length (DeleteResponse_MarshalToSizedBufferVT h (Some r3)) < 2 ^ 63 \<longrightarrow> DeleteResponse_crosses h r3)
    \<and> (ExecuteResponse_wf h r4 \<and> length (ExecuteResponse_MarshalToSizedBufferVT h (Some r4)) < 2 ^ 63 \<longrightarrow> ExecuteResponse_crosses h r4)
    \<and> (QueryResponse_wf h r5 \<and> length (QueryResponse_MarshalToSizedBufferVT h (Some r5)) < 2 ^ 63 \<longrightarrow> QueryResponse_crosses h r5)
    \<and> (CountResponse_wf h r6 \<and> length (CountResponse_MarshalToSizedBufferVT h (Some r6)) < 2 ^ 63 \<longrightarrow> CountResponse_crosses h r6)
    \<and> (ScanResponse_wf h r7 \<and> length (ScanResponse_MarshalToSizedBufferVT h (Some r7)) < 2 ^ 63 \<longrightarrow> ScanResponse_crosses h r7)"
  using assms by (intro conjI impI codec_ReadResponse.crosses_wire
      codec_WriteResponse.crosses_wire
      codec_DeleteResponse.crosses_wire
      codec_ExecuteResponse.crosses_wire
      codec_QueryResponse.crosses_wire
      codec_CountResponse.crosses_wire
      codec_ScanResponse.crosses_wire) simp_all

theorem responses_cross_the_wire_witness:
  "ReadResponse_crosses ex_helpers ex_read_response
   \<and> ReadResponse_UnmarshalVT ex_helpers (ReadResponse_MarshalToSizedBufferVT ex_helpers (Some ex_read_response)) ReadResponse_fresh
     = Some (Inr ex_read_response)"
proof -
  have "ReadResponse_wf ex_helpers ex_read_response"
    by (simp add: ReadResponse_wf_def ReadResult_wf_def ex_read_response_def each_ok_def Document_wf_def RevisionToken_wf_def
        Failure_wf_def)
  moreover have "length (ReadResponse_MarshalToSizedBufferVT ex_helpers (Some ex_read_response)) = 37" by code_simp
  ultimately show ?thesis
    using responses_cross_the_wire [OF ex_helpers_ok(1)] vt_ReadResponse.round_trip [OF ex_helpers_ok(1)] by simp
qed

end
