(* ===== verification/Grpc_Server.thy ===== *)
theory Grpc_Server
  imports Vt_Codec Transport
begin

text \<open>
  The server side of \<^verbatim>\<open>api/sink/v1/sink_grpc.pb.go\<close>: the service interface, its default implementation, the handler of
  each method, and the service description that gRPC registers. The service is a record of functions on the state \<open>'s\<close>,
  \<open>'d\<close> is a context of the server. A pointer is an option, and a call that panics is \<^const>\<open>None\<close>.
\<close>

section \<open>Services\<close>

record ('d, 's) SinkServer =
  srv_Read :: "'d \<Rightarrow> pbReadRequest option \<Rightarrow> 's \<Rightarrow> pbReadResponse option result \<times> 's"
  srv_Write :: "'d \<Rightarrow> pbWriteRequest option \<Rightarrow> 's \<Rightarrow> pbWriteResponse option result \<times> 's"
  srv_Delete :: "'d \<Rightarrow> pbDeleteRequest option \<Rightarrow> 's \<Rightarrow> pbDeleteResponse option result \<times> 's"
  srv_Execute :: "'d \<Rightarrow> pbExecuteRequest option \<Rightarrow> 's \<Rightarrow> pbExecuteResponse option result \<times> 's"
  srv_Query :: "'d \<Rightarrow> pbQueryRequest option \<Rightarrow> 's \<Rightarrow> pbQueryResponse option result \<times> 's"
  srv_Count :: "'d \<Rightarrow> pbCountRequest option \<Rightarrow> 's \<Rightarrow> pbCountResponse option result \<times> 's"
  srv_Scan :: "'d \<Rightarrow> pbScanRequest option \<Rightarrow> 's \<Rightarrow> pbScanResponse option result \<times> 's"

text \<open>
  The default implementation, which a service embeds. \<open>status_Errorf\<close> is gRPC's constructor of an error with a status code.
\<close>

abbreviation (input) codes_Unimplemented :: nat where "codes_Unimplemented \<equiv> 12"

definition UnimplementedSinkServer :: "(nat \<Rightarrow> bytes \<Rightarrow> go_error) \<Rightarrow> ('d, 's) SinkServer" where
  "UnimplementedSinkServer status_Errorf =
     \<lparr>srv_Read = (\<lambda>ctx req s. (Inl (status_Errorf codes_Unimplemented ''method Read not implemented''), s)),
      srv_Write = (\<lambda>ctx req s. (Inl (status_Errorf codes_Unimplemented ''method Write not implemented''), s)),
      srv_Delete = (\<lambda>ctx req s. (Inl (status_Errorf codes_Unimplemented ''method Delete not implemented''), s)),
      srv_Execute = (\<lambda>ctx req s. (Inl (status_Errorf codes_Unimplemented ''method Execute not implemented''), s)),
      srv_Query = (\<lambda>ctx req s. (Inl (status_Errorf codes_Unimplemented ''method Query not implemented''), s)),
      srv_Count = (\<lambda>ctx req s. (Inl (status_Errorf codes_Unimplemented ''method Count not implemented''), s)),
      srv_Scan = (\<lambda>ctx req s. (Inl (status_Errorf codes_Unimplemented ''method Scan not implemented''), s))\<rparr>"

section \<open>Handlers\<close>

text \<open>What an \<^verbatim>\<open>interface{}\<close> holds in this file: a pointer to one of the fourteen messages.\<close>

datatype any_message =
    AnyReadRequest "pbReadRequest option" | AnyReadResponse "pbReadResponse option"
  | AnyWriteRequest "pbWriteRequest option" | AnyWriteResponse "pbWriteResponse option"
  | AnyDeleteRequest "pbDeleteRequest option" | AnyDeleteResponse "pbDeleteResponse option"
  | AnyExecuteRequest "pbExecuteRequest option" | AnyExecuteResponse "pbExecuteResponse option"
  | AnyQueryRequest "pbQueryRequest option" | AnyQueryResponse "pbQueryResponse option"
  | AnyCountRequest "pbCountRequest option" | AnyCountResponse "pbCountResponse option"
  | AnyScanRequest "pbScanRequest option" | AnyScanResponse "pbScanResponse option"

text \<open>
  gRPC's \<^verbatim>\<open>dec\<close>, which fills the message it is given, on each of the types that a handler gives it: the filled
  message or an error.
\<close>

record decoder =
  dec_ReadRequest :: "pbReadRequest \<Rightarrow> pbReadRequest result option"
  dec_WriteRequest :: "pbWriteRequest \<Rightarrow> pbWriteRequest result option"
  dec_DeleteRequest :: "pbDeleteRequest \<Rightarrow> pbDeleteRequest result option"
  dec_ExecuteRequest :: "pbExecuteRequest \<Rightarrow> pbExecuteRequest result option"
  dec_QueryRequest :: "pbQueryRequest \<Rightarrow> pbQueryRequest result option"
  dec_CountRequest :: "pbCountRequest \<Rightarrow> pbCountRequest result option"
  dec_ScanRequest :: "pbScanRequest \<Rightarrow> pbScanRequest result option"

record ('d, 's) UnaryServerInfo =
  usi_Server :: "('d, 's) SinkServer"
  usi_FullMethod :: bytes

type_synonym ('d, 's) UnaryHandler = "'d \<Rightarrow> any_message \<Rightarrow> 's \<Rightarrow> (any_message result \<times> 's) option"

type_synonym ('d, 's) UnaryServerInterceptor =
  "'d \<Rightarrow> any_message \<Rightarrow> ('d, 's) UnaryServerInfo \<Rightarrow> ('d, 's) UnaryHandler \<Rightarrow> 's \<Rightarrow> (any_message result \<times> 's) option"

type_synonym ('d, 's) methodHandler =
  "('d, 's) SinkServer \<Rightarrow> 'd \<Rightarrow> decoder \<Rightarrow> ('d, 's) UnaryServerInterceptor option \<Rightarrow> 's \<Rightarrow> (any_message result \<times> 's) option"

definition reply :: "('p \<Rightarrow> any_message) \<Rightarrow> 'p result \<times> 's \<Rightarrow> any_message result \<times> 's" where
  "reply any x = (case x of (Inl err, s) \<Rightarrow> (Inl err, s) | (Inr p, s) \<Rightarrow> (Inr (any p), s))"

abbreviation Sink_Read_FullMethodName :: bytes where
  "Sink_Read_FullMethodName \<equiv> ''/sink.v1.Sink/Read''"

abbreviation Sink_Write_FullMethodName :: bytes where
  "Sink_Write_FullMethodName \<equiv> ''/sink.v1.Sink/Write''"

abbreviation Sink_Delete_FullMethodName :: bytes where
  "Sink_Delete_FullMethodName \<equiv> ''/sink.v1.Sink/Delete''"

abbreviation Sink_Execute_FullMethodName :: bytes where
  "Sink_Execute_FullMethodName \<equiv> ''/sink.v1.Sink/Execute''"

abbreviation Sink_Query_FullMethodName :: bytes where
  "Sink_Query_FullMethodName \<equiv> ''/sink.v1.Sink/Query''"

abbreviation Sink_Count_FullMethodName :: bytes where
  "Sink_Count_FullMethodName \<equiv> ''/sink.v1.Sink/Count''"

abbreviation Sink_Scan_FullMethodName :: bytes where
  "Sink_Scan_FullMethodName \<equiv> ''/sink.v1.Sink/Scan''"

definition Sink_Read_Handler :: "('d, 's) methodHandler" where
  "Sink_Read_Handler srv ctx dec interceptor s =
     (case dec_ReadRequest dec ReadRequest_fresh of
        None \<Rightarrow> None
      | Some (Inl err) \<Rightarrow> Some (Inl err, s)
      | Some (Inr req) \<Rightarrow>
          (case interceptor of
             None \<Rightarrow> Some (reply AnyReadResponse (srv_Read srv ctx (Some req) s))
           | Some intercept \<Rightarrow>
               intercept ctx (AnyReadRequest (Some req))
                 \<lparr>usi_Server = srv, usi_FullMethod = Sink_Read_FullMethodName\<rparr>
                 (\<lambda>ctx any s. case any of
                    AnyReadRequest r \<Rightarrow> Some (reply AnyReadResponse (srv_Read srv ctx r s))
                  | _ \<Rightarrow> None)
                 s))"

definition Sink_Write_Handler :: "('d, 's) methodHandler" where
  "Sink_Write_Handler srv ctx dec interceptor s =
     (case dec_WriteRequest dec WriteRequest_fresh of
        None \<Rightarrow> None
      | Some (Inl err) \<Rightarrow> Some (Inl err, s)
      | Some (Inr req) \<Rightarrow>
          (case interceptor of
             None \<Rightarrow> Some (reply AnyWriteResponse (srv_Write srv ctx (Some req) s))
           | Some intercept \<Rightarrow>
               intercept ctx (AnyWriteRequest (Some req))
                 \<lparr>usi_Server = srv, usi_FullMethod = Sink_Write_FullMethodName\<rparr>
                 (\<lambda>ctx any s. case any of
                    AnyWriteRequest r \<Rightarrow> Some (reply AnyWriteResponse (srv_Write srv ctx r s))
                  | _ \<Rightarrow> None)
                 s))"

definition Sink_Delete_Handler :: "('d, 's) methodHandler" where
  "Sink_Delete_Handler srv ctx dec interceptor s =
     (case dec_DeleteRequest dec DeleteRequest_fresh of
        None \<Rightarrow> None
      | Some (Inl err) \<Rightarrow> Some (Inl err, s)
      | Some (Inr req) \<Rightarrow>
          (case interceptor of
             None \<Rightarrow> Some (reply AnyDeleteResponse (srv_Delete srv ctx (Some req) s))
           | Some intercept \<Rightarrow>
               intercept ctx (AnyDeleteRequest (Some req))
                 \<lparr>usi_Server = srv, usi_FullMethod = Sink_Delete_FullMethodName\<rparr>
                 (\<lambda>ctx any s. case any of
                    AnyDeleteRequest r \<Rightarrow> Some (reply AnyDeleteResponse (srv_Delete srv ctx r s))
                  | _ \<Rightarrow> None)
                 s))"

definition Sink_Execute_Handler :: "('d, 's) methodHandler" where
  "Sink_Execute_Handler srv ctx dec interceptor s =
     (case dec_ExecuteRequest dec ExecuteRequest_fresh of
        None \<Rightarrow> None
      | Some (Inl err) \<Rightarrow> Some (Inl err, s)
      | Some (Inr req) \<Rightarrow>
          (case interceptor of
             None \<Rightarrow> Some (reply AnyExecuteResponse (srv_Execute srv ctx (Some req) s))
           | Some intercept \<Rightarrow>
               intercept ctx (AnyExecuteRequest (Some req))
                 \<lparr>usi_Server = srv, usi_FullMethod = Sink_Execute_FullMethodName\<rparr>
                 (\<lambda>ctx any s. case any of
                    AnyExecuteRequest r \<Rightarrow> Some (reply AnyExecuteResponse (srv_Execute srv ctx r s))
                  | _ \<Rightarrow> None)
                 s))"

definition Sink_Query_Handler :: "('d, 's) methodHandler" where
  "Sink_Query_Handler srv ctx dec interceptor s =
     (case dec_QueryRequest dec QueryRequest_fresh of
        None \<Rightarrow> None
      | Some (Inl err) \<Rightarrow> Some (Inl err, s)
      | Some (Inr req) \<Rightarrow>
          (case interceptor of
             None \<Rightarrow> Some (reply AnyQueryResponse (srv_Query srv ctx (Some req) s))
           | Some intercept \<Rightarrow>
               intercept ctx (AnyQueryRequest (Some req))
                 \<lparr>usi_Server = srv, usi_FullMethod = Sink_Query_FullMethodName\<rparr>
                 (\<lambda>ctx any s. case any of
                    AnyQueryRequest r \<Rightarrow> Some (reply AnyQueryResponse (srv_Query srv ctx r s))
                  | _ \<Rightarrow> None)
                 s))"

definition Sink_Count_Handler :: "('d, 's) methodHandler" where
  "Sink_Count_Handler srv ctx dec interceptor s =
     (case dec_CountRequest dec CountRequest_fresh of
        None \<Rightarrow> None
      | Some (Inl err) \<Rightarrow> Some (Inl err, s)
      | Some (Inr req) \<Rightarrow>
          (case interceptor of
             None \<Rightarrow> Some (reply AnyCountResponse (srv_Count srv ctx (Some req) s))
           | Some intercept \<Rightarrow>
               intercept ctx (AnyCountRequest (Some req))
                 \<lparr>usi_Server = srv, usi_FullMethod = Sink_Count_FullMethodName\<rparr>
                 (\<lambda>ctx any s. case any of
                    AnyCountRequest r \<Rightarrow> Some (reply AnyCountResponse (srv_Count srv ctx r s))
                  | _ \<Rightarrow> None)
                 s))"

definition Sink_Scan_Handler :: "('d, 's) methodHandler" where
  "Sink_Scan_Handler srv ctx dec interceptor s =
     (case dec_ScanRequest dec ScanRequest_fresh of
        None \<Rightarrow> None
      | Some (Inl err) \<Rightarrow> Some (Inl err, s)
      | Some (Inr req) \<Rightarrow>
          (case interceptor of
             None \<Rightarrow> Some (reply AnyScanResponse (srv_Scan srv ctx (Some req) s))
           | Some intercept \<Rightarrow>
               intercept ctx (AnyScanRequest (Some req))
                 \<lparr>usi_Server = srv, usi_FullMethod = Sink_Scan_FullMethodName\<rparr>
                 (\<lambda>ctx any s. case any of
                    AnyScanRequest r \<Rightarrow> Some (reply AnyScanResponse (srv_Scan srv ctx r s))
                  | _ \<Rightarrow> None)
                 s))"

section \<open>The service description\<close>

record ('d, 's) ServiceDesc =
  sd_ServiceName :: bytes
  sd_Methods :: "(bytes \<times> ('d, 's) methodHandler) list"
  sd_Metadata :: bytes

definition Sink_ServiceDesc :: "('d, 's) ServiceDesc" where
  "Sink_ServiceDesc =
     \<lparr>sd_ServiceName = ''sink.v1.Sink'',
      sd_Methods = [(''Read'', Sink_Read_Handler),
        (''Write'', Sink_Write_Handler),
        (''Delete'', Sink_Delete_Handler),
        (''Execute'', Sink_Execute_Handler),
        (''Query'', Sink_Query_Handler),
        (''Count'', Sink_Count_Handler),
        (''Scan'', Sink_Scan_Handler)],
      sd_Metadata = ''sink/sink.proto''\<rparr>"

text \<open>
  How a service embeds the default implementation decides whether the check of \<^verbatim>\<open>RegisterSinkServer\<close> panics: it calls a
  method through a nil pointer when the embedding is by a pointer that was not set. \<open>RegisterService\<close> is the registrar's.
\<close>

datatype embedding = NotEmbedded | EmbeddedByValue | EmbeddedByPointer | EmbeddedByNilPointer

definition RegisterSinkServer ::
  "(('d, 's) ServiceDesc \<Rightarrow> ('d, 's) SinkServer \<Rightarrow> 'r \<Rightarrow> 'r) \<Rightarrow> embedding \<Rightarrow> ('d, 's) SinkServer \<Rightarrow> 'r \<Rightarrow> 'r option" where
  "RegisterSinkServer RegisterService how srv s =
     (if how = EmbeddedByNilPointer then None else Some (RegisterService Sink_ServiceDesc srv s))"

lemmas handler_defs = Sink_Read_Handler_def Sink_Write_Handler_def Sink_Delete_Handler_def Sink_Execute_Handler_def Sink_Query_Handler_def Sink_Count_Handler_def Sink_Scan_Handler_def

section \<open>The handlers call their method\<close>

text \<open>An interceptor that passes its arguments on and returns what it gets.\<close>

definition transparent :: "('d, 's) UnaryServerInterceptor option \<Rightarrow> bool" where
  "transparent interceptor \<longleftrightarrow>
     (case interceptor of None \<Rightarrow> True
      | Some intercept \<Rightarrow> \<forall>ctx any info handler s. intercept ctx any info handler s = handler ctx any s)"

text \<open>What a handler is to its method: decode, then call; \<open>dec_q\<close> is the decoder at the request's type.\<close>

definition calls_method ::
  "('d, 's) methodHandler \<Rightarrow> (decoder \<Rightarrow> 'q \<Rightarrow> 'q result option) \<Rightarrow> 'q
     \<Rightarrow> (('d, 's) SinkServer \<Rightarrow> 'd \<Rightarrow> 'q option \<Rightarrow> 's \<Rightarrow> 'p option result \<times> 's) \<Rightarrow> ('p option \<Rightarrow> any_message) \<Rightarrow> bool" where
  "calls_method handler dec_q fresh op_srv any \<longleftrightarrow>
     (\<forall>srv ctx dec interceptor s. transparent interceptor \<longrightarrow> handler srv ctx dec interceptor s =
        (case dec_q dec fresh of
           None \<Rightarrow> None
         | Some (Inl err) \<Rightarrow> Some (Inl err, s)
         | Some (Inr req) \<Rightarrow> Some (reply any (op_srv srv ctx (Some req) s))))"

lemma calls_methodI:
  assumes "\<And>srv ctx dec interceptor s. transparent interceptor \<Longrightarrow> handler srv ctx dec interceptor s =
    (case dec_q dec fresh of
       None \<Rightarrow> None
     | Some (Inl err) \<Rightarrow> Some (Inl err, s)
     | Some (Inr req) \<Rightarrow> Some (reply any (op_srv srv ctx (Some req) s)))"
  shows "calls_method handler dec_q fresh op_srv any"
  using assms by (simp add: calls_method_def)

lemma handlers_call:
  "calls_method Sink_Read_Handler dec_ReadRequest ReadRequest_fresh srv_Read AnyReadResponse"
  "calls_method Sink_Write_Handler dec_WriteRequest WriteRequest_fresh srv_Write AnyWriteResponse"
  "calls_method Sink_Delete_Handler dec_DeleteRequest DeleteRequest_fresh srv_Delete AnyDeleteResponse"
  "calls_method Sink_Execute_Handler dec_ExecuteRequest ExecuteRequest_fresh srv_Execute AnyExecuteResponse"
  "calls_method Sink_Query_Handler dec_QueryRequest QueryRequest_fresh srv_Query AnyQueryResponse"
  "calls_method Sink_Count_Handler dec_CountRequest CountRequest_fresh srv_Count AnyCountResponse"
  "calls_method Sink_Scan_Handler dec_ScanRequest ScanRequest_fresh srv_Scan AnyScanResponse"
  by (rule calls_methodI;
      auto simp: handler_defs transparent_def split: option.split sum.split)+

end
