(* ===== verification/Client_Wire.thy ===== *)
theory Client_Wire
  imports Vt_Codec Client_Read Client_Write Native
begin

text \<open>
  The client over the codec: every request that one of its calls makes is a well-formed message, so that the server
  decodes exactly the message that the client built.
\<close>

section \<open>The requests of a trace\<close>

text \<open>For the requests in a trace: that the message is well-formed, its encoding, and that it crosses the wire.\<close>

definition event_wf :: "protohelpers \<Rightarrow> event \<Rightarrow> bool" where
  "event_wf h ev =
     (case ev of
        EvRead m \<Rightarrow> ReadRequest_wf h m
      | EvWrite m \<Rightarrow> WriteRequest_wf h m
      | EvDelete m \<Rightarrow> DeleteRequest_wf h m
      | EvExecute m \<Rightarrow> ExecuteRequest_wf h m
      | EvQuery m \<Rightarrow> QueryRequest_wf h m
      | EvCount m \<Rightarrow> CountRequest_wf h m
      | EvScan m \<Rightarrow> ScanRequest_wf h m
      | _ \<Rightarrow> True)"

definition event_bytes :: "protohelpers \<Rightarrow> event \<Rightarrow> bytes" where
  "event_bytes h ev =
     (case ev of
        EvRead m \<Rightarrow> ReadRequest_MarshalToSizedBufferVT h (Some m)
      | EvWrite m \<Rightarrow> WriteRequest_bytes h (Some m)
      | EvDelete m \<Rightarrow> DeleteRequest_MarshalToSizedBufferVT h (Some m)
      | EvExecute m \<Rightarrow> ExecuteRequest_MarshalToSizedBufferVT h (Some m)
      | EvQuery m \<Rightarrow> QueryRequest_MarshalToSizedBufferVT h (Some m)
      | EvCount m \<Rightarrow> CountRequest_MarshalToSizedBufferVT h (Some m)
      | EvScan m \<Rightarrow> ScanRequest_MarshalToSizedBufferVT h (Some m)
      | _ \<Rightarrow> [])"

definition event_crosses :: "protohelpers \<Rightarrow> event \<Rightarrow> bool" where
  "event_crosses h ev =
     (case ev of
        EvRead m \<Rightarrow> ReadRequest_crosses h m
      | EvWrite m \<Rightarrow> WriteRequest_crosses h m
      | EvDelete m \<Rightarrow> DeleteRequest_crosses h m
      | EvExecute m \<Rightarrow> ExecuteRequest_crosses h m
      | EvQuery m \<Rightarrow> QueryRequest_crosses h m
      | EvCount m \<Rightarrow> CountRequest_crosses h m
      | EvScan m \<Rightarrow> ScanRequest_crosses h m
      | _ \<Rightarrow> True)"

text \<open>A call that adds requests to the trace that cross the wire, as long as their encodings have the length of a Go slice.\<close>

definition sends_wf :: "protohelpers \<Rightarrow> 's world \<Rightarrow> 's world \<Rightarrow> bool" where
  "sends_wf h w w' \<longleftrightarrow> (\<exists>evs. w_trace w' = w_trace w @ evs \<and> list_all (event_wf h) evs)"

definition sends_crossing :: "protohelpers \<Rightarrow> 's world \<Rightarrow> 's world \<Rightarrow> bool" where
  "sends_crossing h w w' \<longleftrightarrow> (\<exists>evs. w_trace w' = w_trace w @ evs
     \<and> list_all (\<lambda>ev. length (event_bytes h ev) < 2 ^ 63 \<longrightarrow> event_crosses h ev) evs)"

lemma event_wf_crosses:
  assumes "helpers_ok h" and "event_wf h ev" and "length (event_bytes h ev) < 2 ^ 63"
  shows "event_crosses h ev"
  using assms
  by (cases ev) (simp_all add: event_wf_def event_bytes_def event_crosses_def codec_ReadRequest.crosses_wire
      codec_WriteRequest.crosses_wire
      codec_DeleteRequest.crosses_wire
      codec_ExecuteRequest.crosses_wire
      codec_QueryRequest.crosses_wire
      codec_CountRequest.crosses_wire
      codec_ScanRequest.crosses_wire)

lemma sends_wf_crossing: "helpers_ok h \<Longrightarrow> sends_wf h w w' \<Longrightarrow> sends_crossing h w w'"
  by (force simp: sends_wf_def sends_crossing_def list_all_conv_set intro: event_wf_crosses)

section \<open>The client's messages are well-formed\<close>

lemma toProto_wf [simp]:
  "RecordAddress_wf h (Address_toProto a)" "Document_wf h (Document_toProto d)"
  "ReadOperation_wf h (read_operation a)" "DeleteOperation_wf h (delete_operation a)"
  by (simp_all add: RecordAddress_wf_def Document_wf_def ReadOperation_wf_def DeleteOperation_wf_def
      Address_toProto_def Document_toProto_def read_operation_def delete_operation_def)

lemma WriteOperation_toProto_wf [simp]: "WriteOperation_wf h (WriteOperation_toProto op)"
  by (simp add: WriteOperation_wf_def WriteOperation_toProto_def PutOperation_wf_def MergeOperation_wf_def
      LuaProgram_wf_def split: writeAction.split)

lemma lua_programs_wf: "each_ok (LuaProgram_wf h) (lua_programs seen ops)"
  by (induction seen ops rule: lua_programs.induct) (simp_all add: each_ok_def LuaProgram_wf_def Let_def)

lemma each_ok_map [simp]: "each_ok P (map (\<lambda>x. Some (f x)) xs) \<longleftrightarrow> list_all (\<lambda>x. P (f x)) xs"
  by (simp add: each_ok_def list_all_conv_set)

lemma each_ok_map_Some [simp]: "each_ok P (map Some xs) \<longleftrightarrow> list_all P xs"
  using each_ok_map [of P id xs] by simp

lemma request_wf:
  "list_all (ReadOperation_wf h) rops \<Longrightarrow> ReadRequest_wf h (read_request rops)"
  "list_all (DeleteOperation_wf h) dops \<Longrightarrow> DeleteRequest_wf h (delete_request mode dops)"
  "WriteRequest_wf h (write_request mode wops)"
  by (simp_all add: ReadRequest_wf_def read_request_def DeleteRequest_wf_def delete_request_def WriteRequest_wf_def
      write_request_def lua_programs_wf list_all_conv_set)

lemma Command_toProto_wf: "Command_toProto lib c = Inr p \<Longrightarrow> Command_wf h p"
  by (auto simp: Command_toProto_def Command_wf_def Header_wf_def list_all_conv_set
      split: sum.splits if_splits option.splits)

lemma sort_fields_wf: "sort_fields seen fs = Inr items \<Longrightarrow> each_ok (SortField_wf h) items"
  by (induction seen fs arbitrary: items rule: sort_fields.induct)
    (auto simp: each_ok_def SortField_wf_def split: if_splits sum.splits)

lemma Projection_toProto_wf: "Projection_toProto p = Inr q \<Longrightarrow> opt_ok (Projection_wf h) q"
  by (auto simp: Projection_toProto_def Projection_wf_def split: option.splits if_splits)

lemma query_request_wf: "query_request lib req = Inr q \<Longrightarrow> QueryRequest_wf h q"
  by (auto simp: query_request_def QueryRequest_wf_def Command_toProto_wf sort_fields_wf Projection_toProto_wf
      split: sum.splits if_splits)

lemma scan_request_wf: "scan_request lib req = Inr q \<Longrightarrow> ScanRequest_wf h q"
  by (auto simp: scan_request_def ScanRequest_wf_def Command_toProto_wf Projection_toProto_wf
      split: sum.splits if_splits)

section \<open>Every call sends well-formed messages\<close>

lemma read_trace_wf: "read_trace n ops evs \<Longrightarrow> list_all (ReadOperation_wf h) ops \<Longrightarrow> list_all (event_wf h) evs"
proof (induction rule: read_trace.induct)
  case (again n ops' evs ops d)
  then have "list_all (ReadOperation_wf h) ops'" by (auto simp: list_all_conv_set dest: list_emb_set)
  then show ?case using again by (simp add: event_wf_def request_wf)
qed (simp_all add: event_wf_def request_wf)

lemma list_all2_in_set2: "list_all2 P xs ys \<Longrightarrow> y \<in> set ys \<Longrightarrow> \<exists>x\<in>set xs. P x y"
  by (induction rule: list_all2_induct) auto

lemma list_all_chunk: "c \<in> set (chunks m xs) \<Longrightarrow> list_all P xs \<Longrightarrow> list_all P c"
proof (induction m xs rule: chunks.induct)
  case (1 m xs)
  then show ?case
    by (cases "m = 0 \<or> xs = []")
      (auto simp: chunks.simps [of m xs] list_all_conv_set dest: in_set_takeD in_set_dropD)
qed

lemma Read_sends_wf:
  assumes "client_ok c" and "Read lib env (Some c) ctx addresses w = Some (r, w')"
  shows "sends_wf h w w'"
proof -
  obtain k evss where t: "w_trace w' = w_trace w @ concat evss"
    and all: "list_all2 (read_trace (nat (rp_MaxAttempts (cc_readRetry (cl_config c)))))
       (take k (chunks (nat (cc_maxOperations (cl_config c))) (map read_operation addresses))) evss"
    using Read_sent [OF assms(1), of lib env ctx addresses w "fst r" "snd r" w'] assms(2) by auto
  have "list_all (event_wf h) evs" if evs: "evs \<in> set evss" for evs
  proof -
    obtain ops where ops: "ops \<in> set (chunks (nat (cc_maxOperations (cl_config c))) (map read_operation addresses))"
      and "read_trace (nat (rp_MaxAttempts (cc_readRetry (cl_config c)))) ops evs"
      using list_all2_in_set2 [OF all evs] by (blast dest: in_set_takeD)
    then show ?thesis using list_all_chunk [OF ops, of "ReadOperation_wf h"]
      by (intro read_trace_wf) (auto simp: list_all_conv_set)
  qed
  then show ?thesis using t by (auto simp: sends_wf_def list_all_conv_set)
qed

lemma Write_sends_wf:
  assumes "client_ok c" and "Write lib env (Some c) ctx mode ops w = Some (r, w')"
  shows "sends_wf h w w'"
  using Write_sent [OF assms(1), of lib env ctx mode ops w "fst r" "snd r" w'] assms(2)
  by (auto simp: sends_wf_def list_all_conv_set event_wf_def request_wf)

lemma Delete_sends_wf:
  assumes "client_ok c" and "Delete lib env (Some c) ctx mode addresses w = Some (r, w')"
  shows "sends_wf h w w'"
proof -
  have "list_all (DeleteOperation_wf h) b"
    if "b \<in> set (chunks m (map delete_operation addresses))" for b m
    using list_all_chunk [OF that, of "DeleteOperation_wf h"] by (simp add: list_all_conv_set)
  then show ?thesis
    using Delete_sent [OF assms(1), of lib env ctx mode addresses w "fst r" "snd r" w'] assms(2)
    by (fastforce simp: sends_wf_def list_all_iff event_wf_def dest: in_set_takeD intro!: request_wf)
qed

lemma native_sends_wf:
  "sends_wf h w (snd (Execute lib env c ctx cmd w))" "sends_wf h w (snd (Query lib env c ctx qreq w))"
  "sends_wf h w (snd (Count lib env c ctx cmd w))"
  unfolding sends_wf_def Execute_sent Query_sent Count_sent
  by (auto simp: event_wf_def ExecuteRequest_wf_def CountRequest_wf_def Command_toProto_wf query_request_wf
      split: option.split sum.split)

lemma scan_trace_wf: "scan_trace n req evs \<Longrightarrow> ScanRequest_wf h req \<Longrightarrow> list_all (event_wf h) evs"
  by (induction rule: scan_trace.induct) (simp_all add: event_wf_def)

lemma Scan_sends_wf:
  assumes "client_ok c"
  shows "sends_wf h w (snd (Scan lib env (Some c) ctx req w))"
proof -
  obtain page err w' where run: "Scan lib env (Some c) ctx req w = ((page, err), w')" by (metis prod.exhaust)
  then show ?thesis
  proof (cases rule: Scan_unfold)
    case rejected
    then show ?thesis using run by (auto simp: sends_wf_def)
  next
    case (sent rpc request r)
    from scanAttempts_trace [OF sent(3)] client_ok_attempts(2) [OF assms]
    obtain n evs where "w_trace w' = w_trace w @ evs" "scan_trace n request evs" by auto
    then show ?thesis using run scan_trace_wf scan_request_wf [OF sent(2)] by (auto simp: sends_wf_def)
  qed
qed

end
