(* ===== verification/Service_Wire.thy ===== *)
theory Service_Wire
  imports Grpc_Server Client_Wire
begin

text \<open>
  The client, the codec, the generated messages and the server side composed. gRPC itself is between them: \<open>link\<close> is what
  it does with the bytes of a call, and \<open>carries\<close> the documented way in which a call of the client uses the codec and reaches
  the registered service. The specification is \<open>direct_env\<close>, where a call hands its message to the method of the
  service and gets the method's message back. The client is the same over both.
\<close>

section \<open>A link between the client and the service\<close>

text \<open>
  \<open>lk_send\<close> moves the encoded request to the server and \<open>lk_answer\<close> the encoded response back, cut into buffers, or fails with
  the error that the call returns: a limit on the size, a deadline, a lost connection. \<open>lk_status\<close> is the error that the client gets
  for an error of the service, \<open>lk_context\<close> the context of the service's call, and \<open>lk_codec_error\<close> gRPC's report of an error of the codec.
\<close>

record ('k, 'c, 'd, 's) link =
  lk_pooling :: "nat \<Rightarrow> bool"
  lk_send :: "'k \<Rightarrow> 'c \<Rightarrow> bytes \<Rightarrow> CallOption list \<Rightarrow> bytes \<Rightarrow> 's \<Rightarrow> bytes list result \<times> 's"
  lk_context :: "'k \<Rightarrow> 'c \<Rightarrow> 's \<Rightarrow> 'd"
  lk_interceptor :: "('d, 's) UnaryServerInterceptor option"
  lk_answer :: "'k \<Rightarrow> 'c \<Rightarrow> bytes \<Rightarrow> CallOption list \<Rightarrow> bytes \<Rightarrow> 's \<Rightarrow> bytes list result \<times> 's"
  lk_status :: "'k \<Rightarrow> 'c \<Rightarrow> CallOption list \<Rightarrow> go_error \<Rightarrow> 's \<Rightarrow> go_error \<times> 's"
  lk_codec_error :: "go_error \<Rightarrow> go_error"
  lk_unknown_method :: "bytes \<Rightarrow> go_error"

text \<open>What arrives are the bytes that were sent, and they have the length of a Go slice.\<close>

definition link_ok :: "('k, 'c, 'd, 's) link \<Rightarrow> bool" where
  "link_ok lk \<longleftrightarrow>
     (\<forall>k c name opts b s data s'. lk_send lk k c name opts b s = (Inr data, s') \<longrightarrow> concat data = b \<and> length b < 2 ^ 63)
     \<and> (\<forall>k c name opts b s data s'. lk_answer lk k c name opts b s = (Inr data, s') \<longrightarrow> concat data = b \<and> length b < 2 ^ 63)"

section \<open>What gRPC does with a call\<close>

text \<open>The methods of a service have the names \<^verbatim>\<open>/service/method\<close>.\<close>

definition find_method :: "('d, 's) ServiceDesc \<Rightarrow> bytes \<Rightarrow> ('d, 's) methodHandler option" where
  "find_method desc name = map_of (map (\<lambda>(m, handler). (''/'' @ sd_ServiceName desc @ ''/'' @ m, handler)) (sd_Methods desc)) name"

text \<open>The codec's calls, without their use of the pool.\<close>

definition encode ::
  "(nat \<Rightarrow> bool) \<Rightarrow> bytes \<Rightarrow> 'm vtProtoCodecMessage \<Rightarrow> bytes result option" where
  "encode pooling typeName msg =
     (case fst (Marshal pooling typeName (Some msg) []) of
        None \<Rightarrow> None | Some (Inl err) \<Rightarrow> Some (Inl err) | Some (Inr bs) \<Rightarrow> Some (Inr (buffers_data bs)))"

definition decode ::
  "(go_error \<Rightarrow> go_error) \<Rightarrow> bytes \<Rightarrow> bytes list \<Rightarrow> 'm vtProtoCodecMessage \<Rightarrow> 'm result option" where
  "decode codec_error typeName data msg =
     (case fst (Unmarshal typeName data (Some msg) []) of
        None \<Rightarrow> None | Some (Inl err) \<Rightarrow> Some (Inl (codec_error err)) | Some (Inr m) \<Rightarrow> Some (Inr m))"

text \<open>A pointer as the codec's interface: the methods of a nil pointer write nothing.\<close>

definition codec_pointer ::
  "('m option \<Rightarrow> bytes option) \<Rightarrow> ('m option \<Rightarrow> nat) \<Rightarrow> 'm option \<Rightarrow> 'm vtProtoCodecMessage" where
  "codec_pointer marshal sz p = \<lparr>SizeVT = sz p, MarshalToSizedBufferVT = fill_buffer (marshal p), UnmarshalVT = (\<lambda>b. None)\<rparr>"

definition encode_any :: "(nat \<Rightarrow> bool) \<Rightarrow> protohelpers \<Rightarrow> any_message \<Rightarrow> bytes result option" where
  "encode_any pooling h any =
     (case any of
        AnyReadRequest p \<Rightarrow> encode pooling ''*sinkv1.ReadRequest'' (codec_pointer (returning (ReadRequest_MarshalToSizedBufferVT h)) (ReadRequest_SizeVT h) p)
      | AnyReadResponse p \<Rightarrow> encode pooling ''*sinkv1.ReadResponse'' (codec_pointer (returning (ReadResponse_MarshalToSizedBufferVT h)) (ReadResponse_SizeVT h) p)
      | AnyWriteRequest p \<Rightarrow> encode pooling ''*sinkv1.WriteRequest'' (codec_pointer (WriteRequest_MarshalToSizedBufferVT h) (WriteRequest_SizeVT h) p)
      | AnyWriteResponse p \<Rightarrow> encode pooling ''*sinkv1.WriteResponse'' (codec_pointer (returning (WriteResponse_MarshalToSizedBufferVT h)) (WriteResponse_SizeVT h) p)
      | AnyDeleteRequest p \<Rightarrow> encode pooling ''*sinkv1.DeleteRequest'' (codec_pointer (returning (DeleteRequest_MarshalToSizedBufferVT h)) (DeleteRequest_SizeVT h) p)
      | AnyDeleteResponse p \<Rightarrow> encode pooling ''*sinkv1.DeleteResponse'' (codec_pointer (returning (DeleteResponse_MarshalToSizedBufferVT h)) (DeleteResponse_SizeVT h) p)
      | AnyExecuteRequest p \<Rightarrow> encode pooling ''*sinkv1.ExecuteRequest'' (codec_pointer (returning (ExecuteRequest_MarshalToSizedBufferVT h)) (ExecuteRequest_SizeVT h) p)
      | AnyExecuteResponse p \<Rightarrow> encode pooling ''*sinkv1.ExecuteResponse'' (codec_pointer (returning (ExecuteResponse_MarshalToSizedBufferVT h)) (ExecuteResponse_SizeVT h) p)
      | AnyQueryRequest p \<Rightarrow> encode pooling ''*sinkv1.QueryRequest'' (codec_pointer (returning (QueryRequest_MarshalToSizedBufferVT h)) (QueryRequest_SizeVT h) p)
      | AnyQueryResponse p \<Rightarrow> encode pooling ''*sinkv1.QueryResponse'' (codec_pointer (returning (QueryResponse_MarshalToSizedBufferVT h)) (QueryResponse_SizeVT h) p)
      | AnyCountRequest p \<Rightarrow> encode pooling ''*sinkv1.CountRequest'' (codec_pointer (returning (CountRequest_MarshalToSizedBufferVT h)) (CountRequest_SizeVT h) p)
      | AnyCountResponse p \<Rightarrow> encode pooling ''*sinkv1.CountResponse'' (codec_pointer (returning (CountResponse_MarshalToSizedBufferVT h)) (CountResponse_SizeVT h) p)
      | AnyScanRequest p \<Rightarrow> encode pooling ''*sinkv1.ScanRequest'' (codec_pointer (returning (ScanRequest_MarshalToSizedBufferVT h)) (ScanRequest_SizeVT h) p)
      | AnyScanResponse p \<Rightarrow> encode pooling ''*sinkv1.ScanResponse'' (codec_pointer (returning (ScanResponse_MarshalToSizedBufferVT h)) (ScanResponse_SizeVT h) p))"

definition wire_decoder :: "(go_error \<Rightarrow> go_error) \<Rightarrow> protohelpers \<Rightarrow> bytes list \<Rightarrow> decoder" where
  "wire_decoder codec_error h data =
     \<lparr>dec_ReadRequest = (\<lambda>m. decode codec_error ''*sinkv1.ReadRequest'' data (ReadRequest_message h m)),
      dec_WriteRequest = (\<lambda>m. decode codec_error ''*sinkv1.WriteRequest'' data (WriteRequest_message h m)),
      dec_DeleteRequest = (\<lambda>m. decode codec_error ''*sinkv1.DeleteRequest'' data (DeleteRequest_message h m)),
      dec_ExecuteRequest = (\<lambda>m. decode codec_error ''*sinkv1.ExecuteRequest'' data (ExecuteRequest_message h m)),
      dec_QueryRequest = (\<lambda>m. decode codec_error ''*sinkv1.QueryRequest'' data (QueryRequest_message h m)),
      dec_CountRequest = (\<lambda>m. decode codec_error ''*sinkv1.CountRequest'' data (CountRequest_message h m)),
      dec_ScanRequest = (\<lambda>m. decode codec_error ''*sinkv1.ScanRequest'' data (ScanRequest_message h m))\<rparr>"

text \<open>The server's part: the handler of the method is called with a decoder for the bytes, and its result encoded.\<close>

definition serve_call ::
  "('k, 'c, 'd, 's) link \<Rightarrow> protohelpers \<Rightarrow> ('d, 's) SinkServer \<Rightarrow> 'd \<Rightarrow> bytes \<Rightarrow> bytes list \<Rightarrow> 's
     \<Rightarrow> (bytes result \<times> 's) option" where
  "serve_call lk h srv ctx name data s =
     (case find_method Sink_ServiceDesc name of
        None \<Rightarrow> Some (Inl (lk_unknown_method lk name), s)
      | Some handler \<Rightarrow>
          (case handler srv ctx (wire_decoder (lk_codec_error lk) h data) (lk_interceptor lk) s of
             None \<Rightarrow> None
           | Some (Inl err, s') \<Rightarrow> Some (Inl err, s')
           | Some (Inr any, s') \<Rightarrow>
               (case encode_any (lk_pooling lk) h any of
                  None \<Rightarrow> None
                | Some (Inl err) \<Rightarrow> Some (Inl (lk_codec_error lk err), s')
                | Some (Inr b) \<Rightarrow> Some (Inr b, s'))))"

definition status_error :: "go_error \<times> 's \<Rightarrow> 'a result \<times> 's" where
  "status_error x = (case x of (err, s) \<Rightarrow> (Inl err, s))"

text \<open>The client's part: the request is encoded and sent, the answer decoded into the message \<open>out\<close>.\<close>

definition unary_call ::
  "('k, 'c, 'd, 's) link \<Rightarrow> ('d \<Rightarrow> bytes \<Rightarrow> bytes list \<Rightarrow> 's \<Rightarrow> (bytes result \<times> 's) option) \<Rightarrow> bytes \<Rightarrow> bytes
     \<Rightarrow> 'p vtProtoCodecMessage \<Rightarrow> 'k \<Rightarrow> 'c \<Rightarrow> bytes \<Rightarrow> 'q vtProtoCodecMessage \<Rightarrow> CallOption list \<Rightarrow> 's
     \<Rightarrow> ('p result \<times> 's) option" where
  "unary_call lk server inType outType out k c name req opts s =
     (case encode (lk_pooling lk) inType req of
        None \<Rightarrow> None
      | Some (Inl err) \<Rightarrow> Some (Inl (lk_codec_error lk err), s)
      | Some (Inr b) \<Rightarrow>
          (case lk_send lk k c name opts b s of
             (Inl err, s1) \<Rightarrow> Some (Inl err, s1)
           | (Inr data, s1) \<Rightarrow>
               (case server (lk_context lk k c s1) name data s1 of
                  None \<Rightarrow> None
                | Some (Inl err, s2) \<Rightarrow> Some (status_error (lk_status lk k c opts err s2))
                | Some (Inr b', s2) \<Rightarrow>
                    (case lk_answer lk k c name opts b' s2 of
                       (Inl err, s3) \<Rightarrow> Some (Inl err, s3)
                     | (Inr data', s3) \<Rightarrow>
                         (case decode (lk_codec_error lk) outType data' out of
                            None \<Rightarrow> None
                          | Some r \<Rightarrow> Some (r, s3))))))"

text \<open>
  gRPC carries the calls of \<open>env\<close> over the link to the service \<open>srv\<close>. Of a call in which something panics nothing is said.
\<close>

definition carries ::
  "('k, 'c, 'd, 's) link \<Rightarrow> protohelpers \<Rightarrow> ('d, 's) SinkServer \<Rightarrow> ('k, 'c, 's) env \<Rightarrow> bool" where
  "carries lk h srv env \<longleftrightarrow>
     (\<forall>k c name req opts s r. unary_call lk (serve_call lk h srv) ''*sinkv1.ReadRequest'' ''*sinkv1.ReadResponse''
          (ReadResponse_message h ReadResponse_fresh) k c name (ReadRequest_message h req) opts s = Some r
        \<longrightarrow> Invoke_Read env k c name req opts s = r)
     \<and> (\<forall>k c name req opts s r. unary_call lk (serve_call lk h srv) ''*sinkv1.WriteRequest'' ''*sinkv1.WriteResponse''
          (WriteResponse_message h WriteResponse_fresh) k c name (WriteRequest_message h req) opts s = Some r
        \<longrightarrow> Invoke_Write env k c name req opts s = r)
     \<and> (\<forall>k c name req opts s r. unary_call lk (serve_call lk h srv) ''*sinkv1.DeleteRequest'' ''*sinkv1.DeleteResponse''
          (DeleteResponse_message h DeleteResponse_fresh) k c name (DeleteRequest_message h req) opts s = Some r
        \<longrightarrow> Invoke_Delete env k c name req opts s = r)
     \<and> (\<forall>k c name req opts s r. unary_call lk (serve_call lk h srv) ''*sinkv1.ExecuteRequest'' ''*sinkv1.ExecuteResponse''
          (ExecuteResponse_message h ExecuteResponse_fresh) k c name (ExecuteRequest_message h req) opts s = Some r
        \<longrightarrow> Invoke_Execute env k c name req opts s = r)
     \<and> (\<forall>k c name req opts s r. unary_call lk (serve_call lk h srv) ''*sinkv1.QueryRequest'' ''*sinkv1.QueryResponse''
          (QueryResponse_message h QueryResponse_fresh) k c name (QueryRequest_message h req) opts s = Some r
        \<longrightarrow> Invoke_Query env k c name req opts s = r)
     \<and> (\<forall>k c name req opts s r. unary_call lk (serve_call lk h srv) ''*sinkv1.CountRequest'' ''*sinkv1.CountResponse''
          (CountResponse_message h CountResponse_fresh) k c name (CountRequest_message h req) opts s = Some r
        \<longrightarrow> Invoke_Count env k c name req opts s = r)
     \<and> (\<forall>k c name req opts s r. unary_call lk (serve_call lk h srv) ''*sinkv1.ScanRequest'' ''*sinkv1.ScanResponse''
          (ScanResponse_message h ScanResponse_fresh) k c name (ScanRequest_message h req) opts s = Some r
        \<longrightarrow> Invoke_Scan env k c name req opts s = r)"

section \<open>The specification: calls without a wire\<close>

text \<open>
  The method is called with the message itself. The link still decides which calls fail. A nil response arrives as an empty message.
\<close>

definition direct_call ::
  "('k, 'c, 'd, 's) link \<Rightarrow> ('q option \<Rightarrow> bytes) \<Rightarrow> ('p option \<Rightarrow> bytes) \<Rightarrow> 'p
     \<Rightarrow> ('d \<Rightarrow> 'q option \<Rightarrow> 's \<Rightarrow> 'p option result \<times> 's) \<Rightarrow> 'k \<Rightarrow> 'c \<Rightarrow> bytes \<Rightarrow> 'q \<Rightarrow> CallOption list \<Rightarrow> 's
     \<Rightarrow> 'p result \<times> 's" where
  "direct_call lk qbytes pbytes blank op_srv k c name req opts s =
     (case lk_send lk k c name opts (qbytes (Some req)) s of
        (Inl err, s1) \<Rightarrow> (Inl err, s1)
      | (Inr data, s1) \<Rightarrow>
          (case op_srv (lk_context lk k c s1) (Some req) s1 of
             (Inl err, s2) \<Rightarrow> status_error (lk_status lk k c opts err s2)
           | (Inr p, s2) \<Rightarrow>
               (case lk_answer lk k c name opts (pbytes p) s2 of
                  (Inl err, s3) \<Rightarrow> (Inl err, s3)
                | (Inr data, s3) \<Rightarrow> (Inr (case p of None \<Rightarrow> blank | Some m \<Rightarrow> m), s3))))"

definition direct_env ::
  "('k, 'c, 'd, 's) link \<Rightarrow> protohelpers \<Rightarrow> ('d, 's) SinkServer \<Rightarrow> ('k, 'c, 's) env \<Rightarrow> ('k, 'c, 's) env" where
  "direct_env lk h srv env = env
     \<lparr>Invoke_Read := direct_call lk (ReadRequest_MarshalToSizedBufferVT h) (ReadResponse_MarshalToSizedBufferVT h)
        ReadResponse_fresh (srv_Read srv),
      Invoke_Write := direct_call lk (WriteRequest_bytes h) (WriteResponse_MarshalToSizedBufferVT h)
        WriteResponse_fresh (srv_Write srv),
      Invoke_Delete := direct_call lk (DeleteRequest_MarshalToSizedBufferVT h) (DeleteResponse_MarshalToSizedBufferVT h)
        DeleteResponse_fresh (srv_Delete srv),
      Invoke_Execute := direct_call lk (ExecuteRequest_MarshalToSizedBufferVT h) (ExecuteResponse_MarshalToSizedBufferVT h)
        ExecuteResponse_fresh (srv_Execute srv),
      Invoke_Query := direct_call lk (QueryRequest_MarshalToSizedBufferVT h) (QueryResponse_MarshalToSizedBufferVT h)
        QueryResponse_fresh (srv_Query srv),
      Invoke_Count := direct_call lk (CountRequest_MarshalToSizedBufferVT h) (CountResponse_MarshalToSizedBufferVT h)
        CountResponse_fresh (srv_Count srv),
      Invoke_Scan := direct_call lk (ScanRequest_MarshalToSizedBufferVT h) (ScanResponse_MarshalToSizedBufferVT h)
        ScanResponse_fresh (srv_Scan srv)\<rparr>"

text \<open>A service whose responses are well-formed messages.\<close>

definition answers_wf :: "('p \<Rightarrow> bool) \<Rightarrow> ('d \<Rightarrow> 'q option \<Rightarrow> 's \<Rightarrow> 'p option result \<times> 's) \<Rightarrow> bool" where
  "answers_wf P op_srv \<longleftrightarrow> (\<forall>ctx req s m s'. op_srv ctx req s = (Inr (Some m), s') \<longrightarrow> P m)"

definition service_wf :: "protohelpers \<Rightarrow> ('d, 's) SinkServer \<Rightarrow> bool" where
  "service_wf h srv \<longleftrightarrow>
     answers_wf (ReadResponse_wf h) (srv_Read srv) \<and> answers_wf (WriteResponse_wf h) (srv_Write srv)
     \<and> answers_wf (DeleteResponse_wf h) (srv_Delete srv) \<and> answers_wf (ExecuteResponse_wf h) (srv_Execute srv)
     \<and> answers_wf (QueryResponse_wf h) (srv_Query srv) \<and> answers_wf (CountResponse_wf h) (srv_Count srv)
     \<and> answers_wf (ScanResponse_wf h) (srv_Scan srv)"

lemma link_okD:
  assumes "link_ok lk"
  shows "lk_send lk k c name opts b s = (Inr data, s') \<Longrightarrow> concat data = b \<and> length b < 2 ^ 63"
    and "lk_answer lk k c name opts b s = (Inr data, s') \<Longrightarrow> concat data = b \<and> length b < 2 ^ 63"
  using assms unfolding link_ok_def by blast+

lemma answers_wfD: "answers_wf P op_srv \<Longrightarrow> op_srv ctx req s = (Inr (Some m), s') \<Longrightarrow> P m"
  unfolding answers_wf_def by blast

section \<open>One method over the wire\<close>

text \<open>
  The interface of a method: the generated methods of its request and of its response, and that its name leads to a handler
  which decodes the one, calls the method, and whose result is encoded as the other.
\<close>

locale unary_method =
  q: codec_type h qbytes qsz qdecode qfresh qsized qwf qrun + p: codec_type h pbytes psz pdecode pfresh psized pwf prun
  for h :: protohelpers
    and qbytes :: "'q option \<Rightarrow> bytes" and qsz :: "'q option \<Rightarrow> nat" and qdecode :: "bytes \<Rightarrow> 'q \<Rightarrow> 'q result option"
    and qfresh :: 'q and qsized :: "'q \<Rightarrow> bool" and qwf :: "'q \<Rightarrow> bool" and qrun :: "'q option \<Rightarrow> bytes option"
    and pbytes :: "'p option \<Rightarrow> bytes" and psz :: "'p option \<Rightarrow> nat" and pdecode :: "bytes \<Rightarrow> 'p \<Rightarrow> 'p result option"
    and pfresh :: 'p and psized :: "'p \<Rightarrow> bool" and pwf :: "'p \<Rightarrow> bool" and prun :: "'p option \<Rightarrow> bytes option" +
  fixes name :: bytes and inType :: bytes and outType :: bytes and handler :: "('d, 's) methodHandler"
    and dec_q :: "decoder \<Rightarrow> 'q \<Rightarrow> 'q result option" and any :: "'p option \<Rightarrow> any_message"
    and op_srv :: "('d, 's) SinkServer \<Rightarrow> 'd \<Rightarrow> 'q option \<Rightarrow> 's \<Rightarrow> 'p option result \<times> 's"
  assumes finds: "find_method Sink_ServiceDesc name = Some handler"
    and calls: "calls_method handler dec_q qfresh op_srv any"
    and decodes: "dec_q (wire_decoder err h data) m = decode err inType data (codec_message qrun qsz qdecode m)"
    and encodes: "encode_any pooling h (any p) = encode pooling outType (codec_pointer prun psz p)"
    and blank: "pdecode [] pfresh = Some (Inr pfresh)"
begin

lemma encode_request:
  assumes "helpers_ok h" and "qwf req"
  shows "encode pooling inType (codec_message qrun qsz qdecode req) = Some (Inr (qbytes (Some req)))"
proof -
  obtain bs pool where "Marshal pooling inType (Some (codec_message qrun qsz qdecode req)) [] = (Some (Inr bs), pool)"
      and "buffers_data bs = qbytes (Some req)"
    using q.codec_marshals [OF assms(1) q.wf_sized [OF assms(2)]] by blast
  then show ?thesis by (simp add: encode_def)
qed

lemma encode_response:
  assumes "helpers_ok h" and "\<And>m. r = Some m \<Longrightarrow> pwf m"
  shows "encode pooling outType (codec_pointer prun psz r) = Some (Inr (pbytes r))"
proof -
  have "psz r = length (pbytes r)" using assms by (intro p.size_option) (auto intro: p.wf_sized)
  then have "MarshalToSizedBufferVT (codec_pointer prun psz r) (SizeVT (codec_pointer prun psz r))
      = Some (Inr (SizeVT (codec_pointer prun psz r), pbytes r))"
    using p.runs [of r] assms(2) by (cases r) (simp_all add: codec_pointer_def fill_buffer_exact p.wf_sized)
  from Marshal_written [OF this] obtain bs pool where
    "Marshal pooling outType (Some (codec_pointer prun psz r)) [] = (Some (Inr bs), pool)" and "buffers_data bs = pbytes r"
    by blast
  then show ?thesis by (simp add: encode_def)
qed

lemma decode_request:
  assumes "helpers_ok h" and "qwf req" and "concat data = qbytes (Some req)" and "length (qbytes (Some req)) < 2 ^ 63"
  shows "decode err inType data (codec_message qrun qsz qdecode qfresh) = Some (Inr req)"
  using q.round_trip [OF assms(1,2,4)] by (simp add: decode_def Unmarshal_def codec_message_def assms(3))

lemma decode_response:
  assumes "helpers_ok h" and "\<And>m. r = Some m \<Longrightarrow> pwf m" and "concat data = pbytes r" and "length (pbytes r) < 2 ^ 63"
  shows "decode err outType data (codec_message prun psz pdecode pfresh) = Some (Inr (case r of None \<Rightarrow> pfresh | Some m \<Rightarrow> m))"
  using assms(2,4) p.round_trip [OF assms(1)] blank p.marshal_nil
  by (cases r) (simp_all add: decode_def Unmarshal_def codec_message_def assms(3))

text \<open>On the server: the handler found by the name decodes the request, calls the method and has its response encoded.\<close>

lemma served:
  assumes "helpers_ok h" and "transparent (lk_interceptor lk)" and "answers_wf pwf (op_srv srv)"
    and "qwf req" and "concat data = qbytes (Some req)" and "length (qbytes (Some req)) < 2 ^ 63"
  shows "serve_call lk h srv ctx name data s = Some (case op_srv srv ctx (Some req) s of
      (Inl err, s') \<Rightarrow> (Inl err, s') | (Inr r, s') \<Rightarrow> (Inr (pbytes r), s'))"
proof -
  have run: "handler srv ctx (wire_decoder (lk_codec_error lk) h data) (lk_interceptor lk) s
      = Some (reply any (op_srv srv ctx (Some req) s))"
    using calls assms(2) decode_request [OF assms(1,4-6)] by (simp add: calls_method_def decodes)
  obtain r s' where m: "op_srv srv ctx (Some req) s = (r, s')" by (cases "op_srv srv ctx (Some req) s")
  show ?thesis
  proof (cases r)
    case (Inl err)
    then show ?thesis by (simp add: serve_call_def finds run m reply_def)
  next
    case (Inr out)
    have "encode_any (lk_pooling lk) h (any out) = Some (Inr (pbytes out))"
      unfolding encodes using answers_wfD [OF assms(3)] m Inr by (intro encode_response assms(1)) simp
    then show ?thesis by (simp add: serve_call_def finds run m reply_def Inr)
  qed
qed

lemma unary_call_direct:
  assumes "helpers_ok h" and "link_ok lk" and "transparent (lk_interceptor lk)" and "answers_wf pwf (op_srv srv)"
    and "qwf req"
  shows "unary_call lk (serve_call lk h srv) inType outType (codec_message prun psz pdecode pfresh) k c name
      (codec_message qrun qsz qdecode req) opts s
    = Some (direct_call lk qbytes pbytes pfresh (op_srv srv) k c name req opts s)"
proof -
  obtain r1 s1 where send: "lk_send lk k c name opts (qbytes (Some req)) s = (r1, s1)"
    by (cases "lk_send lk k c name opts (qbytes (Some req)) s")
  note start = unary_call_def encode_request [OF assms(1,5)] direct_call_def send
  show ?thesis
  proof (cases r1)
    case (Inl err)
    then show ?thesis by (simp add: start)
  next
    case (Inr data)
    then have arrived: "concat data = qbytes (Some req)" "length (qbytes (Some req)) < 2 ^ 63"
      using link_okD(1) [OF assms(2)] send by simp_all
    note serve = served [OF assms(1,3-5) arrived, of "lk_context lk k c s1" s1]
    obtain r2 s2 where m: "op_srv srv (lk_context lk k c s1) (Some req) s1 = (r2, s2)"
      by (cases "op_srv srv (lk_context lk k c s1) (Some req) s1")
    show ?thesis
    proof (cases r2)
      case (Inl err)
      then show ?thesis by (simp add: start Inr serve m)
    next
      case out: (Inr out)
      obtain r3 s3 where ans: "lk_answer lk k c name opts (pbytes out) s2 = (r3, s3)"
        by (cases "lk_answer lk k c name opts (pbytes out) s2")
      have returned: "concat d = pbytes out" "length (pbytes out) < 2 ^ 63" if "r3 = Inr d" for d
        using link_okD(2) [OF assms(2)] ans that by simp_all
      have wf: "pwf x" if "out = Some x" for x using answers_wfD [OF assms(4)] m out that by simp
      show ?thesis
        using decode_response [OF assms(1) wf returned] by (cases r3) (simp_all add: start Inr serve m out ans)
    qed
  qed
qed

end

lemma find_methods:
  "find_method Sink_ServiceDesc ''/sink.v1.Sink/Read'' = Some Sink_Read_Handler"
  "find_method Sink_ServiceDesc ''/sink.v1.Sink/Write'' = Some Sink_Write_Handler"
  "find_method Sink_ServiceDesc ''/sink.v1.Sink/Delete'' = Some Sink_Delete_Handler"
  "find_method Sink_ServiceDesc ''/sink.v1.Sink/Execute'' = Some Sink_Execute_Handler"
  "find_method Sink_ServiceDesc ''/sink.v1.Sink/Query'' = Some Sink_Query_Handler"
  "find_method Sink_ServiceDesc ''/sink.v1.Sink/Count'' = Some Sink_Count_Handler"
  "find_method Sink_ServiceDesc ''/sink.v1.Sink/Scan'' = Some Sink_Scan_Handler"
  by (simp_all add: find_method_def Sink_ServiceDesc_def)

lemma empty_responses:
  "ReadResponse_UnmarshalVT h [] ReadResponse_fresh = Some (Inr ReadResponse_fresh)"
  "WriteResponse_UnmarshalVT h [] WriteResponse_fresh = Some (Inr WriteResponse_fresh)"
  "DeleteResponse_UnmarshalVT h [] DeleteResponse_fresh = Some (Inr DeleteResponse_fresh)"
  "ExecuteResponse_UnmarshalVT h [] ExecuteResponse_fresh = Some (Inr ExecuteResponse_fresh)"
  "QueryResponse_UnmarshalVT h [] QueryResponse_fresh = Some (Inr QueryResponse_fresh)"
  "CountResponse_UnmarshalVT h [] CountResponse_fresh = Some (Inr CountResponse_fresh)"
  "ScanResponse_UnmarshalVT h [] ScanResponse_fresh = Some (Inr ScanResponse_fresh)"
  by (simp_all add: ReadResponse_UnmarshalVT_def WriteResponse_UnmarshalVT_def DeleteResponse_UnmarshalVT_def ExecuteResponse_UnmarshalVT_def QueryResponse_UnmarshalVT_def CountResponse_UnmarshalVT_def ScanResponse_UnmarshalVT_def unmarshal_loop.simps)

interpretation read_method: unary_method h
  "ReadRequest_MarshalToSizedBufferVT h" "ReadRequest_SizeVT h" "ReadRequest_UnmarshalVT h" ReadRequest_fresh "\<lambda>m. True" "ReadRequest_wf h" "returning (ReadRequest_MarshalToSizedBufferVT h)"
  "ReadResponse_MarshalToSizedBufferVT h" "ReadResponse_SizeVT h" "ReadResponse_UnmarshalVT h" ReadResponse_fresh "\<lambda>m. True" "ReadResponse_wf h" "returning (ReadResponse_MarshalToSizedBufferVT h)"
  "''/sink.v1.Sink/Read''" "''*sinkv1.ReadRequest''" "''*sinkv1.ReadResponse''" Sink_Read_Handler dec_ReadRequest AnyReadResponse srv_Read
  for h
  by unfold_locales (simp_all add: find_methods handlers_call empty_responses wire_decoder_def encode_any_def)

interpretation write_method: unary_method h
  "WriteRequest_bytes h" "WriteRequest_SizeVT h" "WriteRequest_UnmarshalVT h" WriteRequest_fresh WriteRequest_sized "WriteRequest_wf h" "WriteRequest_MarshalToSizedBufferVT h"
  "WriteResponse_MarshalToSizedBufferVT h" "WriteResponse_SizeVT h" "WriteResponse_UnmarshalVT h" WriteResponse_fresh "\<lambda>m. True" "WriteResponse_wf h" "returning (WriteResponse_MarshalToSizedBufferVT h)"
  "''/sink.v1.Sink/Write''" "''*sinkv1.WriteRequest''" "''*sinkv1.WriteResponse''" Sink_Write_Handler dec_WriteRequest AnyWriteResponse srv_Write
  for h
  by unfold_locales (simp_all add: find_methods handlers_call empty_responses wire_decoder_def encode_any_def)

interpretation delete_method: unary_method h
  "DeleteRequest_MarshalToSizedBufferVT h" "DeleteRequest_SizeVT h" "DeleteRequest_UnmarshalVT h" DeleteRequest_fresh "\<lambda>m. True" "DeleteRequest_wf h" "returning (DeleteRequest_MarshalToSizedBufferVT h)"
  "DeleteResponse_MarshalToSizedBufferVT h" "DeleteResponse_SizeVT h" "DeleteResponse_UnmarshalVT h" DeleteResponse_fresh "\<lambda>m. True" "DeleteResponse_wf h" "returning (DeleteResponse_MarshalToSizedBufferVT h)"
  "''/sink.v1.Sink/Delete''" "''*sinkv1.DeleteRequest''" "''*sinkv1.DeleteResponse''" Sink_Delete_Handler dec_DeleteRequest AnyDeleteResponse srv_Delete
  for h
  by unfold_locales (simp_all add: find_methods handlers_call empty_responses wire_decoder_def encode_any_def)

interpretation execute_method: unary_method h
  "ExecuteRequest_MarshalToSizedBufferVT h" "ExecuteRequest_SizeVT h" "ExecuteRequest_UnmarshalVT h" ExecuteRequest_fresh "\<lambda>m. True" "ExecuteRequest_wf h" "returning (ExecuteRequest_MarshalToSizedBufferVT h)"
  "ExecuteResponse_MarshalToSizedBufferVT h" "ExecuteResponse_SizeVT h" "ExecuteResponse_UnmarshalVT h" ExecuteResponse_fresh "\<lambda>m. True" "ExecuteResponse_wf h" "returning (ExecuteResponse_MarshalToSizedBufferVT h)"
  "''/sink.v1.Sink/Execute''" "''*sinkv1.ExecuteRequest''" "''*sinkv1.ExecuteResponse''" Sink_Execute_Handler dec_ExecuteRequest AnyExecuteResponse srv_Execute
  for h
  by unfold_locales (simp_all add: find_methods handlers_call empty_responses wire_decoder_def encode_any_def)

interpretation query_method: unary_method h
  "QueryRequest_MarshalToSizedBufferVT h" "QueryRequest_SizeVT h" "QueryRequest_UnmarshalVT h" QueryRequest_fresh "\<lambda>m. True" "QueryRequest_wf h" "returning (QueryRequest_MarshalToSizedBufferVT h)"
  "QueryResponse_MarshalToSizedBufferVT h" "QueryResponse_SizeVT h" "QueryResponse_UnmarshalVT h" QueryResponse_fresh "\<lambda>m. True" "QueryResponse_wf h" "returning (QueryResponse_MarshalToSizedBufferVT h)"
  "''/sink.v1.Sink/Query''" "''*sinkv1.QueryRequest''" "''*sinkv1.QueryResponse''" Sink_Query_Handler dec_QueryRequest AnyQueryResponse srv_Query
  for h
  by unfold_locales (simp_all add: find_methods handlers_call empty_responses wire_decoder_def encode_any_def)

interpretation count_method: unary_method h
  "CountRequest_MarshalToSizedBufferVT h" "CountRequest_SizeVT h" "CountRequest_UnmarshalVT h" CountRequest_fresh "\<lambda>m. True" "CountRequest_wf h" "returning (CountRequest_MarshalToSizedBufferVT h)"
  "CountResponse_MarshalToSizedBufferVT h" "CountResponse_SizeVT h" "CountResponse_UnmarshalVT h" CountResponse_fresh "\<lambda>m. True" "CountResponse_wf h" "returning (CountResponse_MarshalToSizedBufferVT h)"
  "''/sink.v1.Sink/Count''" "''*sinkv1.CountRequest''" "''*sinkv1.CountResponse''" Sink_Count_Handler dec_CountRequest AnyCountResponse srv_Count
  for h
  by unfold_locales (simp_all add: find_methods handlers_call empty_responses wire_decoder_def encode_any_def)

interpretation scan_method: unary_method h
  "ScanRequest_MarshalToSizedBufferVT h" "ScanRequest_SizeVT h" "ScanRequest_UnmarshalVT h" ScanRequest_fresh "\<lambda>m. True" "ScanRequest_wf h" "returning (ScanRequest_MarshalToSizedBufferVT h)"
  "ScanResponse_MarshalToSizedBufferVT h" "ScanResponse_SizeVT h" "ScanResponse_UnmarshalVT h" ScanResponse_fresh "\<lambda>m. True" "ScanResponse_wf h" "returning (ScanResponse_MarshalToSizedBufferVT h)"
  "''/sink.v1.Sink/Scan''" "''*sinkv1.ScanRequest''" "''*sinkv1.ScanResponse''" Sink_Scan_Handler dec_ScanRequest AnyScanResponse srv_Scan
  for h
  by unfold_locales (simp_all add: find_methods handlers_call empty_responses wire_decoder_def encode_any_def)

section \<open>The client over two environments\<close>

text \<open>
  Two environments that answer the same well-formed requests in the same way, and do everything else the same. The client's
  calls send no other requests, so they are the same over both.
\<close>

definition agrees :: "protohelpers \<Rightarrow> ('k, 'c, 's) env \<Rightarrow> ('k, 'c, 's) env \<Rightarrow> bool" where
  "agrees h env env' \<longleftrightarrow>
     (\<forall>k c req opts w. ReadRequest_wf h req \<longrightarrow> sinkClient_Read env k c req opts w = sinkClient_Read env' k c req opts w)
     \<and> (\<forall>k c req opts w. WriteRequest_wf h req \<longrightarrow> sinkClient_Write env k c req opts w = sinkClient_Write env' k c req opts w)
     \<and> (\<forall>k c req opts w. DeleteRequest_wf h req \<longrightarrow> sinkClient_Delete env k c req opts w = sinkClient_Delete env' k c req opts w)
     \<and> (\<forall>k c req opts w. ExecuteRequest_wf h req \<longrightarrow> sinkClient_Execute env k c req opts w = sinkClient_Execute env' k c req opts w)
     \<and> (\<forall>k c req opts w. QueryRequest_wf h req \<longrightarrow> sinkClient_Query env k c req opts w = sinkClient_Query env' k c req opts w)
     \<and> (\<forall>k c req opts w. CountRequest_wf h req \<longrightarrow> sinkClient_Count env k c req opts w = sinkClient_Count env' k c req opts w)
     \<and> (\<forall>k c req opts w. ScanRequest_wf h req \<longrightarrow> sinkClient_Scan env k c req opts w = sinkClient_Scan env' k c req opts w)
     \<and> done_before env = done_before env' \<and> ctx_Err env = ctx_Err env' \<and> WithTimeout env = WithTimeout env'
     \<and> rand_Float64 env = rand_Float64 env' \<and> float_oob env = float_oob env'"

lemma agreesD:
  assumes "agrees h env env'"
  shows "ReadRequest_wf h rd \<Longrightarrow> sinkClient_Read env k c rd opts w = sinkClient_Read env' k c rd opts w"
    and "WriteRequest_wf h wr \<Longrightarrow> sinkClient_Write env k c wr opts w = sinkClient_Write env' k c wr opts w"
    and "DeleteRequest_wf h dl \<Longrightarrow> sinkClient_Delete env k c dl opts w = sinkClient_Delete env' k c dl opts w"
    and "ExecuteRequest_wf h ex \<Longrightarrow> sinkClient_Execute env k c ex opts w = sinkClient_Execute env' k c ex opts w"
    and "QueryRequest_wf h qu \<Longrightarrow> sinkClient_Query env k c qu opts w = sinkClient_Query env' k c qu opts w"
    and "CountRequest_wf h cn \<Longrightarrow> sinkClient_Count env k c cn opts w = sinkClient_Count env' k c cn opts w"
    and "ScanRequest_wf h sc \<Longrightarrow> sinkClient_Scan env k c sc opts w = sinkClient_Scan env' k c sc opts w"
    and "ctx_Err env = ctx_Err env'" and "WithTimeout env = WithTimeout env'" and "float_oob env = float_oob env'"
    and "backoff_wait env = backoff_wait env'"
proof -
  show env: "ctx_Err env = ctx_Err env'" "WithTimeout env = WithTimeout env'" "float_oob env = float_oob env'"
    using assms unfolding agrees_def by blast+
  have "done_before env = done_before env'" "rand_Float64 env = rand_Float64 env'"
    using assms unfolding agrees_def by blast+
  then show "backoff_wait env = backoff_wait env'"
    by (intro ext) (simp only: backoff_wait_def draw_backoff_def waitForBackoff_def env)
qed (use assms in \<open>simp_all add: agrees_def\<close>)

lemma run_batches_cong:
  assumes "\<And>b v. b \<in> set bs \<Longrightarrow> step b v = step' b v"
  shows "run_batches step remap start bs results w = run_batches step' remap start bs results w"
  using assms by (induction bs arbitrary: start results w) (auto split: prod.split sum.split)

context batch_loop
begin

text \<open>Two instances of a loop are the same when their steps are, on the batches of the collection.\<close>

lemma loop_same:
  assumes "0 < m" and "batch_loop loop' step' remap m"
    and "\<And>b v. list_all P b \<Longrightarrow> step b v = step' b v" and "list_all P ops"
  shows "loop ops 0 [] w = loop' ops 0 [] w"
proof -
  have "step b v = step' b v" if "b \<in> set (chunks (nat m) ops)" for b v
    using assms(3) list_all_chunk [OF that assms(4)] by blast
  then have "run_batches step remap 0 (chunks (nat m) ops) [] w = run_batches step' remap 0 (chunks (nat m) ops) [] w"
    by (rule run_batches_cong)
  then show ?thesis
    using loop_run [OF assms(1), of ops 0 "[]" w] batch_loop.loop_run [OF assms(2,1), of ops 0 "[]" w] by simp
qed

end

lemma record_decoded_left: "record_decoded again prs results = (results', left) \<Longrightarrow> set left \<subseteq> fst ` set prs"
proof (induction prs arbitrary: results results' left)
  case (Cons p prs)
  obtain work result where p: "p = (work, result)" by (cases p)
  then obtain left1 where "record_decoded again prs (results[fst work := at_index (fst work) result]) = (results', left1)"
      and "left = (if again \<and> retryable_failure result then work # left1 else left1)"
    using Cons.prems by (auto simp: Let_def split: prod.splits)
  then show ?case using Cons.IH p by (auto split: if_splits)
qed simp

lemma readAttempts_same:
  assumes "agrees h env env'" and "list_all (ReadOperation_wf h) (map snd pending)"
  shows "readAttempts lib env rpc config ctx attempt backoff pending results w
    = readAttempts lib env' rpc config ctx attempt backoff pending results w"
  using assms(2)
proof (induction "nat (rp_MaxAttempts (cc_readRetry config) + 1 - attempt)" arbitrary: attempt backoff pending results w
    rule: less_induct)
  case less
  note same = agreesD [OF assms(1)]
  have again: "readAttempts lib env rpc config ctx (attempt + 1) b p rs v = readAttempts lib env' rpc config ctx (attempt + 1) b p rs v"
    if "attempt \<le> rp_MaxAttempts (cc_readRetry config)" "set p \<subseteq> set pending" for b p rs v
  proof (rule less.hyps)
    show "nat (rp_MaxAttempts (cc_readRetry config) + 1 - (attempt + 1)) < nat (rp_MaxAttempts (cc_readRetry config) + 1 - attempt)"
      using that(1) by simp
    show "list_all (ReadOperation_wf h) (map snd p)" using less.prems that(2) by (auto simp: list_all_iff)
  qed
  have left: "set l \<subseteq> set pending" if "record_decoded a (zip pending decoded) rs = (rs', l)" for a decoded rs rs' l
    using record_decoded_left [OF that] by (auto dest!: set_zip_leftD subsetD)
  have "ReadRequest_wf h (read_request (map snd pending))" using less.prems by (rule request_wf(1))
  note read = same(1) [OF this]
  show ?case
    by (subst (1 2) readAttempts.simps)
      (auto simp: Let_def read same(10,11) again left split: prod.split sum.split option.split)
qed

lemma readBatch_same:
  assumes "agrees h env env'" and "list_all (ReadOperation_wf h) b"
  shows "readBatch lib env rpc config ctx b v = readBatch lib env' rpc config ctx b v"
proof -
  have "map snd (zip [0..<length b] b) = b" by simp
  then show ?thesis
    using readAttempts_same [OF assms(1), of "zip [0..<length b] b" lib] assms(2)
    by (simp add: readBatch_def readOperationsWithRetry_def)
qed

lemma mutation_batches_same:
  assumes "agrees h env env'"
  shows "writeBatch lib env rpc config ctx mode b v = writeBatch lib env' rpc config ctx mode b v"
    and "list_all (DeleteOperation_wf h) d \<Longrightarrow>
      deleteBatch lib env rpc config ctx mode d v = deleteBatch lib env' rpc config ctx mode d v"
  by (simp_all add: writeBatch_def deleteBatch_def agreesD(2,3) [OF assms] request_wf)

lemma scanAttempts_same:
  assumes "agrees h env env'" and "ScanRequest_wf h request"
  shows "scanAttempts lib env rpc config ctx request attempt backoff response err w
    = scanAttempts lib env' rpc config ctx request attempt backoff response err w"
proof (induction "nat (rp_MaxAttempts (cc_scanRetry config) + 1 - attempt)" arbitrary: attempt backoff response err w
    rule: less_induct)
  case less
  have again: "scanAttempts lib env rpc config ctx request (attempt + 1) b r e v
      = scanAttempts lib env' rpc config ctx request (attempt + 1) b r e v"
    if "attempt \<le> rp_MaxAttempts (cc_scanRetry config)" for b r e v
    using that by (intro less.hyps) simp
  show ?case
    by (subst (1 2) scanAttempts.simps)
      (auto simp: Let_def agreesD(7) [OF assms] agreesD(8,10,11) [OF assms(1)] again split: prod.split sum.split option.split)
qed

lemma record_calls_same:
  assumes "agrees h env env'" and "client_ok c"
  shows "Read lib env (Some c) ctx addresses w = Read lib env' (Some c) ctx addresses w"
    and "Write lib env (Some c) ctx mode ops w = Write lib env' (Some c) ctx mode ops w"
    and "Delete lib env (Some c) ctx mode addresses w = Delete lib env' (Some c) ctx mode addresses w"
proof -
  note step = client_ok_step [OF assms(2)]
  have "list_all (ReadOperation_wf h) (map read_operation addresses)"
    and "list_all (DeleteOperation_wf h) (map delete_operation addresses)" by (simp_all add: list_all_conv_set)
  then show "Read lib env (Some c) ctx addresses w = Read lib env' (Some c) ctx addresses w"
    and "Delete lib env (Some c) ctx mode addresses w = Delete lib env' (Some c) ctx mode addresses w"
    using read_batches.loop_same [OF step read_batches.batch_loop_axioms readBatch_same [OF assms(1)],
        where ops = "map read_operation addresses" and lib = lib]
      delete_batches.loop_same [OF step delete_batches.batch_loop_axioms mutation_batches_same(2) [OF assms(1)],
        where ops = "map delete_operation addresses" and lib = lib]
    by (simp_all add: Read_def Delete_def split: option.split)
  show "Write lib env (Some c) ctx mode ops w = Write lib env' (Some c) ctx mode ops w"
    using write_batches.loop_same [OF step write_batches.batch_loop_axioms mutation_batches_same(1) [OF assms(1)],
        where P = "\<lambda>op. True" and ops = ops and lib = lib]
    by (simp add: Write_def list_all_conv_set split: option.split)
qed

lemma native_calls_same:
  assumes "agrees h env env'"
  shows "Execute lib env c ctx cmd w = Execute lib env' c ctx cmd w"
    and "Query lib env c ctx q w = Query lib env' c ctx q w"
    and "Count lib env c ctx cmd w = Count lib env' c ctx cmd w"
    and "Scan lib env c ctx r w = Scan lib env' c ctx r w"
proof -
  note same = agreesD [OF assms]
  have cmd: "ExecuteRequest_wf h \<lparr>pbExecuteRequest_Command = Some p, pbExecuteRequest_unknownFields = []\<rparr>"
    "CountRequest_wf h \<lparr>pbCountRequest_Command = Some p, pbCountRequest_unknownFields = []\<rparr>"
    if "Command_toProto lib cmd = Inr p" for p
    using that by (simp_all add: ExecuteRequest_wf_def CountRequest_wf_def Command_toProto_wf)
  show "Execute lib env c ctx cmd w = Execute lib env' c ctx cmd w"
    by (auto simp: Execute_def same(4) [OF cmd(1)] split: option.split sum.split)
  show "Count lib env c ctx cmd w = Count lib env' c ctx cmd w"
    by (auto simp: Count_def same(6) [OF cmd(2)] split: option.split sum.split)
  show "Query lib env c ctx q w = Query lib env' c ctx q w"
    by (auto simp: Query_def same(5) [OF query_request_wf] split: option.split sum.split)
  show "Scan lib env c ctx r w = Scan lib env' c ctx r w"
    by (auto simp: Scan_def Let_def same(9) scanAttempts_same [OF assms scan_request_wf] split: option.split sum.split)
qed

section \<open>The wire is invisible\<close>

lemma carries_agrees:
  assumes "helpers_ok h" and "link_ok lk" and "transparent (lk_interceptor lk)" and "service_wf h srv"
    and "carries lk h srv env"
  shows "agrees h env (direct_env lk h srv env)"
proof -
  note direct = assms(1-3)
  have wf: "answers_wf (ReadResponse_wf h) (srv_Read srv)" "answers_wf (WriteResponse_wf h) (srv_Write srv)"
    "answers_wf (DeleteResponse_wf h) (srv_Delete srv)" "answers_wf (ExecuteResponse_wf h) (srv_Execute srv)"
    "answers_wf (QueryResponse_wf h) (srv_Query srv)" "answers_wf (CountResponse_wf h) (srv_Count srv)"
    "answers_wf (ScanResponse_wf h) (srv_Scan srv)"
    using assms(4) by (simp_all add: service_wf_def)
  note carried = assms(5) [unfolded carries_def, THEN conjunct1, rule_format, OF read_method.unary_call_direct [OF direct wf(1)]]
    assms(5) [unfolded carries_def, THEN conjunct2, THEN conjunct1, rule_format, OF write_method.unary_call_direct [OF direct wf(2)]]
    assms(5) [unfolded carries_def, THEN conjunct2, THEN conjunct2, THEN conjunct1, rule_format,
      OF delete_method.unary_call_direct [OF direct wf(3)]]
    assms(5) [unfolded carries_def, THEN conjunct2, THEN conjunct2, THEN conjunct2, THEN conjunct1, rule_format,
      OF execute_method.unary_call_direct [OF direct wf(4)]]
    assms(5) [unfolded carries_def, THEN conjunct2, THEN conjunct2, THEN conjunct2, THEN conjunct2, THEN conjunct1, rule_format,
      OF query_method.unary_call_direct [OF direct wf(5)]]
    assms(5) [unfolded carries_def, THEN conjunct2, THEN conjunct2, THEN conjunct2, THEN conjunct2, THEN conjunct2, THEN conjunct1,
      rule_format, OF count_method.unary_call_direct [OF direct wf(6)]]
    assms(5) [unfolded carries_def, THEN conjunct2, THEN conjunct2, THEN conjunct2, THEN conjunct2, THEN conjunct2, THEN conjunct2,
      rule_format, OF scan_method.unary_call_direct [OF direct wf(7)]]
  show ?thesis
    by (simp add: agrees_def direct_env_def stub_defs call_def carried)
qed

end
