(* ===== verification/Service_Effects.thy ===== *)
theory Service_Effects
  imports Service_Wire
begin

text \<open>
  What a batched mutation makes the service do, over a link that may fail at any point. Nothing is assumed of the service: what its
  method does to the data, and what it answers, may depend on the whole request and on the data. The theorems say which
  requests the method is run on: those of the leading batches, each once and in order, with nothing else between them.
  \<open>data\<close> reads the service's data out of the world's state.
\<close>

section \<open>Executions of a method\<close>

text \<open>
  \<open>executes dat op_srv x reqs outs y\<close>: the data is \<open>x\<close>, the method is called with the requests, one after the other, returns \<open>outs\<close>,
  and the data is \<open>y\<close>. Between two calls the data does not change.
\<close>

inductive executes ::
  "('s \<Rightarrow> 't) \<Rightarrow> ('d \<Rightarrow> 'q option \<Rightarrow> 's \<Rightarrow> 'p \<times> 's) \<Rightarrow> 't \<Rightarrow> 'q list \<Rightarrow> 'p list \<Rightarrow> 't \<Rightarrow> bool"
  for dat op_srv where
  executes_none: "executes dat op_srv x [] [] x"
| executes_call: "executes dat op_srv (dat s) (req # reqs) (out # outs) y"
    if "op_srv ctx (Some req) s = (out, s1)" and "executes dat op_srv (dat s1) reqs outs y"

text \<open>
  A batched call that had an execution for each of \<open>k\<close> leading batches and returns the results in the answers to all of them, or
  to all but the last, renumbered from the position of the batch on. \<open>answer b out rs\<close> means that the method's answer \<open>out\<close> to
  the batch \<open>b\<close> has the results \<open>rs\<close>.
\<close>

definition executed_as ::
  "('s \<Rightarrow> 't) \<Rightarrow> ('d \<Rightarrow> 'q option \<Rightarrow> 's \<Rightarrow> 'p \<times> 's) \<Rightarrow> ('o list \<Rightarrow> 'q) \<Rightarrow> ('o list \<Rightarrow> 'p \<Rightarrow> 'r list \<Rightarrow> bool)
     \<Rightarrow> ('r list \<Rightarrow> int \<Rightarrow> 'r list) \<Rightarrow> nat \<Rightarrow> 'o list list \<Rightarrow> 't \<Rightarrow> 't \<Rightarrow> 'r list \<Rightarrow> go_error option \<Rightarrow> bool" where
  "executed_as dat op_srv request answer remap start bs x y results err \<longleftrightarrow>
     (\<exists>k\<le>length bs. \<exists>outs rss. executes dat op_srv x (map request (take k bs)) outs y
        \<and> results = concat rss \<and> (length rss = k \<or> Suc (length rss) = k \<and> err \<noteq> None)
        \<and> (\<forall>i<length rss. \<exists>rs. answer (bs ! i) (outs ! i) rs \<and> rss ! i = remap rs (int (start + length (concat (take i bs)))))
        \<and> (err = None \<longrightarrow> k = length bs))"

lemma executed_as_Nil: "executed_as dat op_srv request answer remap start [] x x [] err"
  unfolding executed_as_def by (intro exI [of _ 0] conjI exI [of _ "[]"]) (auto intro: executes_none)

lemma executed_as_stop: "executed_as dat op_srv request answer remap start bs x x [] (Some e)"
  unfolding executed_as_def by (intro exI [of _ 0] conjI exI [of _ "[]"]) (auto intro: executes_none)

lemma executed_as_lost:
  assumes "op_srv ctx (Some (request b)) s = (out, s1)"
  shows "executed_as dat op_srv request answer remap start (b # bs) (dat s) (dat s1) [] (Some e)"
proof -
  have "executes dat op_srv (dat s) [request b] [out] (dat s1)"
    by (rule executes_call [where op_srv = op_srv, OF assms]) (rule executes_none)
  then show ?thesis unfolding executed_as_def
    by (intro exI [of _ "Suc 0"] conjI exI [of _ "[out]"] exI [of _ "[]"]) auto
qed

lemma executed_as_Cons:
  assumes "op_srv ctx (Some (request b)) s = (out, s1)" and "answer b out batch"
    and "executed_as dat op_srv request answer remap (start + length b) bs (dat s1) y results err"
  shows "executed_as dat op_srv request answer remap start (b # bs) (dat s) y (remap batch (int start) @ results) err"
proof -
  obtain k outs rss where k: "k \<le> length bs" "executes dat op_srv (dat s1) (map request (take k bs)) outs y"
      "results = concat rss" "length rss = k \<or> Suc (length rss) = k \<and> err \<noteq> None" "err = None \<longrightarrow> k = length bs"
      and each: "\<forall>i<length rss. \<exists>rs. answer (bs ! i) (outs ! i) rs
        \<and> rss ! i = remap rs (int (start + length b + length (concat (take i bs))))"
    using assms(3) unfolding executed_as_def by blast
  have "\<exists>rs. answer ((b # bs) ! i) ((out # outs) ! i) rs
      \<and> (remap batch (int start) # rss) ! i = remap rs (int (start + length (concat (take i (b # bs)))))"
    if "i < Suc (length rss)" for i
    using that each assms(2) by (cases i) (auto simp: add.assoc)
  then show ?thesis
    using k executes_call [where op_srv = op_srv, OF assms(1) k(2)] unfolding executed_as_def
    by (intro exI [of _ "Suc k"] conjI exI [of _ "out # outs"] exI [of _ "remap batch (int start) # rss"]) auto
qed

section \<open>The batched calls\<close>

locale executed_batches = batch_loop loop step remap m
  for loop :: "'o list \<Rightarrow> int \<Rightarrow> 'r list \<Rightarrow> 'w \<Rightarrow> (('r list \<times> go_error option) \<times> 'w) option"
    and step :: "'o list \<Rightarrow> 'w \<Rightarrow> 'r list result \<times> 'w"
    and remap :: "'r list \<Rightarrow> int \<Rightarrow> 'r list"
    and m :: int +
  fixes ok :: bool and data :: "'w \<Rightarrow> 't" and dat :: "'s \<Rightarrow> 't" and op_srv :: "'d \<Rightarrow> 'q option \<Rightarrow> 's \<Rightarrow> 'p \<times> 's"
    and request :: "'o list \<Rightarrow> 'q" and answer :: "'o list \<Rightarrow> 'p \<Rightarrow> 'r list \<Rightarrow> bool"
  assumes step_executes: "ok \<Longrightarrow> step b w = (r, w') \<Longrightarrow>
      (\<exists>ctx s out s1. dat s = data w \<and> op_srv ctx (Some (request b)) s = (out, s1) \<and> dat s1 = data w'
         \<and> (\<forall>rs. r = Inr rs \<longrightarrow> answer b out rs))
      \<or> isl r \<and> data w' = data w"
begin

lemma run_executes:
  assumes ok and "run_batches step remap start bs results w = ((out, err), w')"
  shows "\<exists>rs. out = results @ rs \<and> executed_as dat op_srv request answer remap start bs (data w) (data w') rs err"
  using assms(2)
proof (induction bs arbitrary: start results w)
  case Nil
  then show ?case by (simp add: executed_as_Nil)
next
  case (Cons b bs)
  obtain r w1 where st: "step b w = (r, w1)" by (cases "step b w")
  note executes = step_executes [OF assms(1) st]
  show ?case
  proof (cases r)
    case (Inl e)
    then have stop: "out = results" "err = Some e" "w' = w1" using Cons.prems st by simp_all
    show ?thesis using executes
    proof
      assume "\<exists>ctx s out s1. dat s = data w \<and> op_srv ctx (Some (request b)) s = (out, s1) \<and> dat s1 = data w1
         \<and> (\<forall>rs. r = Inr rs \<longrightarrow> answer b out rs)"
      then obtain ctx s p s1 where s: "dat s = data w" "op_srv ctx (Some (request b)) s = (p, s1)" "dat s1 = data w1" by blast
      have "executed_as dat op_srv request answer remap start (b # bs) (dat s) (dat s1) [] (Some e)"
        by (rule executed_as_lost [where op_srv = op_srv and request = request and b = b, OF s(2)])
      then show ?thesis using stop by (simp add: s)
    next
      assume "isl r \<and> data w1 = data w"
      then show ?thesis using stop by (simp add: executed_as_stop)
    qed
  next
    case (Inr batch)
    with executes obtain ctx s p s1 where s: "dat s = data w" "op_srv ctx (Some (request b)) s = (p, s1)" "dat s1 = data w1"
        "answer b p batch" by auto
    have "run_batches step remap (start + length b) bs (results @ remap batch (int start)) w1 = ((out, err), w')"
      using Cons.prems st Inr by simp
    from Cons.IH [OF this] obtain rs where "out = (results @ remap batch (int start)) @ rs"
        "executed_as dat op_srv request answer remap (start + length b) bs (dat s1) (data w') rs err"
      unfolding s(3) by blast
    moreover from this have "executed_as dat op_srv request answer remap start (b # bs) (dat s) (data w') (remap batch (int start) @ rs) err"
      by (intro executed_as_Cons [where op_srv = op_srv and request = request and b = b and answer = answer, OF s(2,4)])
    ultimately show ?thesis by (simp add: s(1))
  qed
qed

lemma loop_executes:
  assumes ok and "0 < m" and "loop ops 0 [] w = Some ((rs, err), w')"
  shows "executed_as dat op_srv request answer remap 0 (chunks (nat m) ops) (data w) (data w') rs err"
proof -
  have "run_batches step remap 0 (chunks (nat m) ops) [] w = ((rs, err), w')"
    using loop_run [OF assms(2), of ops 0 "[]" w] assms(3) by simp
  from run_executes [OF assms(1) this] show ?thesis by simp
qed

end

section \<open>One call over the link\<close>

text \<open>The link does not touch the service's data.\<close>

definition keeps_data :: "('s \<Rightarrow> 't) \<Rightarrow> ('k, 'c, 'd, 's) link \<Rightarrow> bool" where
  "keeps_data data lk \<longleftrightarrow>
     (\<forall>k c name opts b s. data (snd (lk_send lk k c name opts b s)) = data s
        \<and> data (snd (lk_answer lk k c name opts b s)) = data s)
     \<and> (\<forall>k c opts err s. data (snd (lk_status lk k c opts err s)) = data s)"

text \<open>A call runs the method once on its request, or it fails without having reached the service.\<close>

lemma direct_call_executes:
  assumes "keeps_data data lk" and "direct_call lk qbytes pbytes blank op_srv k c name req opts s = (r, s')"
  shows "(\<exists>ctx s1 out s2. data s1 = data s \<and> op_srv ctx (Some req) s1 = (out, s2) \<and> data s2 = data s'
      \<and> (\<forall>m. r = Inr m \<longrightarrow> (\<exists>p. out = Inr p \<and> m = (case p of None \<Rightarrow> blank | Some m \<Rightarrow> m))))
    \<or> isl r \<and> data s' = data s"
proof -
  have keep: "lk_send lk k c name opts b s1 = (r1, s2) \<Longrightarrow> data s2 = data s1"
    "lk_answer lk k c name opts b s1 = (r1, s2) \<Longrightarrow> data s2 = data s1"
    "lk_status lk k c opts err s1 = (e, s2) \<Longrightarrow> data s2 = data s1" for b s1 r1 s2 err e
    using assms(1) unfolding keeps_data_def by (metis snd_conv)+
  obtain r1 s1 where send: "lk_send lk k c name opts (qbytes (Some req)) s = (r1, s1)"
    by (cases "lk_send lk k c name opts (qbytes (Some req)) s")
  show ?thesis
  proof (cases r1)
    case (Inl err)
    then show ?thesis using assms(2) keep(1) [OF send] by (auto simp: direct_call_def send)
  next
    case (Inr d)
    obtain out s2 where run: "op_srv (lk_context lk k c s1) (Some req) s1 = (out, s2)"
      by (cases "op_srv (lk_context lk k c s1) (Some req) s1")
    have "data s2 = data s' \<and> (\<forall>m. r = Inr m \<longrightarrow> (\<exists>p. out = Inr p \<and> m = (case p of None \<Rightarrow> blank | Some m \<Rightarrow> m)))"
      using assms(2) unfolding direct_call_def send Inr
      by (cases out) (auto simp: run status_error_def dest!: keep split: prod.splits sum.splits)
    then show ?thesis using run keep(1) [OF send]
      by (intro disjI1 exI [of _ "lk_context lk k c s1"] exI [of _ s1] exI [of _ out] exI [of _ s2]) simp
  qed
qed

section \<open>The batched mutations\<close>

text \<open>The results of a batch in the method's answer: a nil response is an empty one.\<close>

definition write_answer :: "'v lib \<Rightarrow> WriteOperation list \<Rightarrow> pbWriteResponse option result \<Rightarrow> WriteResult list \<Rightarrow> bool" where
  "write_answer lib b out rs \<longleftrightarrow>
     (\<exists>p. out = Inr p \<and> decodeWriteResponse lib (Some (case p of None \<Rightarrow> WriteResponse_fresh | Some m \<Rightarrow> m)) (length b) = Inr rs)"

definition delete_answer :: "'v lib \<Rightarrow> pbDeleteOperation list \<Rightarrow> pbDeleteResponse option result \<Rightarrow> DeleteResult list \<Rightarrow> bool" where
  "delete_answer lib b out rs \<longleftrightarrow>
     (\<exists>p. out = Inr p \<and> decodeDeleteResponse lib (Some (case p of None \<Rightarrow> DeleteResponse_fresh | Some m \<Rightarrow> m)) (length b) = Inr rs)"

lemma writeBatch_executes:
  assumes "keeps_data data lk" and "writeBatch lib (direct_env lk h srv env) rpc config ctx mode b w = (r, w')"
  shows "(\<exists>ctx s out s1. data s = data (w_st w) \<and> srv_Write srv ctx (Some (write_request mode b)) s = (out, s1)
        \<and> data s1 = data (w_st w') \<and> (\<forall>rs. r = Inr rs \<longrightarrow> write_answer lib b out rs))
    \<or> isl r \<and> data (w_st w') = data (w_st w)"
proof -
  let ?call = "direct_call lk (WriteRequest_bytes h) (WriteResponse_MarshalToSizedBufferVT h) WriteResponse_fresh
    (srv_Write srv) rpc ctx Sink_Write_FullMethodName (write_request mode b) (StaticMethod # cc_sinkCallOptions config) (w_st w)"
  obtain r0 s' where call: "?call = (r0, s')" by (cases ?call)
  have "w_st w' = s'" "isl r0 \<longrightarrow> isl r" "\<And>m rs. r0 = Inr m \<Longrightarrow> r = Inr rs \<Longrightarrow> decodeWriteResponse lib (Some m) (length b) = Inr rs"
    using assms(2) call by (auto simp: writeBatch_def sinkClient_Write_def call_def stub_result_def direct_env_def
        split: sum.splits if_splits)
  with direct_call_executes [OF assms(1) call] show ?thesis
    by (cases r0; cases r; fastforce simp: write_answer_def)
qed

lemma deleteBatch_executes:
  assumes "keeps_data data lk" and "deleteBatch lib (direct_env lk h srv env) rpc config ctx mode b w = (r, w')"
  shows "(\<exists>ctx s out s1. data s = data (w_st w) \<and> srv_Delete srv ctx (Some (delete_request mode b)) s = (out, s1)
        \<and> data s1 = data (w_st w') \<and> (\<forall>rs. r = Inr rs \<longrightarrow> delete_answer lib b out rs))
    \<or> isl r \<and> data (w_st w') = data (w_st w)"
proof -
  let ?call = "direct_call lk (DeleteRequest_MarshalToSizedBufferVT h) (DeleteResponse_MarshalToSizedBufferVT h) DeleteResponse_fresh
    (srv_Delete srv) rpc ctx Sink_Delete_FullMethodName (delete_request mode b) (StaticMethod # cc_sinkCallOptions config) (w_st w)"
  obtain r0 s' where call: "?call = (r0, s')" by (cases ?call)
  have "w_st w' = s'" "isl r0 \<longrightarrow> isl r" "\<And>m rs. r0 = Inr m \<Longrightarrow> r = Inr rs \<Longrightarrow> decodeDeleteResponse lib (Some m) (length b) = Inr rs"
    using assms(2) call by (auto simp: deleteBatch_def sinkClient_Delete_def call_def stub_result_def direct_env_def
        split: sum.splits)
  with direct_call_executes [OF assms(1) call] show ?thesis
    by (cases r0; cases r; fastforce simp: delete_answer_def)
qed

interpretation write_executed: executed_batches
  "Write_loop lib (direct_env lk h srv env) rpc config ctx mode" "writeBatch lib (direct_env lk h srv env) rpc config ctx mode"
  remapWriteIndexes "cc_maxOperations config" "keeps_data dat lk" "\<lambda>w. dat (w_st w)" dat "srv_Write srv" "write_request mode"
  "write_answer lib"
  for lib :: "'v lib" and lk :: "('k, 'c, 'd, 's) link" and h srv env rpc config ctx mode and dat :: "'s \<Rightarrow> 't"
  by (unfold_locales, erule (1) writeBatch_executes)

interpretation delete_executed: executed_batches
  "Delete_loop lib (direct_env lk h srv env) rpc config ctx mode" "deleteBatch lib (direct_env lk h srv env) rpc config ctx mode"
  remapDeleteIndexes "cc_maxOperations config" "keeps_data dat lk" "\<lambda>w. dat (w_st w)" dat "srv_Delete srv" "delete_request mode"
  "delete_answer lib"
  for lib :: "'v lib" and lk :: "('k, 'c, 'd, 's) link" and h srv env rpc config ctx mode and dat :: "'s \<Rightarrow> 't"
  by (unfold_locales, erule (1) deleteBatch_executes)

lemma Write_executes:
  assumes "client_ok c" and "keeps_data data lk"
    and "Write lib (direct_env lk h srv env) (Some c) ctx mode ops w = Some ((rs, err), w')"
  shows "executed_as data (srv_Write srv) (write_request mode) (write_answer lib) remapWriteIndexes 0
    (chunks (nat (cc_maxOperations (cl_config c))) ops) (data (w_st w)) (data (w_st w')) rs err"
  using assms(3)
proof (cases rule: Write_unfold)
  case rejected
  then show ?thesis by (auto simp: executed_as_stop)
next
  case sent
  then show ?thesis by (rule write_executed.loop_executes [OF assms(2) client_ok_step [OF assms(1)]])
qed

lemma Delete_executes:
  assumes "client_ok c" and "keeps_data data lk"
    and "Delete lib (direct_env lk h srv env) (Some c) ctx mode addresses w = Some ((rs, err), w')"
  shows "executed_as data (srv_Delete srv) (delete_request mode) (delete_answer lib) remapDeleteIndexes 0
    (chunks (nat (cc_maxOperations (cl_config c))) (map delete_operation addresses)) (data (w_st w)) (data (w_st w')) rs err"
  using assms(3)
proof (cases rule: Delete_unfold)
  case rejected
  then show ?thesis by (auto simp: executed_as_stop)
next
  case sent
  then show ?thesis by (rule delete_executed.loop_executes [OF assms(2) client_ok_step [OF assms(1)]])
qed

end
