(* ===== verification/Sequential.thy ===== *)
theory Sequential
  imports Client_Read Client_Write
begin

text \<open>
  Abstract specifications of \<^verbatim>\<open>Write\<close> and \<^verbatim>\<open>Delete\<close>, which the client refines. For \<^verbatim>\<open>Write\<close> it is the documented service: the
  operations of a request with the same address are performed in request order, those with different addresses in any order, and a merge
  operation runs the program that its request declares under its digest; requests and operations may fail. For
  \<^verbatim>\<open>Delete\<close> it is a server that is a function from an operation and a state to a result
  and a state; \<open>serve\<close> runs it over a whole collection. The batched calls of \<^verbatim>\<open>client.go\<close> have the same
  effect and the same results as one run over the whole collection, whatever the batch size is and in whatever order the
  server lists its results.
\<close>

section \<open>A sequential server\<close>

fun serve :: "('o \<Rightarrow> 's \<Rightarrow> 'p \<times> 's) \<Rightarrow> 'o list \<Rightarrow> 's \<Rightarrow> 'p list \<times> 's" where
  "serve f [] s = ([], s)"
| "serve f (op # ops) s =
     (case f op s of (p, s1) \<Rightarrow> (case serve f ops s1 of (ps, s2) \<Rightarrow> (p # ps, s2)))"

lemma serve_Cons [simp]:
  "serve f (op # ops) s =
     (fst (f op s) # fst (serve f ops (snd (f op s))), snd (serve f ops (snd (f op s))))"
  by (simp split: prod.split)

declare serve.simps(2) [simp del]

lemma serve_append:
  "serve f (xs @ ys) s =
     (fst (serve f xs s) @ fst (serve f ys (snd (serve f xs s))), snd (serve f ys (snd (serve f xs s))))"
  by (induction xs arbitrary: s) auto

lemma serve_length [simp]: "length (fst (serve f ops s)) = length ops"
  by (induction ops arbitrary: s) auto

lemma serve_nth: "i < length ops \<Longrightarrow> \<exists>s'. fst (serve f ops s) ! i = fst (f (ops ! i) s')"
proof (induction ops arbitrary: s i)
  case (Cons op ops)
  then show ?case by (cases i) auto
qed simp

lemma serve_results: "p \<in> set (fst (serve f ops s)) \<Longrightarrow> \<exists>op\<in>set ops. \<exists>s'. p = fst (f op s')"
  by (metis in_set_conv_nth serve_length serve_nth)

lemma serve_map: "serve f (map g ops) s = serve (\<lambda>op. f (g op)) ops s"
  by (induction ops arbitrary: s) auto

text \<open>The results numbered from \<open>k\<close> on.\<close>

definition convert :: "(nat \<Rightarrow> 'p \<Rightarrow> 'r) \<Rightarrow> nat \<Rightarrow> 'p list \<Rightarrow> 'r list" where
  "convert conv k ps = map2 conv [k..<k + length ps] ps"

lemma convert_length [simp]: "length (convert conv k ps) = length ps"
  by (simp add: convert_def)

lemma convert_nth: "i < length ps \<Longrightarrow> convert conv k ps ! i = conv (k + i) (ps ! i)"
  by (simp add: convert_def)

lemma convert_append: "convert conv k (ps @ qs) = convert conv k ps @ convert conv (k + length ps) qs"
  by (intro nth_equalityI) (auto simp: convert_nth nth_append)

section \<open>The batched calls run the server once over the collection\<close>

locale sequential_batches = batch_loop loop step remap m
  for loop :: "'o list \<Rightarrow> int \<Rightarrow> 'r list \<Rightarrow> 's world \<Rightarrow> (('r list \<times> go_error option) \<times> 's world) option"
    and step :: "'o list \<Rightarrow> 's world \<Rightarrow> 'r list result \<times> 's world"
    and remap :: "'r list \<Rightarrow> int \<Rightarrow> 'r list"
    and m :: int +
  fixes ok :: bool and valid :: "'o \<Rightarrow> bool" and good :: "'p \<Rightarrow> bool"
    and srv :: "'o \<Rightarrow> 's \<Rightarrow> 'p \<times> 's" and conv :: "nat \<Rightarrow> 'p \<Rightarrow> 'r"
  assumes step_serves: "ok \<Longrightarrow> length b \<le> nat m \<Longrightarrow> \<forall>op\<in>set b. valid op \<Longrightarrow>
      \<exists>w1. step b w = (Inr (convert conv 0 (fst (serve srv b (w_st w)))), w1) \<and> w_st w1 = snd (serve srv b (w_st w))"
    and valid_good: "valid op \<Longrightarrow> good (fst (srv op s))"
    and remap_conv: "\<forall>p\<in>set ps. good p \<Longrightarrow> remap (convert conv 0 ps) (int k) = convert conv k ps"
begin

lemma run_serves:
  assumes ok and "\<forall>b\<in>set bs. length b \<le> nat m \<and> (\<forall>op\<in>set b. valid op)"
  shows "\<exists>w'. run_batches step remap start bs results w
      = ((results @ convert conv start (fst (serve srv (concat bs) (w_st w))), None), w')
    \<and> w_st w' = snd (serve srv (concat bs) (w_st w))"
  using assms(2)
proof (induction bs arbitrary: start results w)
  case Nil
  then show ?case by (simp add: convert_def)
next
  case (Cons b bs)
  let ?ps = "fst (serve srv b (w_st w))"
  obtain w1 where st: "step b w = (Inr (convert conv 0 ?ps), w1)" and s1: "w_st w1 = snd (serve srv b (w_st w))"
    using step_serves [OF assms(1), of b w] Cons.prems by auto
  have "\<forall>p\<in>set ?ps. good p" using Cons.prems valid_good by (fastforce dest: serve_results)
  then have rm: "remap (convert conv 0 ?ps) (int start) = convert conv start ?ps" by (rule remap_conv)
  from Cons.IH [of "start + length b" "results @ convert conv start ?ps" w1] Cons.prems
  show ?case by (simp add: st rm s1 serve_append convert_append)
qed

lemma loop_serves:
  assumes ok and "0 < m" and "\<forall>op\<in>set ops. valid op"
  shows "\<exists>w'. loop ops 0 [] w = Some ((convert conv 0 (fst (serve srv ops (w_st w))), None), w')
    \<and> w_st w' = snd (serve srv ops (w_st w))"
proof -
  have "\<forall>b\<in>set (chunks (nat m) ops). length b \<le> nat m \<and> (\<forall>op\<in>set b. valid op)"
  proof (intro ballI conjI)
    fix b assume b: "b \<in> set (chunks (nat m) ops)"
    then show "length b \<le> nat m" by (simp add: chunks_sizes)
    fix op assume "op \<in> set b"
    then have "op \<in> set (concat (chunks (nat m) ops))" using b by auto
    then show "valid op" using assms(2,3) by (simp add: concat_chunks)
  qed
  from run_serves [OF assms(1) this, of 0 "[]" w] show ?thesis
    using loop_run [OF assms(2), of ops 0 "[]" w] assms(2) by (simp add: concat_chunks)
qed

end

section \<open>A service that orders operations by address\<close>

text \<open>
  The documented execution of a request: the operations are performed one by one, and the next one may be any whose address no
  operation before it in the request still has. \<open>exec op s p s'\<close> is what performing one operation may do: it may fail, and operations
  that are folded into one commit may get the same revision. The results are in request order.
\<close>

inductive performs :: "('o \<Rightarrow> 'a) \<Rightarrow> ('o \<Rightarrow> 's \<Rightarrow> 'p \<Rightarrow> 's \<Rightarrow> bool) \<Rightarrow> 'o list \<Rightarrow> 's \<Rightarrow> 'p list \<Rightarrow> 's \<Rightarrow> bool"
  for addr exec where
  performs_none: "performs addr exec [] s [] s"
| performs_next: "performs addr exec (xs @ op # ys) s (ps @ p # qs) s2"
    if "addr op \<notin> addr ` set xs" and "exec op s p s1" and "performs addr exec (xs @ ys) s1 (ps @ qs) s2"
      and "length ps = length xs"

lemma performs_length: "performs addr exec ops s ps s' \<Longrightarrow> length ps = length ops"
  by (induction rule: performs.induct) auto

text \<open>Performing a list and then another is one way of performing both together.\<close>

lemma performs_append:
  assumes "performs addr exec xs s ps s1" and "performs addr exec ys s1 qs s2"
  shows "performs addr exec (xs @ ys) s (ps @ qs) s2"
  using assms
proof (induction rule: performs.induct)
  case (performs_next op xs s p s1 zs ps rs s2')
  then show ?case using performs.performs_next [of addr op xs exec s p s1 "zs @ ys" ps "rs @ qs"] by simp
qed simp

lemma performs_serve: "performs addr (\<lambda>op s p s'. f op s = (p, s')) ops s (fst (serve f ops s)) (snd (serve f ops s))"
proof (induction ops arbitrary: s)
  case (Cons op ops)
  then show ?case using performs_next [of addr op "[]" "\<lambda>op s p s'. f op s = (p, s')" s "fst (f op s)" "snd (f op s)" ops "[]"] by simp
qed (simp add: performs_none)

text \<open>
  Results that are the conversions of a list of the service's results, numbered from \<open>k\<close> on.
\<close>

definition converted :: "(nat \<Rightarrow> 'p \<Rightarrow> 'r result) \<Rightarrow> nat \<Rightarrow> 'p list \<Rightarrow> 'r list \<Rightarrow> bool" where
  "converted conv k ps rs \<longleftrightarrow> length rs = length ps \<and> (\<forall>i<length ps. conv (k + i) (ps ! i) = Inr (rs ! i))"

lemma converted_append:
  assumes "converted conv k ps rs" and "converted conv (k + length ps) qs ts"
  shows "converted conv k (ps @ qs) (rs @ ts)"
  unfolding converted_def
proof (intro conjI allI impI)
  fix i assume "i < length (ps @ qs)"
  then show "conv (k + i) ((ps @ qs) ! i) = Inr ((rs @ ts) ! i)"
    using assms(1) assms(2) [unfolded converted_def, THEN conjunct2, rule_format, of "i - length ps"]
    by (auto simp: converted_def nth_append)
qed (use assms in \<open>simp add: converted_def\<close>)

text \<open>
  When each batch that succeeds was performed, the batched call performs the whole collection, or the leading batches before one
  that fails.
\<close>

locale performed_batches = batch_loop loop step remap m
  for loop :: "'o list \<Rightarrow> int \<Rightarrow> 'r list \<Rightarrow> 's world \<Rightarrow> (('r list \<times> go_error option) \<times> 's world) option"
    and step :: "'o list \<Rightarrow> 's world \<Rightarrow> 'r list result \<times> 's world"
    and remap :: "'r list \<Rightarrow> int \<Rightarrow> 'r list"
    and m :: int +
  fixes ok :: bool and valid :: "'o set" and addr :: "'q \<Rightarrow> 'a" and exec :: "'q \<Rightarrow> 's \<Rightarrow> 'p \<Rightarrow> 's \<Rightarrow> bool"
    and operation :: "'o \<Rightarrow> 'q" and conv :: "nat \<Rightarrow> 'p \<Rightarrow> 'r result"
  assumes step_performs: "ok \<Longrightarrow> length b \<le> nat m \<Longrightarrow> set b \<subseteq> valid \<Longrightarrow> step b w = (Inr rs, w1) \<Longrightarrow>
      \<exists>ps. performs addr exec (map operation b) (w_st w) ps (w_st w1) \<and> converted conv 0 ps rs"
    and remap_converted: "converted conv 0 ps rs \<Longrightarrow> converted conv k ps (remap rs (int k))"
begin

lemma run_performs:
  assumes ok and "\<forall>b\<in>set bs. length b \<le> nat m \<and> set b \<subseteq> valid"
    and "run_batches step remap start bs results w = ((out, err), w')"
  shows "\<exists>j\<le>length bs. \<exists>ps rs w1. out = results @ rs \<and> performs addr exec (map operation (concat (take j bs))) (w_st w) ps (w_st w1)
    \<and> converted conv start ps rs
    \<and> (case err of None \<Rightarrow> j = length bs \<and> w' = w1 | Some e \<Rightarrow> j < length bs \<and> step (bs ! j) w1 = (Inl e, w'))"
  using assms(2,3)
proof (induction bs arbitrary: start results w)
  case Nil
  then show ?case by (auto simp: converted_def intro!: performs_none)
next
  case (Cons b bs)
  obtain r w1 where st: "step b w = (r, w1)" by (cases "step b w")
  show ?case
  proof (cases r)
    case (Inl e)
    then show ?thesis using Cons.prems(2) st
      by (intro exI [of _ 0]) (auto simp: converted_def intro!: performs_none exI [of _ "[]"] exI [of _ w])
  next
    case (Inr batch)
    have "length b \<le> nat m" "set b \<subseteq> valid" using Cons.prems(1) by simp_all
    from step_performs [OF assms(1) this st [unfolded Inr]] obtain ps where
      ps: "performs addr exec (map operation b) (w_st w) ps (w_st w1)" "converted conv 0 ps batch" by blast
    then have len: "length ps = length b" using performs_length by force
    have "run_batches step remap (start + length b) bs (results @ remap batch (int start)) w1 = ((out, err), w')"
      using Cons.prems(2) st Inr by simp
    with Cons.IH Cons.prems(1) obtain j qs rs w2 where j: "j \<le> length bs" "out = (results @ remap batch (int start)) @ rs"
        and qs: "performs addr exec (map operation (concat (take j bs))) (w_st w1) qs (w_st w2)"
          "converted conv (start + length b) qs rs"
        and e: "case err of None \<Rightarrow> j = length bs \<and> w' = w2 | Some e \<Rightarrow> j < length bs \<and> step (bs ! j) w2 = (Inl e, w')"
      by (metis list.set_intros(2))
    have "converted conv start (ps @ qs) (remap batch (int start) @ rs)"
      using converted_append [OF remap_converted [OF ps(2), of start], of qs rs] qs(2) len by simp
    then show ?thesis using j e performs_append [OF ps(1) qs(1)]
      by (intro exI [of _ "Suc j"]) (auto split: option.splits)
  qed
qed

lemma loop_performs:
  assumes ok and "0 < m" and "set ops \<subseteq> valid" and "loop ops 0 [] w = Some ((rs, err), w')"
  shows "\<exists>ps w1. performs addr exec (map operation (take (length rs) ops)) (w_st w) ps (w_st w1) \<and> converted conv 0 ps rs
    \<and> (case err of None \<Rightarrow> length rs = length ops \<and> w' = w1
       | Some e \<Rightarrow> length rs < length ops \<and> step (take (nat m) (drop (length rs) ops)) w1 = (Inl e, w'))"
proof -
  let ?bs = "chunks (nat m) ops"
  have run: "run_batches step remap 0 ?bs [] w = ((rs, err), w')"
    using loop_run [OF assms(2), of ops 0 "[]" w] assms(4) by simp
  have "length b \<le> nat m \<and> set b \<subseteq> valid" if "b \<in> set ?bs" for b
  proof
    show "length b \<le> nat m" using chunks_sizes [OF that] by simp
    have "set b \<subseteq> set (concat ?bs)" using that by auto
    then show "set b \<subseteq> valid" using assms(2,3) by (simp add: concat_chunks)
  qed
  with run_performs [OF assms(1) _ run] obtain j ps w1 where j: "j \<le> length ?bs"
      and p: "performs addr exec (map operation (concat (take j ?bs))) (w_st w) ps (w_st w1)" "converted conv 0 ps rs"
      and e: "case err of None \<Rightarrow> j = length ?bs \<and> w' = w1 | Some e \<Rightarrow> j < length ?bs \<and> step (?bs ! j) w1 = (Inl e, w')"
    by auto
  have n: "length rs = length (concat (take j ?bs))" using p performs_length by (force simp: converted_def)
  have whole: "concat ?bs = ops" using assms(2) by (simp add: concat_chunks)
  have "concat (take j ?bs) @ concat (drop j ?bs) = ops"
    by (metis whole append_take_drop_id concat_append)
  then have t: "take (length rs) ops = concat (take j ?bs)" "drop (length rs) ops = concat (drop j ?bs)"
    unfolding n by (metis append_eq_conv_conj)+
  have next_batch: "length rs < length ops \<and> take (nat m) (drop (length rs) ops) = ?bs ! j" if "j < length ?bs"
    using chunks_prefix [OF that] chunks_nth [OF that] n by simp
  show ?thesis using p e next_batch whole n t(1) by (auto split: option.splits)
qed

end

section \<open>Converted results\<close>

text \<open>
  The conversion of a server's result for operation \<open>i\<close>, and the renumbering of a batch's results: converting at another
  position is renumbering the converted result.
\<close>

locale result_conversion =
  fixes fromProto :: "nat \<Rightarrow> 'p \<Rightarrow> 'r result" and remap :: "'r list \<Rightarrow> int \<Rightarrow> 'r list"
  assumes fromProto_shift: "fromProto i p = Inr r \<Longrightarrow> fromProto (k + i) p = Inr (remap [r] (int k) ! 0)"
    and remap_nth: "i < length rs \<Longrightarrow> remap rs n ! i = remap [rs ! i] n ! 0"
    and remap_length: "length (remap rs n) = length rs"
begin

lemma conv_Inr:
  assumes "\<not> isl (fromProto 0 p)"
  shows "fromProto i p = Inr (projr (fromProto i p))"
    and "projr (fromProto (k + i) p) = remap [projr (fromProto i p)] (int k) ! 0"
proof -
  obtain r where r: "fromProto 0 p = Inr r" using assms by (cases "fromProto 0 p") auto
  then show i: "fromProto i p = Inr (projr (fromProto i p))" using fromProto_shift [OF r, of i] by simp
  show "projr (fromProto (k + i) p) = remap [projr (fromProto i p)] (int k) ! 0"
    using fromProto_shift [OF i, of k] by simp
qed

lemma remap_convert:
  assumes "\<forall>p\<in>set ps. \<not> isl (fromProto 0 p)"
  shows "remap (convert (\<lambda>i p. projr (fromProto i p)) 0 ps) (int k) = convert (\<lambda>i p. projr (fromProto i p)) k ps"
    (is "remap (convert ?conv 0 ps) _ = _")
proof (rule nth_equalityI)
  fix i assume "i < length (remap (convert ?conv 0 ps) (int k))"
  then have i: "i < length ps" by (simp add: remap_length)
  then have "remap (convert ?conv 0 ps) (int k) ! i = remap [?conv i (ps ! i)] (int k) ! 0"
    using remap_nth [of i "convert ?conv 0 ps"] by (simp add: convert_nth)
  then show "remap (convert ?conv 0 ps) (int k) ! i = convert ?conv k ps ! i"
    using i assms conv_Inr(2) [of "ps ! i" k i] by (simp add: convert_nth)
qed (simp add: remap_length)

end

section \<open>Writes\<close>

lemma unat_of_index: "i < 2 ^ 32 \<Longrightarrow> unat (of_nat i :: uint32w) = i"
  by (simp add: unsigned_of_nat take_bit_nat_eq_self)

text \<open>The results a server lists, numbered by their position in the request.\<close>

definition write_results :: "pbWriteResult list \<Rightarrow> pbWriteResult list" where
  "write_results ps = convert (\<lambda>i p. p\<lparr>pbWriteResult_OperationIndex := of_nat i\<rparr>) 0 ps"

text \<open>
  A merge operation may omit the source of its program when the request declares the program with its digest: the operation that
  is performed has that source. \<^const>\<open>None\<close> when there is no such declaration.
\<close>

fun declared_source :: "bytes \<Rightarrow> pbLuaProgram option list \<Rightarrow> bytes option" where
  "declared_source digest [] = None"
| "declared_source digest (None # ps) = declared_source digest ps"
| "declared_source digest (Some p # ps) =
     (if pbLuaProgram_Sha256 p = digest then Some (pbLuaProgram_Source p) else declared_source digest ps)"

definition with_source :: "pbWriteOperation \<Rightarrow> bytes \<Rightarrow> pbWriteOperation" where
  "with_source op src =
     (case pbWriteOperation_Action op of
        Some (WriteOperation_Merge (Some (Some merge))) \<Rightarrow>
          op\<lparr>pbWriteOperation_Action := Some (WriteOperation_Merge (Some (Some
            (merge\<lparr>pbMergeOperation_LuaProgram := map_option (\<lambda>p. p\<lparr>pbLuaProgram_Source := src\<rparr>) (pbMergeOperation_LuaProgram merge)\<rparr>))))\<rparr>
      | _ \<Rightarrow> op)"

definition expand :: "pbLuaProgram option list \<Rightarrow> pbWriteOperation \<Rightarrow> pbWriteOperation option" where
  "expand programs op =
     (case pbWriteOperation_Action op of
        Some (WriteOperation_Merge (Some (Some merge))) \<Rightarrow>
          (case pbMergeOperation_LuaProgram merge of
             None \<Rightarrow> None
           | Some p \<Rightarrow> if pbLuaProgram_Source p \<noteq> [] then Some op
               else map_option (with_source op) (declared_source (pbLuaProgram_Sha256 p) programs))
      | _ \<Rightarrow> Some op)"

definition op_address :: "pbWriteOperation \<Rightarrow> bytes option" where
  "op_address op = map_option pbRecordAddress_Uri (pbWriteOperation_Address op)"

text \<open>
  What is assumed of the service: when it answers a request in which every program is declared, then it has performed the operations
  with their programs, and it lists their results, each with the index of its operation, in any order. Of other
  requests, and of those it does not answer, nothing is said.
\<close>

definition write_service ::
  "('k, 'c, 's) env \<Rightarrow> int32w \<Rightarrow> (pbWriteOperation \<Rightarrow> 's \<Rightarrow> pbWriteResult \<Rightarrow> 's \<Rightarrow> bool) \<Rightarrow> bool" where
  "write_service env mode exec \<longleftrightarrow>
     (\<forall>k c name req ops opts s resp s'. pbWriteRequest_CompletionMode req = mode \<longrightarrow>
        map (\<lambda>x. Option.bind x (expand (pbWriteRequest_LuaPrograms req))) (pbWriteRequest_Operations req) = map Some ops \<longrightarrow>
        Invoke_Write env k c name req opts s = (Inr resp, s') \<longrightarrow>
        (\<exists>ps. performs op_address exec ops s ps s'
           \<and> mset (pbWriteResponse_Results resp) = mset (map Some (write_results ps))))"

text \<open>The operation of the client with its own program in full, and the programs of a collection.\<close>

definition full_operation :: "WriteOperation \<Rightarrow> pbWriteOperation" where
  "full_operation op = with_source (WriteOperation_toProto op) (lua_source (mo_program (wo_merge op)))"

definition merge_sources :: "WriteOperation set \<Rightarrow> bytes set" where
  "merge_sources ops = (\<lambda>op. lua_source (mo_program (wo_merge op))) ` {op \<in> ops. wo_action op = writeActionMerge}"

text \<open>Operations whose digests are those of their programs, and no two of whose programs have the same digest.\<close>

definition digests_ok :: "WriteOperation set \<Rightarrow> bool" where
  "digests_ok ops \<longleftrightarrow> inj_on Sum256 (merge_sources ops)
     \<and> (\<forall>op\<in>ops. wo_action op = writeActionMerge \<longrightarrow> merge_digest op = Sum256 (lua_source (mo_program (wo_merge op))))"

lemma digests_okD:
  assumes "digests_ok V" and "x \<in> V" and "y \<in> V" and "wo_action x = writeActionMerge" and "wo_action y = writeActionMerge"
    and "merge_digest x = merge_digest y"
  shows "lua_source (mo_program (wo_merge x)) = lua_source (mo_program (wo_merge y))"
proof (rule inj_onD)
  show "inj_on Sum256 (merge_sources V)" using assms(1) by (simp add: digests_ok_def)
  show "Sum256 (lua_source (mo_program (wo_merge x))) = Sum256 (lua_source (mo_program (wo_merge y)))"
    using assms unfolding digests_ok_def by metis
qed (use assms in \<open>auto simp: merge_sources_def\<close>)

lemma declared_source_lua_programs:
  assumes "digests_ok V" and "set ops \<subseteq> V" and "op \<in> set ops" and "wo_action op = writeActionMerge"
    and "merge_digest op \<notin> set seen"
  shows "declared_source (merge_digest op) (lua_programs seen ops) = Some (lua_source (mo_program (wo_merge op)))"
  using assms(2,3,5)
proof (induction ops arbitrary: seen)
  case (Cons x xs)
  show ?case
  proof (cases "wo_action x = writeActionMerge \<and> merge_digest x = merge_digest op")
    case True
    then have "lua_source (mo_program (wo_merge x)) = lua_source (mo_program (wo_merge op))"
      using digests_okD [OF assms(1), of x op] Cons.prems(1,2) assms(4) by auto
    then show ?thesis using True Cons.prems(3) by (simp add: merge_digest_def Let_def)
  next
    case False
    then have "op \<in> set xs" using Cons.prems(2) assms(4) by auto
    then show ?thesis using False Cons.IH [of seen] Cons.IH [of "merge_digest x # seen"] Cons.prems(1,3)
      by (auto simp: merge_digest_def Let_def)
  qed
qed simp

lemma digests_ok_validated:
  assumes "Write_validate_operations lib mode i ops = None" and "inj_on Sum256 (merge_sources (set ops))"
  shows "digests_ok (set ops)"
proof -
  have "merge_digest op = Sum256 (lua_source (mo_program (wo_merge op)))" if "op \<in> set ops" "wo_action op = writeActionMerge" for op
  proof -
    have "WriteOperation_validate lib op = None" using assms(1) that(1) by (simp add: Write_validate_operations_None)
    then have "LuaProgram_validate (mo_program (wo_merge op)) = None"
      using that(2) by (simp add: WriteOperation_validate_def split: option.splits)
    then show ?thesis by (simp add: merge_digest_def LuaProgram_validate_digest)
  qed
  then show ?thesis using assms(2) by (simp add: digests_ok_def)
qed

text \<open>Every batch declares the programs of its own merge operations.\<close>

lemma write_request_expands:
  assumes "digests_ok V" and "set b \<subseteq> V"
  shows "map (\<lambda>x. Option.bind x (expand (pbWriteRequest_LuaPrograms (write_request mode b)))) (pbWriteRequest_Operations (write_request mode b))
    = map Some (map full_operation b)"
proof -
  have "expand (lua_programs [] b) (WriteOperation_toProto op) = Some (full_operation op)" if op: "op \<in> set b" for op
  proof (cases "wo_action op = writeActionMerge")
    case True
    then show ?thesis using declared_source_lua_programs [OF assms op True, of "[]"]
      by (simp add: expand_def full_operation_def WriteOperation_toProto_def merge_digest_def)
  next
    case False
    then show ?thesis
      by (auto simp: expand_def full_operation_def with_source_def WriteOperation_toProto_def split: writeAction.splits)
  qed
  then show ?thesis by (simp add: write_request_def)
qed

lemma writeResultFromProto_ignores_index [simp]:
  "writeResultFromProto lib i (p\<lparr>pbWriteResult_OperationIndex := j\<rparr>) = writeResultFromProto lib i p"
  by (simp add: writeResultFromProto_def cong: sum.case_cong if_cong)

lemma remapWrite_converted:
  assumes "converted (writeResultFromProto lib) 0 ps rs"
  shows "converted (writeResultFromProto lib) k ps (remapWriteIndexes rs (int k))"
  unfolding converted_def
proof (intro conjI allI impI)
  show "length (remapWriteIndexes rs (int k)) = length ps" using assms by (simp add: converted_def)
  fix i assume i: "i < length ps"
  then have "writeResultFromProto lib i (ps ! i) = Inr (rs ! i)" "i < length rs" using assms by (simp_all add: converted_def)
  from writeResultFromProto_shift [OF this(1), of k] this(2)
  show "writeResultFromProto lib (k + i) (ps ! i) = Inr (remapWriteIndexes rs (int k) ! i)"
    by (simp add: remapWriteIndexes_def)
qed

lemma writeBatch_performs:
  fixes w :: "'s world" and env :: "('k, 'c, 's) env"
  assumes "write_service env mode exec \<and> cc_maxOperations config \<le> 2 ^ 32 \<and> digests_ok V"
    and "length b \<le> nat (cc_maxOperations config)" and "set b \<subseteq> V"
    and "writeBatch lib env rpc config ctx mode b w = (Inr rs, w1)"
  shows "\<exists>ps. performs op_address exec (map full_operation b) (w_st w) ps (w_st w1) \<and> converted (writeResultFromProto lib) 0 ps rs"
proof -
  let ?n = "length b"
  obtain resp where inv: "Invoke_Write env rpc ctx ''/sink.v1.Sink/Write'' (write_request mode b)
      (StaticMethod # cc_sinkCallOptions config) (w_st w) = (Inr resp, w_st w1)"
    and l: "length (pbWriteResponse_Results resp) = ?n"
    and d: "decodeWriteResults lib (pbWriteResponse_Results resp) (replicate ?n False) (replicate ?n empty_WriteResult) = Inr rs"
    using assms(4) by (auto simp: writeBatch_def sinkClient_Write_def stub_result_def call_def decodeWriteResponse_def
        split: prod.splits sum.splits if_splits)
  note expands = write_request_expands [OF conjunct2 [OF conjunct2 [OF assms(1)]] assms(3)]
  have "pbWriteRequest_CompletionMode (write_request mode b) = mode" by (simp add: write_request_def)
  with assms(1) expands inv obtain ps where ps: "performs op_address exec (map full_operation b) (w_st w) ps (w_st w1)"
      and ms: "mset (pbWriteResponse_Results resp) = mset (map Some (write_results ps))"
    unfolding write_service_def by blast
  have len: "length ps = ?n" using performs_length [OF ps] by simp
  have small: "?n \<le> 2 ^ 32" using assms(1,2) by auto
  note c = write_loop.decode_complete [OF d l]
  have "writeResultFromProto lib i (ps ! i) = Inr (rs ! i)" if i: "i < ?n" for i
  proof -
    obtain q where q: "Some q \<in> set (pbWriteResponse_Results resp)" "unat (pbWriteResult_OperationIndex q) = i"
      "writeResultFromProto lib i q = Inr (rs ! i)" using c(3) i by blast
    then have "q \<in> set (write_results ps)" using mset_eq_setD [OF ms] by auto
    then obtain j where j: "j < ?n" "q = (ps ! j)\<lparr>pbWriteResult_OperationIndex := of_nat j\<rparr>"
      by (auto simp: in_set_conv_nth write_results_def convert_nth len)
    then have "j = i" using q(2) small by (simp add: unat_of_index)
    then show ?thesis using q(3) j(2) by simp
  qed
  then show ?thesis using ps len c(1) by (auto simp: converted_def)
qed

text \<open>Conversely, a batch succeeds when its request is answered with results that can be read and lack no requested document.\<close>

lemma writeBatch_answered:
  assumes "Invoke_Write env rpc ctx ''/sink.v1.Sink/Write'' (write_request mode b)
      (StaticMethod # cc_sinkCallOptions config) (w_st w) = (Inr resp, s')"
    and ms: "mset (pbWriteResponse_Results resp) = mset (map Some (write_results ps))"
    and rs: "converted (writeResultFromProto lib) 0 ps rs" "length ps = length b" "length b \<le> 2 ^ 32"
    and "\<forall>i<length b. \<not> omits_document (b ! i) (rs ! i)"
  shows "\<exists>w1. writeBatch lib env rpc config ctx mode b w = (Inr rs, w1) \<and> w_st w1 = s'"
proof -
  let ?n = "length b"
  have "decodeWriteResults lib (pbWriteResponse_Results resp) (replicate ?n False) (replicate ?n empty_WriteResult) = Inr rs"
  proof (rule write_loop.decode_all [OF _ _ _ ms])
    show "\<forall>i<?n. unat (pbWriteResult_OperationIndex (write_results ps ! i)) = i
        \<and> writeResultFromProto lib i (write_results ps ! i) = Inr (rs ! i)"
      using rs by (auto simp: write_results_def convert_nth unat_of_index converted_def)
  qed (use rs in \<open>simp_all add: write_results_def converted_def\<close>)
  moreover have "length (pbWriteResponse_Results resp) = ?n"
    using mset_eq_length [OF ms] rs(2) by (simp add: write_results_def)
  moreover have "\<not> list_ex (\<lambda>(op, r). omits_document op r) (zip b rs)"
    using assms(6) by (auto simp: list_ex_iff in_set_zip)
  ultimately show ?thesis
    by (simp add: writeBatch_def sinkClient_Write_def stub_result_def call_def assms(1) decodeWriteResponse_def)
qed

text \<open>
  A service that answers every request for operations of \<open>V\<close>, and each of them with results that convert and have
  the document when it was requested.
\<close>

definition write_answering :: "'v lib \<Rightarrow> ('k, 'c, 's) env \<Rightarrow> int32w \<Rightarrow> WriteOperation set \<Rightarrow> bool" where
  "write_answering lib env mode V \<longleftrightarrow>
     (\<forall>k c name b opts s. set b \<subseteq> V \<longrightarrow>
        (\<exists>resp s'. Invoke_Write env k c name (write_request mode b) opts s = (Inr resp, s')
           \<and> (\<forall>p. Some p \<in> set (pbWriteResponse_Results resp) \<longrightarrow> unat (pbWriteResult_OperationIndex p) < length b \<longrightarrow>
                (\<exists>r. writeResultFromProto lib 0 p = Inr r \<and> \<not> omits_document (b ! unat (pbWriteResult_OperationIndex p)) r))))"

lemma writeBatch_succeeds:
  assumes ok: "write_service env mode exec \<and> cc_maxOperations config \<le> 2 ^ 32 \<and> digests_ok V"
    and b: "length b \<le> nat (cc_maxOperations config)" "set b \<subseteq> V" and ans: "write_answering lib env mode V"
  shows "\<not> isl (fst (writeBatch lib env rpc config ctx mode b w))"
proof -
  let ?n = "length b" and ?req = "write_request mode b"
  obtain resp s' where inv: "Invoke_Write env rpc ctx ''/sink.v1.Sink/Write'' ?req
      (StaticMethod # cc_sinkCallOptions config) (w_st w) = (Inr resp, s')"
    and good: "\<And>p. Some p \<in> set (pbWriteResponse_Results resp) \<Longrightarrow> unat (pbWriteResult_OperationIndex p) < ?n \<Longrightarrow>
        \<exists>r. writeResultFromProto lib 0 p = Inr r \<and> \<not> omits_document (b ! unat (pbWriteResult_OperationIndex p)) r"
    using ans b(2) unfolding write_answering_def by meson
  have "pbWriteRequest_CompletionMode ?req = mode" by (simp add: write_request_def)
  with ok write_request_expands [OF conjunct2 [OF conjunct2 [OF ok]] b(2)] inv
  obtain ps where ps: "performs op_address exec (map full_operation b) (w_st w) ps s'"
      and ms: "mset (pbWriteResponse_Results resp) = mset (map Some (write_results ps))"
    unfolding write_service_def by blast
  have len: "length ps = ?n" using performs_length [OF ps] by simp
  have small: "?n \<le> 2 ^ 32" using ok b(1) by auto
  have each: "\<exists>r. writeResultFromProto lib i (ps ! i) = Inr r \<and> \<not> omits_document (b ! i) r" if i: "i < ?n" for i
  proof -
    let ?p = "(ps ! i)\<lparr>pbWriteResult_OperationIndex := of_nat i\<rparr>"
    have "?p \<in> set (write_results ps)"
      using i len by (auto simp: in_set_conv_nth write_results_def convert_nth intro!: exI [of _ i])
    then have "Some ?p \<in> set (pbWriteResponse_Results resp)" using mset_eq_setD [OF ms] by auto
    moreover have "unat (pbWriteResult_OperationIndex ?p) = i" using i small by (simp add: unat_of_index)
    ultimately obtain r where "writeResultFromProto lib 0 (ps ! i) = Inr r" "\<not> omits_document (b ! i) r"
      using good [of ?p] i by auto
    then show ?thesis using writeResultFromProto_shift [of lib 0 "ps ! i" r i]
      by (auto simp: omits_document_def remapWriteIndexes_def)
  qed
  define rs where "rs = map (\<lambda>i. projr (writeResultFromProto lib i (ps ! i))) [0..<?n]"
  have rs: "writeResultFromProto lib i (ps ! i) = Inr (rs ! i) \<and> \<not> omits_document (b ! i) (rs ! i)" if "i < ?n" for i
    using each [OF that] that by (auto simp: rs_def)
  then have "converted (writeResultFromProto lib) 0 ps rs" by (simp add: converted_def len rs_def)
  from writeBatch_answered [OF inv ms this len small] rs show ?thesis by fastforce
qed

interpretation write_performed: performed_batches
  "Write_loop lib env rpc config ctx mode" "writeBatch lib env rpc config ctx mode" remapWriteIndexes "cc_maxOperations config"
  "write_service env mode exec \<and> cc_maxOperations config \<le> 2 ^ 32 \<and> digests_ok V" V op_address exec full_operation
  "writeResultFromProto lib"
  for lib :: "'v lib" and env :: "('k, 'c, 's) env" and rpc config ctx mode exec V
  by (unfold_locales, erule (3) writeBatch_performs, rule remapWrite_converted)

section \<open>Deletes\<close>

definition delete_results :: "pbDeleteResult list \<Rightarrow> pbDeleteResult list" where
  "delete_results ps = convert (\<lambda>i p. p\<lparr>pbDeleteResult_OperationIndex := of_nat i\<rparr>) 0 ps"

definition sequential_delete ::
  "('k, 'c, 's) env \<Rightarrow> int32w \<Rightarrow> (pbDeleteOperation \<Rightarrow> 's \<Rightarrow> pbDeleteResult \<times> 's) \<Rightarrow> bool" where
  "sequential_delete env mode srv \<longleftrightarrow>
     (\<forall>k c name req ops opts s. pbDeleteRequest_CompletionMode req = mode \<longrightarrow>
        pbDeleteRequest_Operations req = map Some ops \<longrightarrow>
        (\<exists>resp. Invoke_Delete env k c name req opts s = (Inr resp, snd (serve srv ops s))
           \<and> mset (pbDeleteResponse_Results resp) = mset (map Some (delete_results (fst (serve srv ops s))))))"

lemma sequential_deleteD:
  assumes "sequential_delete env mode srv" and "pbDeleteRequest_CompletionMode req = mode"
    and "pbDeleteRequest_Operations req = map Some ops"
  shows "\<exists>resp. Invoke_Delete env k c name req opts s = (Inr resp, snd (serve srv ops s))
    \<and> mset (pbDeleteResponse_Results resp) = mset (map Some (delete_results (fst (serve srv ops s))))"
  using assms unfolding sequential_delete_def by blast

definition delete_conv :: "'v lib \<Rightarrow> nat \<Rightarrow> pbDeleteResult \<Rightarrow> DeleteResult" where
  "delete_conv lib i p = projr (deleteResultFromProto lib i p)"

definition delete_well ::
  "'v lib \<Rightarrow> (pbDeleteOperation \<Rightarrow> 's \<Rightarrow> pbDeleteResult \<times> 's) \<Rightarrow> pbDeleteOperation \<Rightarrow> bool" where
  "delete_well lib srv op \<longleftrightarrow> (\<forall>s. \<not> isl (deleteResultFromProto lib 0 (fst (srv op s))))"

lemma deleteResultFromProto_ignores_index [simp]:
  "deleteResultFromProto lib i (p\<lparr>pbDeleteResult_OperationIndex := j\<rparr>) = deleteResultFromProto lib i p"
  by (simp add: deleteResultFromProto_def cong: sum.case_cong if_cong)

interpretation delete_conversion: result_conversion "deleteResultFromProto lib" remapDeleteIndexes for lib
  by unfold_locales (erule deleteResultFromProto_shift, simp_all add: remapDeleteIndexes_def)

lemmas delete_conv_facts =
  delete_conversion.conv_Inr [folded delete_conv_def] delete_conversion.remap_convert [folded delete_conv_def]

lemma deleteBatch_serves:
  fixes w :: "'s world" and env :: "('k, 'c, 's) env"
  assumes "sequential_delete env mode srv \<and> cc_maxOperations config \<le> 2 ^ 32" and "length b \<le> nat (cc_maxOperations config)"
    and "\<forall>op\<in>set b. delete_well lib srv op"
  defines "run \<equiv> serve srv b (w_st w)"
  shows "\<exists>w1. deleteBatch lib env rpc config ctx mode b w = (Inr (convert (delete_conv lib) 0 (fst run)), w1)
    \<and> w_st w1 = snd run"
proof -
  let ?n = "length b" and ?ps = "fst run"
  have len: "length ?ps = ?n" by (simp add: run_def)
  have small: "?n \<le> 2 ^ 32" using assms(1,2) by auto
  obtain resp where inv: "Invoke_Delete env rpc ctx ''/sink.v1.Sink/Delete'' (delete_request mode b)
      (StaticMethod # cc_sinkCallOptions config) (w_st w) = (Inr resp, snd run)"
    and ms: "mset (pbDeleteResponse_Results resp) = mset (map Some (delete_results ?ps))"
    using sequential_deleteD [of env mode srv "delete_request mode b" b rpc ctx
        "''/sink.v1.Sink/Delete''" "StaticMethod # cc_sinkCallOptions config" "w_st w"] assms(1)
    unfolding run_def by (auto simp: delete_request_def)
  have well: "\<not> isl (deleteResultFromProto lib 0 (?ps ! i))" if "i < ?n" for i
    using serve_nth [OF that, of srv "w_st w"] assms(3) that by (auto simp: delete_well_def run_def)
  have "decodeDeleteResults lib (pbDeleteResponse_Results resp) (replicate ?n False) (replicate ?n empty_DeleteResult)
      = Inr (convert (delete_conv lib) 0 ?ps)"
  proof (rule delete_loop.decode_all [OF _ _ _ ms])
    show "\<forall>i<?n. unat (pbDeleteResult_OperationIndex (delete_results ?ps ! i)) = i
        \<and> deleteResultFromProto lib i (delete_results ?ps ! i) = Inr (convert (delete_conv lib) 0 ?ps ! i)"
      using small len well by (auto simp: delete_results_def convert_nth unat_of_index intro: delete_conv_facts(1))
  qed (simp_all add: delete_results_def len)
  moreover have "length (pbDeleteResponse_Results resp) = ?n"
    using mset_eq_length [OF ms] by (simp add: delete_results_def len)
  ultimately show ?thesis
    by (simp add: deleteBatch_def sinkClient_Delete_def stub_result_def call_def inv decodeDeleteResponse_def)
qed

interpretation delete_seq: sequential_batches
  "Delete_loop lib env rpc config ctx mode" "deleteBatch lib env rpc config ctx mode" remapDeleteIndexes
  "cc_maxOperations config" "sequential_delete env mode srv \<and> cc_maxOperations config \<le> 2 ^ 32" "delete_well lib srv"
  "\<lambda>p. \<not> isl (deleteResultFromProto lib 0 p)" srv "delete_conv lib"
  for lib :: "'v lib" and env :: "('k, 'c, 's) env" and rpc config ctx mode srv
  by (unfold_locales, erule (2) deleteBatch_serves, simp add: delete_well_def, erule delete_conv_facts(3))

end
