(* ===== verification/Example_Server.thy ===== *)
theory Example_Server
  imports Sequential Dataset
begin

text \<open>
  A concrete environment on which the theorems about the client are exercised: a server that
  answers every well-formed request after its first \<open>n\<close> calls, whose number is the state of the
  world, and a context that is never done. Batch results come
  back in reverse order.
\<close>

definition ex_lib :: "unit lib" where
  "ex_lib = \<lparr>EnumStringOf = (\<lambda>enum v. enum), bson_Validate = (\<lambda>p. None), bson_Marshal = (\<lambda>v. Inr ''bson''),
     json_Marshal = (\<lambda>v. Inr ''{}''),
     status_Code = (\<lambda>e. if e = LibError ''unavailable'' then 14 else if e = LibError ''rejected'' then 8 else 2),
     status_Details = (\<lambda>e. if e = LibError ''rejected'' then [Some (''sink'', ''SCAN_ADMISSION_REJECTED'')] else []),
     status_FromContextError = (\<lambda>e. e)\<rparr>"

definition ex_answer_read :: "pbReadOperation option list \<Rightarrow> pbReadResponse" where
  "ex_answer_read ops = \<lparr>pbReadResponse_Results =
     rev (map (\<lambda>i. Some \<lparr>pbReadResult_OperationIndex = of_nat i, pbReadResult_Status = ReadNotFound,
       pbReadResult_Document = None, pbReadResult_Revision = None, pbReadResult_Failure = None,
       pbReadResult_unknownFields = []\<rparr>) [0..<length ops]),
     pbReadResponse_unknownFields = []\<rparr>"

definition ex_answer_write :: "pbWriteOperation option list \<Rightarrow> pbWriteResponse" where
  "ex_answer_write ops = \<lparr>pbWriteResponse_Results =
     rev (map (\<lambda>i. Some \<lparr>pbWriteResult_OperationIndex = of_nat i, pbWriteResult_Status = WriteApplied,
       pbWriteResult_Revision = None, pbWriteResult_Failure = None, pbWriteResult_Document = None,
       pbWriteResult_unknownFields = []\<rparr>) [0..<length ops]),
     pbWriteResponse_unknownFields = []\<rparr>"

definition ex_answer_delete :: "pbDeleteOperation option list \<Rightarrow> pbDeleteResponse" where
  "ex_answer_delete ops = \<lparr>pbDeleteResponse_Results =
     rev (map (\<lambda>i. Some \<lparr>pbDeleteResult_OperationIndex = of_nat i, pbDeleteResult_Status = DeleteApplied,
       pbDeleteResult_Failure = None, pbDeleteResult_unknownFields = []\<rparr>) [0..<length ops]),
     pbDeleteResponse_unknownFields = []\<rparr>"

definition ex_call :: "nat \<Rightarrow> 'a \<Rightarrow> nat \<Rightarrow> 'a result \<times> nat" where
  "ex_call n answer s = (if s < n then Inl (LibError ''unavailable'') else Inr answer, Suc s)"

definition ex_env :: "nat \<Rightarrow> (unit, unit, nat) env" where
  "ex_env n =
     \<lparr>Invoke_Read = (\<lambda>k c name req opts. ex_call n (ex_answer_read (pbReadRequest_Operations req))),
      Invoke_Write = (\<lambda>k c name req opts. ex_call n (ex_answer_write (pbWriteRequest_Operations req))),
      Invoke_Delete = (\<lambda>k c name req opts. ex_call n (ex_answer_delete (pbDeleteRequest_Operations req))),
      Invoke_Execute = (\<lambda>k c name req opts. ex_call n
        \<lparr>pbExecuteResponse_ContentType = ''application/json'', pbExecuteResponse_Payload = ''{}'',
         pbExecuteResponse_Success = True, pbExecuteResponse_StatusCode = 200,
         pbExecuteResponse_Headers = [], pbExecuteResponse_unknownFields = []\<rparr>),
      Invoke_Query = (\<lambda>k c name req opts. ex_call n
        \<lparr>pbQueryResponse_Documents = [], pbQueryResponse_HasMore = False, pbQueryResponse_unknownFields = []\<rparr>),
      Invoke_Count = (\<lambda>k c name req opts. ex_call n
        \<lparr>pbCountResponse_Count = 7, pbCountResponse_Estimated = False, pbCountResponse_unknownFields = []\<rparr>),
      Invoke_Scan = (\<lambda>k c name req opts s.
        (if s < n then Inl (LibError ''rejected'') else Inr
           \<lparr>pbScanResponse_Documents = [], pbScanResponse_NextCursor = [], pbScanResponse_unknownFields = []\<rparr>, Suc s)),
      Health_Check = (\<lambda>k c opts. ex_call n (Some 1)),
      conn_Close = (\<lambda>k s. (None, s)),
      done_before = (\<lambda>c d s. (False, s)),
      ctx_Err = (\<lambda>c s. None),
      WithTimeout = (\<lambda>c d s. c),
      rand_Float64 = (\<lambda>s. (Fin 0, s)),
      float_oob = (\<lambda>f. 0)\<rparr>"

definition ex_policy :: RetryPolicy where
  "ex_policy = \<lparr>rp_MaxAttempts = 3, rp_InitialBackoff = 1, rp_MaxBackoff = 1, rp_Multiplier = Fin 2, rp_Jitter = Fin 1\<rparr>"

definition ex_options :: ClientOptions where
  "ex_options = \<lparr>co_MaxOperations = 2, co_ReadRetry = ex_policy, co_ScanRetry = ex_policy, co_ScanTimeout = 0,
     co_MaxReceiveMessageBytes = 0, co_MaxSendMessageBytes = 0\<rparr>"

definition ex_client :: "unit Client" where
  "ex_client = (case New (Some ()) ex_options of Inr c \<Rightarrow> c)"

definition ex_world :: "nat world" where
  "ex_world = \<lparr>w_st = 0, w_trace = []\<rparr>"

definition ex_address :: "bytes \<Rightarrow> Address" where
  "ex_address name = \<lparr>Address_value = ''sink://s/r/'' @ name, Address_store = ''s'', Address_segments = [''r'', name]\<rparr>"

definition ex_names :: "bytes list" where
  "ex_names = [''a'', ''b'', ''c'']"

definition ex_addresses :: "Address list" where
  "ex_addresses = map ex_address ex_names"

definition ex_put :: "bytes \<Rightarrow> WriteOperation" where
  "ex_put name = \<lparr>wo_returnDocument = False, wo_address = ex_address name, wo_action = writeActionPut,
     wo_put = \<lparr>doc_encoding = DocumentEncodingJSON, doc_payload = ''{}''\<rparr>, wo_mode = WriteUpsert,
     wo_merge = empty_mergeOperation\<rparr>"

definition ex_puts :: "WriteOperation list" where
  "ex_puts = map ex_put ex_names"

definition ex_read_ops :: "pbReadOperation list" where
  "ex_read_ops = map read_operation ex_addresses"

definition ex_delete_ops :: "pbDeleteOperation list" where
  "ex_delete_ops = map delete_operation ex_addresses"

definition ex_not_found :: "int \<Rightarrow> ReadResult" where
  "ex_not_found i = \<lparr>rr_OperationIndex = i, rr_Status = ReadNotFound, rr_Document = empty_Document,
     rr_Revision = [], rr_Failure = None\<rparr>"

definition ex_written :: "int \<Rightarrow> WriteResult" where
  "ex_written i = \<lparr>wr_OperationIndex = i, wr_Status = WriteApplied, wr_Revision = [], wr_Failure = None,
     wr_Document = empty_Document\<rparr>"

definition ex_deleted :: "int \<Rightarrow> DeleteResult" where
  "ex_deleted i = \<lparr>dr_OperationIndex = i, dr_Status = DeleteApplied, dr_Failure = None\<rparr>"

text \<open>A server that answers every read with a retryable failure.\<close>

definition ex_busy_env :: "(unit, unit, nat) env" where
  "ex_busy_env = (ex_env 0)\<lparr>Invoke_Read := (\<lambda>k c name req opts s.
     (Inr \<lparr>pbReadResponse_Results = map (\<lambda>i. Some \<lparr>pbReadResult_OperationIndex = of_nat i,
        pbReadResult_Status = ReadFailed, pbReadResult_Document = None, pbReadResult_Revision = None,
        pbReadResult_Failure = Some \<lparr>pbFailure_Code = FailureUnavailable, pbFailure_Message = ''busy'',
          pbFailure_Retryable = True, pbFailure_unknownFields = []\<rparr>,
        pbReadResult_unknownFields = []\<rparr>) [0..<length (pbReadRequest_Operations req)],
       pbReadResponse_unknownFields = []\<rparr>, Suc s))\<rparr>"

definition ex_busy_result :: ReadResult where
  "ex_busy_result = \<lparr>rr_OperationIndex = 0, rr_Status = ReadFailed, rr_Document = empty_Document, rr_Revision = [],
     rr_Failure = Some \<lparr>oe_OperationIndex = 0, oe_Code = FailureUnavailable, oe_Message = ''busy'', oe_Retryable = True\<rparr>\<rparr>"

definition ex_busy_world :: "nat world" where
  "ex_busy_world = (let ev = EvRead (read_request [read_operation (ex_address ''a'')])
     in \<lparr>w_st = 3, w_trace = [ev, EvSleep 1, ev, EvSleep 1, ev]\<rparr>)"

section \<open>What the example does\<close>

lemma ex_valid:
  "Address_validate (ex_address ''a'') = None" "Address_validate (ex_address ''b'') = None"
  "Address_validate (ex_address ''c'') = None"
  by (subst Address_validate_canonical; simp add: ex_address_def canonical_def render_def ValidStore_def
      in_range_def validSegment_def alnum_def shouldEscape_def MaxAddressBytes_def)+

lemma ex_document_valid: "Document_validate ex_lib \<lparr>doc_encoding = DocumentEncodingJSON, doc_payload = ''{}''\<rparr> = None"
  by code_simp

lemma ex_client_config:
  "config_ok (cl_config ex_client)" "cl_rpc ex_client = Some ()" "cc_maxOperations (cl_config ex_client) = 2"
  "rp_MaxAttempts (cc_readRetry (cl_config ex_client)) = 3"
  "rp_MaxAttempts (cc_scanRetry (cl_config ex_client)) = 3"
  by code_simp+

lemma ex_client_ok: "client_ok ex_client"
  by code_simp

definition ex_read_world :: "nat world" where
  "ex_read_world = \<lparr>w_st = 3, w_trace = [EvRead (read_request (take 2 ex_read_ops)), EvSleep 1,
     EvRead (read_request (take 2 ex_read_ops)), EvRead (read_request (drop 2 ex_read_ops))]\<rparr>"

definition ex_write_world :: "nat world" where
  "ex_write_world = \<lparr>w_st = 2, w_trace = [EvWrite (write_request CompletionWaitUntilApplied (take 2 ex_puts)),
     EvWrite (write_request CompletionWaitUntilApplied (drop 2 ex_puts))]\<rparr>"

definition ex_delete_world :: "nat world" where
  "ex_delete_world = \<lparr>w_st = 2, w_trace = [EvDelete (delete_request CompletionWaitUntilApplied (take 2 ex_delete_ops)),
     EvDelete (delete_request CompletionWaitUntilApplied (drop 2 ex_delete_ops))]\<rparr>"

lemma ex_read_loop:
  "Read_loop ex_lib (ex_env 1) () (cl_config ex_client) () ex_read_ops 0 [] ex_world
    = Some (([ex_not_found 0, ex_not_found 1, ex_not_found 2], None), ex_read_world)"
  by code_simp

lemma ex_write_loop:
  "Write_loop ex_lib (ex_env 0) () (cl_config ex_client) () CompletionWaitUntilApplied ex_puts 0 [] ex_world
    = Some (([ex_written 0, ex_written 1, ex_written 2], None), ex_write_world)"
  by code_simp

lemma ex_delete_loop:
  "Delete_loop ex_lib (ex_env 0) () (cl_config ex_client) () CompletionWaitUntilApplied ex_delete_ops 0 [] ex_world
    = Some (([ex_deleted 0, ex_deleted 1, ex_deleted 2], None), ex_delete_world)"
  by code_simp

lemma ex_busy_run:
  "readOperationsWithRetry ex_lib ex_busy_env () (cl_config ex_client) () [read_operation (ex_address ''a'')] ex_world
    = (Inr [ex_busy_result], ex_busy_world)"
  by code_simp

lemma ex_validated:
  "validateCollection (Some ex_client) m (length ex_addresses) = None"
  "validateCollection (Some ex_client) m (length ex_puts) = None"
  "validate_addresses m 0 ex_addresses = None"
  "Write_validate_operations ex_lib CompletionWaitUntilApplied 0 ex_puts = None"
  by (simp_all add: validateCollection_def ex_client_config ex_addresses_def ex_puts_def ex_names_def ex_valid
      ex_put_def WriteOperation_validate_def ex_document_valid valid_write_mode_def)

lemmas ex_run_defs = ex_validated ex_client_config(2) validCompletionMode_def

lemma ex_read:
  "Read ex_lib (ex_env 1) (Some ex_client) () ex_addresses ex_world
    = Some (([ex_not_found 0, ex_not_found 1, ex_not_found 2], None), ex_read_world)"
  using ex_read_loop by (simp add: Read_def ex_run_defs ex_read_ops_def)

lemma ex_write:
  "Write ex_lib (ex_env 0) (Some ex_client) () CompletionWaitUntilApplied ex_puts ex_world
    = Some (([ex_written 0, ex_written 1, ex_written 2], None), ex_write_world)"
  using ex_write_loop by (simp add: Write_def ex_run_defs)

lemma ex_delete:
  "Delete ex_lib (ex_env 0) (Some ex_client) () CompletionWaitUntilApplied ex_addresses ex_world
    = Some (([ex_deleted 0, ex_deleted 1, ex_deleted 2], None), ex_delete_world)"
  using ex_delete_loop by (simp add: Delete_def ex_run_defs ex_delete_ops_def)

section \<open>A sequential server\<close>

text \<open>A server that counts the operations it applied and returns the count as the revision.\<close>

definition ex_srv :: "pbWriteOperation \<Rightarrow> nat \<Rightarrow> pbWriteResult \<times> nat" where
  "ex_srv op s = (\<lparr>pbWriteResult_OperationIndex = 0, pbWriteResult_Status = WriteApplied,
     pbWriteResult_Revision = Some \<lparr>pbRevisionToken_Data = [char_of s], pbRevisionToken_unknownFields = []\<rparr>,
     pbWriteResult_Failure = None, pbWriteResult_Document = None, pbWriteResult_unknownFields = []\<rparr>, Suc s)"

text \<open>A sequential server for deletes; the first one fails.\<close>

definition ex_delete_srv :: "pbDeleteOperation \<Rightarrow> nat \<Rightarrow> pbDeleteResult \<times> nat" where
  "ex_delete_srv op s = (\<lparr>pbDeleteResult_OperationIndex = 0,
     pbDeleteResult_Status = (if s = 0 then DeleteFailed else DeleteApplied),
     pbDeleteResult_Failure = (if s = 0 then Some \<lparr>pbFailure_Code = FailureNotFound, pbFailure_Message = ''gone'',
       pbFailure_Retryable = False, pbFailure_unknownFields = []\<rparr> else None),
     pbDeleteResult_unknownFields = []\<rparr>, Suc s)"

definition ex_delete_env :: "(unit, unit, nat) env" where
  "ex_delete_env = (ex_env 0)\<lparr>Invoke_Delete := (\<lambda>k c name req opts s.
     (case serve ex_delete_srv (map the (pbDeleteRequest_Operations req)) s of
        (ps, s') \<Rightarrow> (Inr \<lparr>pbDeleteResponse_Results = rev (map Some (delete_results ps)),
                       pbDeleteResponse_unknownFields = []\<rparr>, s')))\<rparr>"

lemma ex_delete_sequential: "sequential_delete ex_delete_env mode ex_delete_srv"
  by (auto simp: sequential_delete_def ex_delete_env_def comp_def split: prod.splits)

lemma ex_delete_well: "delete_well lib ex_delete_srv op"
  by (simp add: delete_well_def ex_delete_srv_def deleteResultFromProto_def operationFailure_def)

section \<open>A service that runs the declared programs\<close>

text \<open>
  It refuses a request with an undeclared program, performs the others in request order, and returns the source of each
  operation's program, with the count, as the revision.
\<close>

definition op_source :: "pbWriteOperation \<Rightarrow> bytes" where
  "op_source op =
     (case pbWriteOperation_Action op of
        Some (WriteOperation_Merge (Some (Some merge))) \<Rightarrow>
          (case pbMergeOperation_LuaProgram merge of None \<Rightarrow> [] | Some p \<Rightarrow> pbLuaProgram_Source p)
      | _ \<Rightarrow> [])"

definition ex_merge_srv :: "pbWriteOperation \<Rightarrow> nat \<Rightarrow> pbWriteResult \<times> nat" where
  "ex_merge_srv op s = (\<lparr>pbWriteResult_OperationIndex = 0, pbWriteResult_Status = WriteApplied,
     pbWriteResult_Revision = Some \<lparr>pbRevisionToken_Data = op_source op @ itoa s, pbRevisionToken_unknownFields = []\<rparr>,
     pbWriteResult_Failure = None, pbWriteResult_Document = None, pbWriteResult_unknownFields = []\<rparr>, Suc s)"

definition ex_merge_env :: "(unit, unit, nat) env" where
  "ex_merge_env = (ex_env 0)\<lparr>Invoke_Write := (\<lambda>k c name req opts s.
     (case those (map (\<lambda>x. Option.bind x (expand (pbWriteRequest_LuaPrograms req))) (pbWriteRequest_Operations req)) of
        None \<Rightarrow> (Inl (LibError ''undeclared program''), s)
      | Some ops \<Rightarrow> (case serve ex_merge_srv ops s of
          (ps, s') \<Rightarrow> (Inr \<lparr>pbWriteResponse_Results = rev (map Some (write_results ps)),
                       pbWriteResponse_unknownFields = []\<rparr>, s'))))\<rparr>"

lemma those_Somes: "those (map Some xs) = Some xs"
  by (induction xs) simp_all

lemma ex_merge_service: "write_service ex_merge_env mode (\<lambda>op s p s'. ex_merge_srv op s = (p, s'))"
  unfolding write_service_def
proof (intro allI impI)
  fix k c name opts s resp s' and req :: pbWriteRequest and ops
  assume ops: "map (\<lambda>x. Option.bind x (expand (pbWriteRequest_LuaPrograms req))) (pbWriteRequest_Operations req) = map Some ops"
    and run: "Invoke_Write ex_merge_env k c name req opts s = (Inr resp, s')"
  then have "s' = snd (serve ex_merge_srv ops s)" "pbWriteResponse_Results resp = rev (map Some (write_results (fst (serve ex_merge_srv ops s))))"
    by (auto simp: ex_merge_env_def those_Somes split: prod.splits)
  then show "\<exists>ps. performs op_address (\<lambda>op s p s'. ex_merge_srv op s = (p, s')) ops s ps s'
      \<and> mset (pbWriteResponse_Results resp) = mset (map Some (write_results ps))"
    using performs_serve [of op_address ex_merge_srv ops s] by auto
qed

definition ex_merge_op :: "bytes \<Rightarrow> WriteOperation" where
  "ex_merge_op name = (ex_put name)\<lparr>wo_action := writeActionMerge,
     wo_merge := \<lparr>mo_incoming = \<lparr>doc_encoding = DocumentEncodingJSON, doc_payload = ''{}''\<rparr>,
       mo_program = \<lparr>lua_source = ''return 1'', lua_sha256 = Sum256 ''return 1''\<rparr>\<rparr>\<rparr>"

definition ex_merges :: "WriteOperation list" where
  "ex_merges = map ex_merge_op ex_names"

lemma ex_merges_valid:
  "validateCollection (Some ex_client) m (length ex_merges) = None"
  "Write_validate_operations ex_lib CompletionWaitUntilApplied 0 ex_merges = None"
  by (simp_all add: validateCollection_def ex_client_config ex_merges_def ex_names_def ex_valid ex_put_def ex_merge_op_def
      WriteOperation_validate_def ex_document_valid LuaProgram_validate_def)

lemma ex_merge_sources: "merge_sources (set ex_merges) = {''return 1''}"
proof -
  have "{op \<in> set ex_merges. wo_action op = writeActionMerge} = ex_merge_op ` set ex_names"
    by (auto simp: ex_merges_def ex_merge_op_def)
  then show ?thesis by (simp add: merge_sources_def ex_merge_op_def image_image ex_names_def)
qed

definition ex_merged :: "nat \<Rightarrow> WriteResult" where
  "ex_merged i = (ex_written (int i))\<lparr>wr_Revision := ''return 1'' @ itoa i\<rparr>"

lemma ex_merge_batch:
  assumes "ns \<noteq> []" and "length ns \<le> 2 ^ 32"
  shows "\<exists>w1. writeBatch ex_lib ex_merge_env rpc config ctx mode (map ex_merge_op ns) w
    = (Inr (map (\<lambda>i. (ex_merged (i + w_st w))\<lparr>wr_OperationIndex := int i\<rparr>) [0..<length ns]), w1)
    \<and> w_st w1 = w_st w + length ns"
proof -
  let ?b = "map ex_merge_op ns" and ?ops = "map (\<lambda>n. full_operation (ex_merge_op n)) ns"
  let ?run = "serve ex_merge_srv ?ops (w_st w)"
  have "set ?b \<subseteq> set ?b" "digests_ok (set ?b)"
    by (auto simp: digests_ok_def merge_sources_def merge_digest_def ex_merge_op_def inj_on_def)
  from write_request_expands [OF this(2,1), of mode]
  have e: "map (\<lambda>x. Option.bind x (expand (pbWriteRequest_LuaPrograms (write_request mode ?b))))
      (pbWriteRequest_Operations (write_request mode ?b)) = map Some ?ops" by (simp add: comp_def)
  have inv: "Invoke_Write ex_merge_env rpc ctx ''/sink.v1.Sink/Write'' (write_request mode ?b)
      (StaticMethod # cc_sinkCallOptions config) (w_st w)
    = (Inr \<lparr>pbWriteResponse_Results = rev (map Some (write_results (fst ?run))), pbWriteResponse_unknownFields = []\<rparr>, snd ?run)"
    by (simp add: ex_merge_env_def e those_Somes del: map_map split: prod.split)
  have nth: "fst (serve ex_merge_srv (map (\<lambda>n. full_operation (ex_merge_op n)) ms) s) ! i
      = fst (ex_merge_srv (full_operation (ex_merge_op (ms ! i))) (s + i))" if "i < length ms" for i ms s
    using that
  proof (induction ms arbitrary: s i)
    case (Cons x xs)
    then show ?case by (cases i) (simp_all add: ex_merge_srv_def)
  qed simp
  have len: "snd (serve ex_merge_srv ops s) = s + length ops" for ops s
    by (induction ops arbitrary: s) (simp_all add: ex_merge_srv_def)
  have "writeResultFromProto ex_lib i (fst (ex_merge_srv (full_operation (ex_merge_op name)) j))
      = Inr ((ex_merged j)\<lparr>wr_OperationIndex := int i\<rparr>)" for i j name
    by (simp add: ex_merge_srv_def op_source_def full_operation_def with_source_def WriteOperation_toProto_def ex_merge_op_def
        writeResultFromProto_def revisionFromProto_def ex_written_def ex_merged_def)
  then have conv: "converted (writeResultFromProto ex_lib) 0 (fst ?run)
      (map (\<lambda>i. (ex_merged (i + w_st w))\<lparr>wr_OperationIndex := int i\<rparr>) [0..<length ns])"
    by (simp add: converted_def nth add.commute)
  show ?thesis
    using writeBatch_answered [OF inv _ conv] assms(2) by (auto simp: omits_document_def ex_merge_op_def ex_put_def len)
qed

lemma ex_merge_write:
  "\<exists>w'. Write ex_lib ex_merge_env (Some ex_client) () CompletionWaitUntilApplied ex_merges ex_world
     = Some (([ex_merged 0, ex_merged 1, ex_merged 2], None), w')"
proof -
  let ?step = "writeBatch ex_lib ex_merge_env () (cl_config ex_client) () CompletionWaitUntilApplied"
  obtain w1 where w1: "?step (map ex_merge_op [''a'', ''b'']) ex_world
      = (Inr [ex_merged 0, ex_merged 1], w1)" "w_st w1 = 2"
    using ex_merge_batch [of "[''a'', ''b'']" "()" "cl_config ex_client" "()" CompletionWaitUntilApplied ex_world]
    by (auto simp: ex_world_def ex_merged_def ex_written_def upt_rec)
  obtain w2 where w2: "?step (map ex_merge_op [''c'']) w1 = (Inr [(ex_merged 2)\<lparr>wr_OperationIndex := 0\<rparr>], w2)"
    using ex_merge_batch [of "[''c'']" "()" "cl_config ex_client" "()" CompletionWaitUntilApplied w1] w1(2)
    by (auto simp: numeral_2_eq_2)
  have "chunks 2 ex_merges = [map ex_merge_op [''a'', ''b''], map ex_merge_op [''c'']]"
    by (simp add: ex_merges_def ex_names_def chunks_step)
  then have "Write_loop ex_lib ex_merge_env () (cl_config ex_client) () CompletionWaitUntilApplied ex_merges 0 [] ex_world
      = Some (([ex_merged 0, ex_merged 1, ex_merged 2], None), w2)"
    using write_batches.loop_run [of "cl_config ex_client" ex_lib ex_merge_env "()" "()" CompletionWaitUntilApplied ex_merges 0 "[]" ex_world] w1 w2
    by (simp add: ex_client_config remapWriteIndexes_def shift_failure_def ex_merged_def ex_written_def)
  then show ?thesis by (simp add: Write_def ex_merges_valid ex_run_defs)
qed

section \<open>The example server is honest\<close>

lemma ex_honest:
  "honest_read (ex_env n) (\<lambda>op p. pbReadResult_Status p = ReadNotFound)"
  "honest_write (ex_env n) (\<lambda>op p. pbWriteResult_Status p = WriteApplied)"
  "honest_delete (ex_env n) (\<lambda>op p. pbDeleteResult_Status p = DeleteApplied)"
  by (auto simp: honest_def ex_env_def ex_call_def ex_answer_read_def ex_answer_write_def ex_answer_delete_def)

section \<open>Native commands\<close>

definition ex_native :: Command where
  "ex_native = empty_Command\<lparr>cmd_URI := ''sink://s'', cmd_Method := ''POST'', cmd_Headers := [(''b'', [''1''])]\<rparr>"

definition ex_query :: QueryRequest where
  "ex_query = \<lparr>qr_Command = ex_native, qr_Page = 0, qr_PageSize = 10, qr_Sort = [], qr_Projection = None\<rparr>"

definition ex_scan :: ScanRequest where
  "ex_scan = \<lparr>sr_Command = ex_native, sr_BatchSize = 10, sr_Cursor = [], sr_Projection = None\<rparr>"

lemma ex_native_ok: "\<exists>p. Command_toProto lib ex_native = Inr p"
proof -
  have "canonical \<lparr>Address_value = ''sink://s'', Address_store = ''s'', Address_segments = []\<rparr>"
    by (simp add: canonical_def render_def ValidStore_def in_range_def MaxAddressBytes_def)
  from canonical_Parse [OF this] show ?thesis
    by (intro Command_toProto_InrI) (auto simp: ex_native_def empty_Command_def check_content_type_def header_ok_def
        EqualFold_def)
qed

lemma ex_execute: "\<exists>resp w'. Execute ex_lib (ex_env 0) (Some ex_client) () ex_native ex_world = ((resp, None), w')"
  using ex_native_ok [of ex_lib]
  by (auto simp: Execute_def rpc_of_def ex_client_config stub_defs stub_result_def call_def ex_env_def ex_call_def
      Let_def)

text \<open>The first request is rejected, the second one is answered.\<close>

lemma ex_scan_calls:
  "ctx_Err (ex_env n) () s = None" "WithTimeout (ex_env n) () timeout s = ()"
  "sinkClient_Scan (ex_env n) () () request opts \<lparr>w_st = s, w_trace = t\<rparr> =
     (if s < n then Inl (LibError ''rejected'')
      else Inr (Some \<lparr>pbScanResponse_Documents = [], pbScanResponse_NextCursor = [], pbScanResponse_unknownFields = []\<rparr>),
      \<lparr>w_st = Suc s, w_trace = t @ [EvScan request]\<rparr>)"
  "\<exists>d. backoff_wait (ex_env n) () b j \<lparr>w_st = s, w_trace = t\<rparr> = (None, \<lparr>w_st = s, w_trace = t @ [EvSleep d]\<rparr>)"
  by (auto simp: ex_env_def stub_defs stub_result_def call_def backoff_wait_def waitForBackoff_def draw_backoff_def)

lemma ex_rejected: "retryableScanAdmission ex_lib (LibError ''rejected'')"
  by (simp add: retryableScanAdmission_def ex_lib_def)

lemma ex_scanned:
  "\<exists>w'. Scan ex_lib (ex_env 1) (Some ex_client) () ex_scan ex_world = ((empty_ScanResponse, None), w')"
proof -
  obtain request where req: "scan_request ex_lib ex_scan = Inr request"
    using ex_native_ok [of ex_lib] by (auto simp: scan_request_def ex_scan_def Projection_toProto_def maxCursorBytes_def)
  let ?retry = "cc_scanRetry (cl_config ex_client)"
  obtain d where wait: "backoff_wait (ex_env 1) () (rp_InitialBackoff ?retry) (rp_Jitter ?retry)
      \<lparr>w_st = Suc 0, w_trace = [EvScan request]\<rparr> = (None, \<lparr>w_st = Suc 0, w_trace = [EvScan request, EvSleep d]\<rparr>)"
    using ex_scan_calls(4) [of 1 "rp_InitialBackoff ?retry" "rp_Jitter ?retry" "Suc 0" "[EvScan request]"] by auto
  have "scanAttempts ex_lib (ex_env 1) () (cl_config ex_client) () request 1 (rp_InitialBackoff ?retry) None None ex_world
      = (Inr (Some \<lparr>pbScanResponse_Documents = [], pbScanResponse_NextCursor = [], pbScanResponse_unknownFields = []\<rparr>, None),
         \<lparr>w_st = 2, w_trace = [EvScan request, EvSleep d, EvScan request]\<rparr>)"
    by (simp add: scanAttempts.simps [where attempt = 1] scanAttempts.simps [where attempt = 2]
        ex_client_config ex_scan_calls(1-3) ex_world_def ex_rejected wait [simplified] Let_def)
  moreover have size: "sr_BatchSize ex_scan = 10" by (simp add: ex_scan_def)
  ultimately show ?thesis
    by (simp add: Scan_def rpc_of_def ex_client_config req ex_scan_calls(2) Let_def scan_page_def
        empty_ScanResponse_def size)
qed

definition ex_dataset :: "unit Dataset" where
  "ex_dataset = \<lparr>ds_client = Some ex_client, ds_uri = ''sink://s/r'', ds_encoding = DocumentEncodingJSON,
     ds_mergeProgram = empty_LuaProgram, ds_hasMergeProgram = False\<rparr>"

definition ex_records :: "unit Record list" where
  "ex_records = [\<lparr>rec_Key = sink_StringKey ''1'', rec_Value = (), rec_ReturnDocument = False\<rparr>]"

definition ex_upserts :: "WriteOperation list" where
  "ex_upserts = [(ex_put [])\<lparr>wo_address := \<lparr>Address_value = ''sink://s/r/s:1'', Address_store = ''s'',
     Address_segments = [''r'', ''s:1'']\<rparr>\<rparr>]"

definition ex_reads :: "pbReadOperation list" where
  "ex_reads = map (read_operation \<circ> wo_address) ex_upserts"

lemma ex_dataset_fields:
  "ds_client ex_dataset = Some ex_client" "ds_uri ex_dataset = ''sink://s/r''"
  "ds_encoding ex_dataset = DocumentEncodingJSON" "Dataset_validate (Some ex_dataset) operation = None"
  by (simp_all add: ex_dataset_def Dataset_validate_def rpc_of_def ex_client_config)

lemma ex_record_address:
  "Address_validate \<lparr>Address_value = ''sink://s/r/s:1'', Address_store = ''s'', Address_segments = [''r'', ''s:1'']\<rparr> = None"
  by (rule NewRecordAddress_valid [OF NewRecordAddress_example(1)])

lemma ex_record_operations:
  "record_operations ex_lib ex_dataset ''upsert'' (\<lambda>a doc. NewPut ex_lib a doc WriteUpsert) 0 ex_records = Inr ex_upserts"
proof -
  have "NewDocument ex_lib () DocumentEncodingJSON = Inr \<lparr>doc_encoding = DocumentEncodingJSON, doc_payload = ''{}''\<rparr>"
    using ex_document_valid by (simp add: NewDocument_def NewRawDocument_def ex_lib_def)
  then show ?thesis
    by (simp add: ex_records_def ex_upserts_def ex_put_def encodeRecord_def ex_dataset_fields NewRecordAddress_example
        NewPut_def ex_record_address ex_document_valid valid_write_mode_def)
qed

lemma ex_upsert_loop:
  "map_option fst (Write_loop ex_lib (ex_env 0) () (cl_config ex_client) () CompletionWaitUntilApplied ex_upserts 0 [] ex_world)
    = Some ([ex_written 0], None)"
  by code_simp

lemma ex_upsert:
  "\<exists>w'. Dataset_Upsert ex_lib (ex_env 0) (Some ex_dataset) () CompletionWaitUntilApplied ex_records ex_world
      = Some (([ex_written 0], None), w')"
proof -
  have "validateCollection (Some ex_client) ''write'' (length ex_upserts) = None"
    by (simp add: validateCollection_def ex_client_config ex_upserts_def)
  moreover have "Write_validate_operations ex_lib CompletionWaitUntilApplied 0 ex_upserts = None"
    using put_operations_valid [OF ex_record_operations] by (simp add: Write_validate_operations_None)
  moreover have "WriteResultsError [ex_written 0] = None"
    by (simp add: WriteResultsError_def ex_written_def newBatchError_def)
  ultimately show ?thesis
    using ex_upsert_loop
    by (auto simp: Dataset_Upsert_def Dataset_put_def ex_dataset_fields ex_record_operations Dataset_write_def
        Write_def ex_run_defs dataset_error_def)
qed

lemma ex_busy_loop:
  "map_option fst (Read_loop ex_lib ex_busy_env () (cl_config ex_client) () ex_reads 0 [] ex_world)
    = Some ([ex_busy_result], None)"
  by code_simp

lemma ex_busy_dataset:
  "\<exists>err w'. Dataset_Read ex_lib ex_busy_env (Some ex_dataset) () [sink_StringKey ''1''] ex_world
      = Some (([ex_busy_result], err), w')"
proof -
  have "validateCollection (Some ex_client) ''read'' 1 = None"
    by (simp add: validateCollection_def ex_client_config)
  then show ?thesis
    using ex_busy_loop
    by (auto simp: Dataset_Read_def ex_dataset_fields NewRecordAddress_example Read_def ex_record_address
        ex_client_config ex_reads_def ex_upserts_def)
qed

end
