(* ===== verification/Example_Service.thy ===== *)
theory Example_Service
  imports Service_Effects Example_Server
begin

text \<open>
  A service behind a wire, on which the theorems about the composition are exercised: it embeds the default implementation and
  has a \<^verbatim>\<open>Write\<close> that applies the operations one after the other. The link refuses large messages and cuts the others in two, and
  the server has an interceptor that passes everything on.
\<close>

text \<open>The environment in which gRPC carries every call to a service.\<close>

definition wire_env ::
  "('k, 'c, 'd, 's) link \<Rightarrow> protohelpers \<Rightarrow> ('d, 's) SinkServer \<Rightarrow> ('k, 'c, 's) env \<Rightarrow> ('k, 'c, 's) env" where
  "wire_env lk h srv env = env
     \<lparr>Invoke_Read := (\<lambda>k c name req opts s. case unary_call lk (serve_call lk h srv) ''*sinkv1.ReadRequest'' ''*sinkv1.ReadResponse''
        (ReadResponse_message h ReadResponse_fresh) k c name (ReadRequest_message h req) opts s of
        None \<Rightarrow> (Inl (LibError ''panic''), s) | Some r \<Rightarrow> r),
      Invoke_Write := (\<lambda>k c name req opts s. case unary_call lk (serve_call lk h srv) ''*sinkv1.WriteRequest'' ''*sinkv1.WriteResponse''
        (WriteResponse_message h WriteResponse_fresh) k c name (WriteRequest_message h req) opts s of
        None \<Rightarrow> (Inl (LibError ''panic''), s) | Some r \<Rightarrow> r),
      Invoke_Delete := (\<lambda>k c name req opts s. case unary_call lk (serve_call lk h srv) ''*sinkv1.DeleteRequest'' ''*sinkv1.DeleteResponse''
        (DeleteResponse_message h DeleteResponse_fresh) k c name (DeleteRequest_message h req) opts s of
        None \<Rightarrow> (Inl (LibError ''panic''), s) | Some r \<Rightarrow> r),
      Invoke_Execute := (\<lambda>k c name req opts s. case unary_call lk (serve_call lk h srv) ''*sinkv1.ExecuteRequest'' ''*sinkv1.ExecuteResponse''
        (ExecuteResponse_message h ExecuteResponse_fresh) k c name (ExecuteRequest_message h req) opts s of
        None \<Rightarrow> (Inl (LibError ''panic''), s) | Some r \<Rightarrow> r),
      Invoke_Query := (\<lambda>k c name req opts s. case unary_call lk (serve_call lk h srv) ''*sinkv1.QueryRequest'' ''*sinkv1.QueryResponse''
        (QueryResponse_message h QueryResponse_fresh) k c name (QueryRequest_message h req) opts s of
        None \<Rightarrow> (Inl (LibError ''panic''), s) | Some r \<Rightarrow> r),
      Invoke_Count := (\<lambda>k c name req opts s. case unary_call lk (serve_call lk h srv) ''*sinkv1.CountRequest'' ''*sinkv1.CountResponse''
        (CountResponse_message h CountResponse_fresh) k c name (CountRequest_message h req) opts s of
        None \<Rightarrow> (Inl (LibError ''panic''), s) | Some r \<Rightarrow> r),
      Invoke_Scan := (\<lambda>k c name req opts s. case unary_call lk (serve_call lk h srv) ''*sinkv1.ScanRequest'' ''*sinkv1.ScanResponse''
        (ScanResponse_message h ScanResponse_fresh) k c name (ScanRequest_message h req) opts s of
        None \<Rightarrow> (Inl (LibError ''panic''), s) | Some r \<Rightarrow> r)\<rparr>"

lemma wire_env_carries: "carries lk h srv (wire_env lk h srv env)"
  by (simp add: carries_def wire_env_def)

lemma direct_wire_env: "direct_env lk h srv (wire_env lk h srv env) = direct_env lk h srv env"
  by (simp add: direct_env_def wire_env_def)

definition ex_cut :: "bytes \<Rightarrow> 's \<Rightarrow> bytes list result \<times> 's" where
  "ex_cut b s = (if length b < 400 then Inr [take 3 b, drop 3 b] else Inl (LibError ''message too large''), s)"

definition ex_link :: "(unit, unit, unit, nat) link" where
  "ex_link = \<lparr>lk_pooling = (\<lambda>n. n < 1024), lk_send = (\<lambda>k c name opts. ex_cut), lk_context = (\<lambda>k c s. ()),
     lk_interceptor = Some (\<lambda>ctx any info handler s. handler ctx any s), lk_answer = (\<lambda>k c name opts. ex_cut),
     lk_status = (\<lambda>k c opts err s. (err, s)), lk_codec_error = (\<lambda>err. WrapError ''grpc: '' err),
     lk_unknown_method = LibError\<rparr>"

lemma ex_link_ok: "link_ok ex_link" "transparent (lk_interceptor ex_link)"
  by (auto simp: link_ok_def ex_link_def ex_cut_def transparent_def split: if_splits)

definition ex_service :: "(unit, nat) SinkServer" where
  "ex_service = (UnimplementedSinkServer (\<lambda>code. LibError))
     \<lparr>srv_Write := (\<lambda>ctx req s. case req of
        None \<Rightarrow> (Inl (LibError ''nil''), s)
      | Some r \<Rightarrow> (case serve ex_srv (map the (pbWriteRequest_Operations r)) s of
          (ps, s') \<Rightarrow> (Inr (Some \<lparr>pbWriteResponse_Results = rev (map Some (write_results ps)),
             pbWriteResponse_unknownFields = []\<rparr>), s')))\<rparr>"

lemma ex_service_wf: "service_wf h ex_service"
proof -
  have "WriteResponse_wf h \<lparr>pbWriteResponse_Results = rev (map Some (write_results ps)),
      pbWriteResponse_unknownFields = []\<rparr>" if run: "serve ex_srv ops s = (ps, s')" for ops s ps s'
  proof -
    have "WriteResult_wf h p" if p: "p \<in> set (write_results ps)" for p
    proof -
      obtain i q where "q \<in> set ps" "p = q\<lparr>pbWriteResult_OperationIndex := i\<rparr>"
        using p by (auto simp: write_results_def convert_def dest: set_zip_rightD)
      then show ?thesis
        using serve_results [of q ex_srv ops s] run
        by (auto simp: ex_srv_def WriteResult_wf_def RevisionToken_wf_def)
    qed
    then show ?thesis by (auto simp: WriteResponse_wf_def each_ok_def list_all_iff)
  qed
  then show ?thesis
    by (auto simp: service_wf_def answers_wf_def ex_service_def UnimplementedSinkServer_def split: option.splits prod.splits)
qed

lemma ex_wire_loop:
  "map_option (map_prod id w_st)
     (Write_loop ex_lib (direct_env ex_link ex_helpers ex_service (ex_env 0)) () (cl_config ex_client) ()
        CompletionWaitUntilApplied ex_puts 0 [] ex_world)
    = Some ((map (\<lambda>i. (ex_written (int i))\<lparr>wr_Revision := [char_of i]\<rparr>) [0, 1, 2], None), 3)"
  by code_simp

text \<open>A link that loses the answer to the second batch.\<close>

definition ex_lossy_link :: "(unit, unit, unit, nat) link" where
  "ex_lossy_link = ex_link\<lparr>lk_answer := (\<lambda>k c name opts b s. if s = 3 then (Inl (LibError ''connection lost''), s) else ex_cut b s)\<rparr>"

lemma ex_lossy_link_ok:
  "link_ok ex_lossy_link" "transparent (lk_interceptor ex_lossy_link)" "keeps_data id ex_lossy_link"
  by (auto simp: link_ok_def keeps_data_def ex_lossy_link_def ex_link_def ex_cut_def transparent_def split: if_splits)

lemma ex_lossy_loop:
  "map_option (map_prod (map_prod length (\<lambda>e. e \<noteq> None)) w_st)
     (Write_loop ex_lib (direct_env ex_lossy_link ex_helpers ex_service (ex_env 0)) () (cl_config ex_client) ()
        CompletionWaitUntilApplied ex_puts 0 [] ex_world)
    = Some ((2, True), 3)"
  by code_simp

end
