(* ===== verification/Go_Net.thy ===== *)
theory Go_Net
  imports Go_Strings
begin

text \<open>
  The part of Go's \<^verbatim>\<open>net\<close> and \<^verbatim>\<open>net/netip\<close> packages the DNS resolver uses: the host part of
  \<^verbatim>\<open>net.SplitHostPort\<close>, and whether \<^verbatim>\<open>netip.ParseAddr\<close> accepts a string. Only success and the host matter to the
  caller, so error texts are dropped.
\<close>

section \<open>Host and port\<close>

text \<open>The position of the first and of the last occurrence of a byte.\<close>

fun IndexByte :: "char \<Rightarrow> bytes \<Rightarrow> nat option" where
  "IndexByte c [] = None"
| "IndexByte c (x # xs) = (if x = c then Some 0 else map_option Suc (IndexByte c xs))"

definition LastIndexByte :: "char \<Rightarrow> bytes \<Rightarrow> nat option" where
  "LastIndexByte c s = map_option (\<lambda>i. length s - 1 - i) (IndexByte c (rev s))"

definition SplitHost :: "bytes \<Rightarrow> bytes option" where
  "SplitHost hostport =
     (case LastIndexByte (CHR '':'') hostport of
        None \<Rightarrow> None
      | Some i \<Rightarrow>
          if hostport ! 0 = CHR ''['' then
            (case IndexByte (CHR '']'') hostport of
               None \<Rightarrow> None
             | Some e \<Rightarrow>
                 if e + 1 \<noteq> i then None
                 else if CHR ''['' \<in> set (drop 1 hostport) \<or> CHR '']'' \<in> set (drop (e + 1) hostport) then None
                 else Some (take (e - 1) (drop 1 hostport)))
          else if CHR '':'' \<in> set (take i hostport) then None
          else if CHR ''['' \<in> set hostport \<or> CHR '']'' \<in> set hostport then None
          else Some (take i hostport))"

text \<open>\<^verbatim>\<open>strings.Trim(s, "[]")\<close>.\<close>

definition TrimBrackets :: "bytes \<Rightarrow> bytes" where
  "TrimBrackets s =
     (let bracket = (\<lambda>c. c = CHR ''['' \<or> c = CHR '']'')
      in rev (dropWhile bracket (rev (dropWhile bracket s))))"

section \<open>IP literals\<close>

text \<open>
  One dotted field list: \<open>val\<close> and \<open>digits\<close> are the value and the length of the current field, \<open>pos\<close> the number
  of fields before it.
\<close>

fun ipv4_fields :: "nat \<Rightarrow> nat \<Rightarrow> nat \<Rightarrow> bytes \<Rightarrow> bool" where
  "ipv4_fields val digits pos [] = (pos = 3 \<and> digits > 0)"
| "ipv4_fields val digits pos (c # s) =
     (if in_range 48 57 c then
        (if digits = 1 \<and> val = 0 then False
         else (let v = val * 10 + (ord c - 48) in if v > 255 then False else ipv4_fields v (Suc digits) pos s))
      else if c = CHR ''.'' then
        (if digits = 0 \<or> s = [] \<or> pos = 3 then False else ipv4_fields 0 0 (Suc pos) s)
      else False)"

definition is_hex :: "char \<Rightarrow> bool" where
  "is_hex c \<longleftrightarrow> in_range 48 57 c \<or> in_range 97 102 c \<or> in_range 65 70 c"

text \<open>
  The loop of \<^verbatim>\<open>parseIPv6\<close>. \<open>i\<close> counts the bytes filled and \<open>ellipsis\<close> tells whether \<^verbatim>\<open>::\<close> was seen; the result is \<open>i\<close> and
  \<open>ellipsis\<close> at the end of the string.
\<close>

fun ipv6_groups :: "nat \<Rightarrow> nat \<Rightarrow> bool \<Rightarrow> bytes \<Rightarrow> (nat \<times> bool) option" where
  "ipv6_groups 0 i ellipsis s = (if s = [] then Some (i, ellipsis) else None)"
| "ipv6_groups (Suc n) i ellipsis s =
     (let digits = takeWhile is_hex s; rest = dropWhile is_hex s
      in if digits = [] \<or> length digits > 4 then None
         else if rest \<noteq> [] \<and> hd rest = CHR ''.'' then
           (if \<not> ellipsis \<and> i \<noteq> 12 then None else if i + 4 > 16 then None
            else if ipv4_fields 0 0 0 s then Some (i + 4, ellipsis) else None)
         else if rest = [] then Some (i + 2, ellipsis)
         else if hd rest \<noteq> CHR '':'' \<or> tl rest = [] then None
         else if hd (tl rest) = CHR '':'' then
           (if ellipsis then None
            else if tl (tl rest) = [] then Some (i + 2, True)
            else ipv6_groups n (i + 2) True (tl (tl rest)))
         else ipv6_groups n (i + 2) ellipsis (tl rest))"

definition is_ipv6 :: "bytes \<Rightarrow> bool" where
  "is_ipv6 s =
     (case Cut (CHR ''%'') s of (addr, zone, found) \<Rightarrow>
        if found \<and> zone = [] then False
        else if take 2 addr = ''::'' \<and> length addr = 2 then True
        else (case (if take 2 addr = ''::'' then ipv6_groups 8 0 True (drop 2 addr) else ipv6_groups 8 0 False addr) of
                None \<Rightarrow> False
              | Some (i, ellipsis) \<Rightarrow> if i < 16 then ellipsis else \<not> ellipsis))"

text \<open>\<^verbatim>\<open>netip.ParseAddr\<close>: the first dot, colon or percent sign decides the family.\<close>

fun ParseAddr_from :: "bytes \<Rightarrow> bytes \<Rightarrow> bool" where
  "ParseAddr_from s [] = False"
| "ParseAddr_from s (c # rest) =
     (if c = CHR ''.'' then ipv4_fields 0 0 0 s
      else if c = CHR '':'' then is_ipv6 s
      else if c = CHR ''%'' then False
      else ParseAddr_from s rest)"

definition ParseAddr_ok :: "bytes \<Rightarrow> bool" where
  "ParseAddr_ok s = ParseAddr_from s s"

lemma ParseAddr_samples:
  "ParseAddr_ok ''127.0.0.1''" "\<not> ParseAddr_ok ''127.0.0.01''" "\<not> ParseAddr_ok ''1.2.3''" "ParseAddr_ok ''::1''"
  "ParseAddr_ok ''fe80::1%eth0''" "ParseAddr_ok ''1:2:3:4:5:6:1.2.3.4''" "\<not> ParseAddr_ok ''1::2::3''"
  "\<not> ParseAddr_ok ''sink.example.com''" "\<not> ParseAddr_ok ''localhost''"
  by code_simp+

lemma SplitHost_samples:
  "SplitHost ''localhost:80'' = Some ''localhost''" "SplitHost ''[::1]:80'' = Some ''::1''"
  "SplitHost ''localhost'' = None" "SplitHost ''a:b:c'' = None"
  by code_simp+

end
