(* ===== verification/Dns_Refresh.thy ===== *)
theory Dns_Refresh
  imports Go_Net Sink_Errors
begin

text \<open>
  \<^verbatim>\<open>dns_refresh.go\<close>: a resolver that periodically replaces the DNS resolver it wraps. Its goroutine, the callbacks of
  the wrapped resolver, the timer and the callers of \<^verbatim>\<open>ResolveNow\<close> and \<^verbatim>\<open>Close\<close> run concurrently, so the model is a step
  relation over the shared state: every interleaving of these steps is a run. Wrapped resolvers are numbered in the
  order they are built; \<open>d_closed\<close> lists the closed ones in the order of the \<^verbatim>\<open>Close\<close> calls.
\<close>

section \<open>Building\<close>

text \<open>
  What \<^verbatim>\<open>Build\<close> returns: the wrapped builder's own resolver for an IP literal, its error, or a
  refreshing resolver around the one built. \<open>build\<close> is the wrapped gRPC builder.
\<close>

datatype built = Plain nat | Refreshing nat | BuildFailed go_error

definition needs_refresh :: "bytes \<Rightarrow> bool" where
  "needs_refresh endpoint =
     (let host = (case SplitHost endpoint of Some parsed \<Rightarrow> parsed | None \<Rightarrow> endpoint)
      in \<not> ParseAddr_ok (TrimBrackets host))"

definition Build :: "(bytes \<Rightarrow> nat result) \<Rightarrow> bytes \<Rightarrow> built" where
  "Build build endpoint =
     (if \<not> needs_refresh endpoint
      then (case build endpoint of Inl err \<Rightarrow> BuildFailed err | Inr r \<Rightarrow> Plain r)
      else (case build endpoint of Inl err \<Rightarrow> BuildFailed err | Inr r \<Rightarrow> Refreshing r))"

section \<open>The shared state\<close>

datatype timer = Idle | Armed | Fired

text \<open>
  Where the goroutine is: at its \<^verbatim>\<open>select\<close>, or inside the timer case before closing the old resolver, before draining
  the update channel, or in \<^verbatim>\<open>Build\<close>; or in its deferred calls.
\<close>

datatype pc = Select | Closing | Draining | Building | Exiting | Exited

datatype closer = NotClosed | Waiting | Returned

record dns =
  d_updates :: bool                \<comment> \<open>the channel \<^verbatim>\<open>updates\<close>, of capacity one, holds a token\<close>
  d_hints :: bool
  d_stop :: bool                   \<comment> \<open>the channel \<^verbatim>\<open>stop\<close> is closed\<close>
  d_done :: bool
  d_timer :: timer
  d_pc :: pc
  d_underlying :: "nat option"     \<comment> \<open>the variable \<^verbatim>\<open>underlying\<close>\<close>
  d_built :: nat
  d_closed :: "nat list"
  d_hinted :: "nat list"           \<comment> \<open>the resolvers \<^verbatim>\<open>ResolveNow\<close> was passed on to\<close>
  d_reports :: "go_error list"     \<comment> \<open>the errors given to \<^verbatim>\<open>ReportError\<close>\<close>
  d_closer :: closer               \<comment> \<open>the call of \<^verbatim>\<open>Close\<close> that runs inside \<^verbatim>\<open>once.Do\<close>\<close>

definition dns_init :: dns where
  "dns_init = \<lparr>d_updates = False, d_hints = False, d_stop = False, d_done = False, d_timer = Idle, d_pc = Select,
     d_underlying = Some 0, d_built = 1, d_closed = [], d_hinted = [], d_reports = [], d_closer = NotClosed\<rparr>"

section \<open>Operations\<close>

text \<open>
  \<^verbatim>\<open>UpdateState\<close>: the wrapped connection's answer is passed on; only an accepted update leaves a token, and
  a second token is dropped.
\<close>

definition UpdateState :: "go_error option \<Rightarrow> dns \<Rightarrow> go_error option \<times> dns" where
  "UpdateState err s = (err, if err = None then s\<lparr>d_updates := True\<rparr> else s)"

definition ResolveNow :: "dns \<Rightarrow> dns" where
  "ResolveNow s = s\<lparr>d_hints := True\<rparr>"

definition close_underlying :: "dns \<Rightarrow> dns" where
  "close_underlying s =
     (case d_underlying s of None \<Rightarrow> s | Some u \<Rightarrow> s\<lparr>d_closed := d_closed s @ [u]\<rparr>)"

text \<open>One step of the goroutine, by the position it is at; the \<^verbatim>\<open>select\<close> cases are separate.\<close>

definition on_stop :: "dns \<Rightarrow> dns" where
  "on_stop s = s\<lparr>d_pc := Exiting\<rparr>"

definition on_update :: "dns \<Rightarrow> dns" where
  "on_update s = s\<lparr>d_updates := False, d_timer := Armed\<rparr>"

definition on_hint :: "dns \<Rightarrow> dns" where
  "on_hint s = s\<lparr>d_hints := False,
     d_hinted := (case d_underlying s of None \<Rightarrow> d_hinted s | Some u \<Rightarrow> d_hinted s @ [u])\<rparr>"

definition on_timer :: "dns \<Rightarrow> dns" where
  "on_timer s = s\<lparr>d_timer := Idle, d_pc := Closing\<rparr>"

definition close_old :: "dns \<Rightarrow> dns" where
  "close_old s = (close_underlying s)\<lparr>d_pc := Draining\<rparr>"

definition drain_updates :: "dns \<Rightarrow> dns" where
  "drain_updates s = s\<lparr>d_updates := False, d_pc := Building\<rparr>"

definition rebuild :: "go_error option \<Rightarrow> dns \<Rightarrow> dns" where
  "rebuild err s =
     (case err of
        None \<Rightarrow> s\<lparr>d_underlying := Some (d_built s), d_built := Suc (d_built s), d_pc := Select\<rparr>
      | Some e \<Rightarrow> s\<lparr>d_underlying := None, d_reports := d_reports s @ [e], d_timer := Armed, d_pc := Select\<rparr>)"

definition exit_close :: "dns \<Rightarrow> dns" where
  "exit_close s = (close_underlying (s\<lparr>d_timer := Idle\<rparr>))\<lparr>d_pc := Exited\<rparr>"

definition exit_done :: "dns \<Rightarrow> dns" where
  "exit_done s = s\<lparr>d_done := True\<rparr>"

text \<open>\<^verbatim>\<open>Close\<close> enters \<^verbatim>\<open>once.Do\<close>, closes \<^verbatim>\<open>stop\<close>, and returns when \<^verbatim>\<open>done\<close> is closed.\<close>

definition Close_begin :: "dns \<Rightarrow> dns" where
  "Close_begin s = s\<lparr>d_stop := True, d_closer := Waiting\<rparr>"

definition Close_end :: "dns \<Rightarrow> dns" where
  "Close_end s = s\<lparr>d_closer := Returned\<rparr>"

definition timer_fires :: "dns \<Rightarrow> dns" where
  "timer_fires s = s\<lparr>d_timer := Fired\<rparr>"

text \<open>A wrapped resolver that is built and not closed, or being built, may call back.\<close>

definition callback_possible :: "dns \<Rightarrow> bool" where
  "callback_possible s \<longleftrightarrow> d_pc s = Building \<or> (\<exists>u. d_underlying s = Some u \<and> u \<notin> set (d_closed s))"

section \<open>Steps\<close>

text \<open>The goroutine of \<^verbatim>\<open>refresh\<close>: when several \<^verbatim>\<open>select\<close> cases are ready, any of them may be taken.\<close>

inductive refresh_step :: "dns \<Rightarrow> dns \<Rightarrow> bool" where
  stop: "d_pc s = Select \<Longrightarrow> d_stop s \<Longrightarrow> refresh_step s (on_stop s)"
| update: "d_pc s = Select \<Longrightarrow> d_updates s \<Longrightarrow> refresh_step s (on_update s)"
| hint: "d_pc s = Select \<Longrightarrow> d_hints s \<Longrightarrow> refresh_step s (on_hint s)"
| timer: "d_pc s = Select \<Longrightarrow> d_timer s = Fired \<Longrightarrow> refresh_step s (on_timer s)"
| close: "d_pc s = Closing \<Longrightarrow> refresh_step s (close_old s)"
| drain: "d_pc s = Draining \<Longrightarrow> refresh_step s (drain_updates s)"
| build: "d_pc s = Building \<Longrightarrow> refresh_step s (rebuild err s)"
| exiting: "d_pc s = Exiting \<Longrightarrow> refresh_step s (exit_close s)"
| exited: "d_pc s = Exited \<Longrightarrow> \<not> d_done s \<Longrightarrow> refresh_step s (exit_done s)"

text \<open>Everything else that may happen at any time.\<close>

inductive env_step :: "dns \<Rightarrow> dns \<Rightarrow> bool" where
  callback: "callback_possible s \<Longrightarrow> env_step s (snd (UpdateState err s))"
| resolve: "env_step s (ResolveNow s)"
| fire: "d_timer s = Armed \<Longrightarrow> env_step s (timer_fires s)"
| closing: "d_closer s = NotClosed \<Longrightarrow> env_step s (Close_begin s)"
| closed: "d_closer s = Waiting \<Longrightarrow> d_done s \<Longrightarrow> env_step s (Close_end s)"

inductive reachable :: "dns \<Rightarrow> bool" where
  init: "reachable dns_init"
| goroutine: "reachable s \<Longrightarrow> refresh_step s t \<Longrightarrow> reachable t"
| environment: "reachable s \<Longrightarrow> env_step s t \<Longrightarrow> reachable t"

inductive_cases refresh_stepE: "refresh_step s t"
inductive_cases env_stepE: "env_step s t"

lemmas dns_op_defs = UpdateState_def ResolveNow_def close_underlying_def on_stop_def on_update_def on_hint_def
  on_timer_def close_old_def drain_updates_def rebuild_def exit_close_def exit_done_def Close_begin_def Close_end_def
  timer_fires_def dns_init_def

section \<open>The invariant\<close>

text \<open>
  At most one wrapped resolver is open, the one the variable holds; it is closed while it is being replaced and after
  the exit; none is closed twice. The goroutine leaves only after \<^verbatim>\<open>stop\<close>.
\<close>

definition replaced :: "dns \<Rightarrow> bool" where
  "replaced s \<longleftrightarrow> d_pc s \<in> {Draining, Building, Exited}"

definition open_inv :: "dns \<Rightarrow> bool" where
  "open_inv s \<longleftrightarrow>
     distinct (d_closed s) \<and>
     (case d_underlying s of
        None \<Rightarrow> set (d_closed s) = {0..<d_built s}
      | Some u \<Rightarrow> u < d_built s \<and>
          set (d_closed s) = (if replaced s then {0..<d_built s} else {0..<d_built s} - {u}))"

definition control_inv :: "dns \<Rightarrow> bool" where
  "control_inv s \<longleftrightarrow>
     (d_pc s = Exiting \<or> d_pc s = Exited \<longrightarrow> d_stop s) \<and> (d_done s \<longrightarrow> d_pc s = Exited) \<and>
     (d_stop s \<longleftrightarrow> d_closer s \<noteq> NotClosed) \<and> (d_closer s = Returned \<longrightarrow> d_done s)"

lemma close_underlying_open:
  assumes "open_inv s" and "\<not> replaced s"
  shows "distinct (d_closed (close_underlying s)) \<and> set (d_closed (close_underlying s)) = {0..<d_built s}
    \<and> d_built (close_underlying s) = d_built s \<and> d_underlying (close_underlying s) = d_underlying s"
proof (cases "d_underlying s")
  case None
  then show ?thesis using assms by (simp add: open_inv_def close_underlying_def)
next
  case (Some u)
  then have "distinct (d_closed s)" "u < d_built s" "set (d_closed s) = {0..<d_built s} - {u}"
    using assms by (simp_all add: open_inv_def)
  then show ?thesis using Some by (simp add: close_underlying_def insert_absorb)
qed

lemma replaced_simps [simp]:
  "replaced (s\<lparr>d_pc := p\<rparr>) \<longleftrightarrow> p \<in> {Draining, Building, Exited}"
  "replaced (s\<lparr>d_updates := b\<rparr>) = replaced s" "replaced (s\<lparr>d_hints := b\<rparr>) = replaced s"
  "replaced (s\<lparr>d_stop := b\<rparr>) = replaced s" "replaced (s\<lparr>d_done := b\<rparr>) = replaced s"
  "replaced (s\<lparr>d_timer := x\<rparr>) = replaced s" "replaced (s\<lparr>d_closer := c\<rparr>) = replaced s"
  "replaced (s\<lparr>d_hinted := xs\<rparr>) = replaced s" "replaced (s\<lparr>d_reports := es\<rparr>) = replaced s"
  "replaced (s\<lparr>d_underlying := u\<rparr>) = replaced s" "replaced (s\<lparr>d_built := n\<rparr>) = replaced s"
  by (simp_all add: replaced_def)

lemma open_inv_simps [simp]:
  "open_inv (s\<lparr>d_updates := b\<rparr>) = open_inv s" "open_inv (s\<lparr>d_hints := b\<rparr>) = open_inv s"
  "open_inv (s\<lparr>d_stop := b\<rparr>) = open_inv s" "open_inv (s\<lparr>d_done := b\<rparr>) = open_inv s"
  "open_inv (s\<lparr>d_timer := x\<rparr>) = open_inv s" "open_inv (s\<lparr>d_closer := c\<rparr>) = open_inv s"
  "open_inv (s\<lparr>d_hinted := xs\<rparr>) = open_inv s" "open_inv (s\<lparr>d_reports := es\<rparr>) = open_inv s"
  by (simp_all add: open_inv_def split: option.split)

lemma open_inv_pc:
  "open_inv s \<Longrightarrow> replaced s \<longleftrightarrow> p \<in> {Draining, Building, Exited} \<Longrightarrow> open_inv (s\<lparr>d_pc := p\<rparr>)"
  by (simp add: open_inv_def split: option.splits)

lemma open_inv_close:
  assumes "open_inv s" and "\<not> replaced s" and "p \<in> {Draining, Building, Exited}"
  shows "open_inv ((close_underlying s)\<lparr>d_pc := p\<rparr>)"
  using close_underlying_open [OF assms(1,2)] assms
  by (auto simp: open_inv_def split: option.splits)

lemma open_inv_rebuild:
  assumes "open_inv s" and "d_pc s = Building"
  shows "open_inv (rebuild err s)"
proof -
  have "set (d_closed s) = {0..<d_built s}" "distinct (d_closed s)"
    using assms by (auto simp: open_inv_def replaced_def split: option.splits)
  then show ?thesis by (auto simp: open_inv_def rebuild_def split: option.splits)
qed

lemma refresh_step_open: "refresh_step s t \<Longrightarrow> open_inv s \<Longrightarrow> open_inv t"
proof (induction rule: refresh_step.induct)
  case (stop s)
  then show ?case by (auto simp: on_stop_def replaced_def intro: open_inv_pc)
next
  case (timer s)
  then show ?case by (auto simp: on_timer_def replaced_def intro: open_inv_pc)
next
  case (close s)
  then show ?case by (auto simp: close_old_def replaced_def intro: open_inv_close)
next
  case (drain s)
  then show ?case by (auto simp: drain_updates_def replaced_def intro: open_inv_pc)
next
  case (build s err)
  then show ?case by (auto intro: open_inv_rebuild)
next
  case (exiting s)
  then show ?case unfolding exit_close_def by (intro open_inv_close) (auto simp: replaced_def)
qed (simp_all add: on_update_def on_hint_def exit_done_def)

lemma env_step_open: "env_step s t \<Longrightarrow> open_inv s \<Longrightarrow> open_inv t"
  by (induction rule: env_step.induct)
    (auto simp: UpdateState_def ResolveNow_def timer_fires_def Close_begin_def Close_end_def)

lemma close_underlying_control [simp]:
  "d_pc (close_underlying s) = d_pc s" "d_stop (close_underlying s) = d_stop s" "d_done (close_underlying s) = d_done s"
  "d_closer (close_underlying s) = d_closer s" "d_updates (close_underlying s) = d_updates s"
  "d_timer (close_underlying s) = d_timer s" "d_hints (close_underlying s) = d_hints s"
  by (simp_all add: close_underlying_def split: option.split)

lemma refresh_step_control: "refresh_step s t \<Longrightarrow> control_inv s \<Longrightarrow> control_inv t"
  by (induction rule: refresh_step.induct)
    (auto simp: control_inv_def on_stop_def on_update_def on_hint_def on_timer_def close_old_def drain_updates_def
      rebuild_def exit_close_def exit_done_def split: option.splits)

lemma env_step_control: "env_step s t \<Longrightarrow> control_inv s \<Longrightarrow> control_inv t"
  by (induction rule: env_step.induct)
    (auto simp: control_inv_def UpdateState_def ResolveNow_def timer_fires_def Close_begin_def Close_end_def)

lemma reachable_inv: "reachable s \<Longrightarrow> open_inv s \<and> control_inv s"
proof (induction rule: reachable.induct)
  case init
  then show ?case by (simp add: open_inv_def control_inv_def replaced_def dns_init_def)
qed (auto intro: refresh_step_open env_step_open refresh_step_control env_step_control)

section \<open>Closing always completes\<close>

text \<open>Once \<^verbatim>\<open>stop\<close> is closed, the goroutine reaches its end by its own steps, choosing \<^verbatim>\<open>stop\<close> at the \<^verbatim>\<open>select\<close>.\<close>

lemma exited_done:
  assumes "d_pc s = Exited"
  shows "\<exists>t. refresh_step\<^sup>*\<^sup>* s t \<and> d_done t"
proof (cases "d_done s")
  case False
  then have "refresh_step s (exit_done s)" using assms by (intro refresh_step.exited)
  then show ?thesis by (intro exI [of _ "exit_done s"]) (simp add: exit_done_def)
qed auto

lemma exiting_done:
  assumes "d_pc s = Exiting"
  shows "\<exists>t. refresh_step\<^sup>*\<^sup>* s t \<and> d_done t"
proof -
  have "refresh_step s (exit_close s)" using assms by (rule refresh_step.exiting)
  moreover obtain t where "refresh_step\<^sup>*\<^sup>* (exit_close s) t" "d_done t"
    using exited_done [of "exit_close s"] by (auto simp: exit_close_def)
  ultimately show ?thesis by (meson converse_rtranclp_into_rtranclp)
qed

lemma select_done:
  assumes "d_pc s = Select" and "d_stop s"
  shows "\<exists>t. refresh_step\<^sup>*\<^sup>* s t \<and> d_done t"
proof -
  have "refresh_step s (on_stop s)" using assms by (rule refresh_step.stop)
  moreover obtain t where "refresh_step\<^sup>*\<^sup>* (on_stop s) t" "d_done t"
    using exiting_done [of "on_stop s"] by (auto simp: on_stop_def)
  ultimately show ?thesis by (meson converse_rtranclp_into_rtranclp)
qed

lemma building_done:
  assumes "d_pc s = Building" and "d_stop s"
  shows "\<exists>t. refresh_step\<^sup>*\<^sup>* s t \<and> d_done t"
proof -
  have "refresh_step s (rebuild None s)" using assms(1) by (rule refresh_step.build)
  moreover obtain t where "refresh_step\<^sup>*\<^sup>* (rebuild None s) t" "d_done t"
    using select_done [of "rebuild None s"] assms(2) by (auto simp: rebuild_def)
  ultimately show ?thesis by (meson converse_rtranclp_into_rtranclp)
qed

lemma draining_done:
  assumes "d_pc s = Draining" and "d_stop s"
  shows "\<exists>t. refresh_step\<^sup>*\<^sup>* s t \<and> d_done t"
proof -
  have "refresh_step s (drain_updates s)" using assms(1) by (rule refresh_step.drain)
  moreover obtain t where "refresh_step\<^sup>*\<^sup>* (drain_updates s) t" "d_done t"
    using building_done [of "drain_updates s"] assms(2) by (auto simp: drain_updates_def)
  ultimately show ?thesis by (meson converse_rtranclp_into_rtranclp)
qed

lemma stop_reaches_done:
  assumes "d_stop s"
  shows "\<exists>t. refresh_step\<^sup>*\<^sup>* s t \<and> d_done t"
proof (cases "d_pc s")
  case Closing
  then have "refresh_step s (close_old s)" by (rule refresh_step.close)
  moreover obtain t where "refresh_step\<^sup>*\<^sup>* (close_old s) t" "d_done t"
    using draining_done [of "close_old s"] assms by (auto simp: close_old_def)
  ultimately show ?thesis by (meson converse_rtranclp_into_rtranclp)
qed (use assms select_done draining_done building_done exiting_done exited_done in auto)

lemma refresh_star_reachable: "refresh_step\<^sup>*\<^sup>* s t \<Longrightarrow> reachable s \<Longrightarrow> reachable t"
  by (induction rule: rtranclp_induct) (auto intro: reachable.goroutine)

lemma refresh_star_closer: "refresh_step\<^sup>*\<^sup>* s t \<Longrightarrow> d_closer t = d_closer s"
proof (induction rule: rtranclp_induct)
  case (step t u)
  from step(2) have "d_closer u = d_closer t"
    by (cases rule: refresh_step.cases) (auto simp: dns_op_defs split: option.splits)
  then show ?case using step by simp
qed simp

section \<open>Properties\<close>

text \<open>
  C17: in every interleaving, at most one wrapped resolver is open, and it is the current one; no resolver is closed
  twice; and only resolvers that were built are closed.
\<close>

theorem dns_single_open_resolver:
  assumes "reachable s"
  shows "distinct (d_closed s) \<and> set (d_closed s) \<subseteq> {0..<d_built s}
    \<and> {0..<d_built s} - set (d_closed s) \<subseteq> set_option (d_underlying s)"
  using reachable_inv [OF assms] by (auto simp: open_inv_def split: option.splits if_splits)

theorem dns_single_open_resolver_witness:
  "reachable dns_init \<and> {0..<d_built dns_init} - set (d_closed dns_init) \<subseteq> set_option (d_underlying dns_init)"
  using dns_single_open_resolver [OF reachable.init] reachable.init by blast

text \<open>
  C36: when \<^verbatim>\<open>Close\<close> has returned, the goroutine has ended and every wrapped resolver ever built is closed; nothing the
  resolver does afterwards builds another.
\<close>

theorem dns_closed_completely:
  assumes "reachable s" and "d_closer s = Returned"
  shows "d_done s \<and> set (d_closed s) = {0..<d_built s} \<and> (\<forall>t. \<not> refresh_step s t)"
proof -
  have o: "open_inv s" and c: "control_inv s" using reachable_inv [OF assms(1)] by auto
  have d: "d_done s" "d_pc s = Exited" using c assms(2) by (auto simp: control_inv_def)
  then have "replaced s" by (simp add: replaced_def)
  then have "set (d_closed s) = {0..<d_built s}" using o by (auto simp: open_inv_def split: option.splits)
  moreover have "\<not> refresh_step s t" for t using d by (auto elim: refresh_step.cases)
  ultimately show ?thesis using d by blast
qed

text \<open>
  C37: a call of \<^verbatim>\<open>Close\<close> can always complete: from every reachable state in which it waits, steps of the goroutine
  alone lead to a state in which it returns.
\<close>

theorem dns_close_completes:
  assumes "reachable s" and "d_closer s = Waiting"
  shows "\<exists>t. refresh_step\<^sup>*\<^sup>* s t \<and> env_step t (Close_end t)"
proof -
  have "control_inv s" using reachable_inv [OF assms(1)] by blast
  then have "d_stop s" using assms(2) by (simp add: control_inv_def)
  from stop_reaches_done [OF this] obtain t where t: "refresh_step\<^sup>*\<^sup>* s t" "d_done t" by blast
  then have "env_step t (Close_end t)"
    using refresh_star_closer [OF t(1)] assms(2) by (intro env_step.closed) auto
  then show ?thesis using t by blast
qed

lemma reachable_closing: "reachable (Close_begin dns_init)"
  by (rule reachable.environment [OF reachable.init env_step.closing]) (simp add: dns_init_def)

theorem dns_close_completes_witness:
  "\<exists>t. refresh_step\<^sup>*\<^sup>* (Close_begin dns_init) t \<and> env_step t (Close_end t)"
  using dns_close_completes [OF reachable_closing] by (simp add: Close_begin_def)

definition ex_closed :: dns where
  "ex_closed = Close_end (exit_done (exit_close (on_stop (Close_begin dns_init))))"

lemma reachable_ex_closed: "reachable ex_closed"
proof -
  let ?s1 = "on_stop (Close_begin dns_init)"
  have "reachable ?s1"
    by (rule reachable.goroutine [OF reachable_closing refresh_step.stop]) (auto simp: dns_op_defs)
  then have "reachable (exit_close ?s1)"
    by (rule reachable.goroutine [OF _ refresh_step.exiting]) (simp add: on_stop_def)
  then have "reachable (exit_done (exit_close ?s1))"
    by (rule reachable.goroutine [OF _ refresh_step.exited]) (auto simp: dns_op_defs)
  then show ?thesis unfolding ex_closed_def
    by (rule reachable.environment [OF _ env_step.closed]) (auto simp: dns_op_defs)
qed

theorem dns_closed_completely_witness:
  "d_done ex_closed \<and> set (d_closed ex_closed) = {0..<d_built ex_closed} \<and> d_built ex_closed = 1"
  using dns_closed_completely [OF reachable_ex_closed] by (simp add: ex_closed_def dns_op_defs)

text \<open>
  An IP literal, with or without port and brackets, is resolved by the wrapped builder alone; every other target
  whose resolver can be built gets a refreshing resolver around it.
\<close>

theorem Build_plain_for_ip:
  "Build build endpoint = Plain r \<longleftrightarrow>
     ParseAddr_ok (TrimBrackets (case SplitHost endpoint of Some h \<Rightarrow> h | None \<Rightarrow> endpoint)) \<and> build endpoint = Inr r"
  by (auto simp: Build_def needs_refresh_def Let_def split: sum.splits)

end
