(* ===== verification/Test_Uri.thy ===== *)
theory Test_Uri
  imports Uri_Address
begin

text \<open>
  \<^verbatim>\<open>internal/testuri/uri.go\<close>: fixtures that build canonical URIs and panic (\<^const>\<open>None\<close>) on invalid parts.
\<close>

definition testuri_Resource :: "bytes \<Rightarrow> bytes list \<Rightarrow> bytes option" where
  "testuri_Resource store segments =
     (case uri_New store segments of Inl err \<Rightarrow> None | Inr address \<Rightarrow> Some (Address_value address))"

definition testuri_Record :: "bytes \<Rightarrow> bytes list \<Rightarrow> Key \<Rightarrow> bytes option" where
  "testuri_Record store segments key =
     (case testuri_Resource store segments of
        None \<Rightarrow> None
      | Some resource \<Rightarrow>
          (case AppendKey resource key of Inl err \<Rightarrow> None | Inr address \<Rightarrow> Some (Address_value address)))"

definition testuri_Address :: "bytes \<Rightarrow> bytes list \<Rightarrow> Key \<Rightarrow> Address option" where
  "testuri_Address store segments key =
     (case testuri_Record store segments key of
        None \<Rightarrow> None
      | Some v \<Rightarrow> (case Parse v of Inl err \<Rightarrow> None | Inr address \<Rightarrow> Some address))"

definition testuri_Dataset :: "bytes \<Rightarrow> bytes \<Rightarrow> bytes \<Rightarrow> bool \<Rightarrow> bytes option" where
  "testuri_Dataset store namespace dataset bson =
     testuri_Resource store (if bson then [namespace, dataset] else [dataset])"

lemma render_parts_unique:
  assumes "ValidStore s" and "ValidStore t" and "render s xs = render t ys"
  shows "s = t \<and> xs = ys"
proof -
  define tail where "tail zs = (if zs = [] then [] else CHR ''/'' # Join (CHR ''/'') (map PathEscape zs))" for zs
  have eq: "s @ tail xs = t @ tail ys" using assms(3) by (simp add: render_def tail_def)
  have cut: "Cut (CHR ''/'') (u @ tail zs) = (u, Join (CHR ''/'') (map PathEscape zs), zs \<noteq> [])"
    if "ValidStore u" for u zs
    using ValidStore_slash [OF that] by (auto simp: tail_def Cut_absent Cut_present)
  have "(s, Join (CHR ''/'') (map PathEscape xs), xs \<noteq> []) = (t, Join (CHR ''/'') (map PathEscape ys), ys \<noteq> [])"
    using cut [OF assms(1), of xs] cut [OF assms(2), of ys] eq by (simp only:)
  then have j: "s = t" "Join (CHR ''/'') (map PathEscape xs) = Join (CHR ''/'') (map PathEscape ys)"
    "xs = [] \<longleftrightarrow> ys = []" by (simp_all only: prod.inject) blast
  show ?thesis
  proof (cases "xs = []")
    case True
    then show ?thesis using j by simp
  next
    case False
    then show ?thesis using j path.Join_enc_inject [of xs ys] by simp
  qed
qed

text \<open>
  The fixture address of a record has the requested store and segments followed by the formatted key, and its key
  segment parses back to the key.
\<close>

theorem testuri_Address_parts:
  assumes "ValidStore store" and "testuri_Address store segments key = Some a"
  shows "canonical a \<and> Address_store a = store
    \<and> (\<exists>s. Address_segments a = segments @ [s] \<and> ParseKey s = Inr key)"
proof -
  obtain base v where base: "uri_New store segments = Inr base" and "testuri_Record store segments key = Some v"
    and a: "Parse v = Inr a"
    using assms(2) by (auto simp: testuri_Address_def testuri_Record_def testuri_Resource_def split: option.splits sum.splits)
  then obtain b where b: "AppendKey (Address_value base) key = Inr b" "v = Address_value b"
    by (auto simp: testuri_Record_def testuri_Resource_def split: sum.splits)
  have pb: "Parse (render store segments) = Inr base" using base by (simp add: New_eq_Parse_render)
  obtain base' s where s: "Parse (Address_value base) = Inr base'" "FormatKey key = Inr s"
    "Address_segments b = Address_segments base' @ [s]" "Address_store b = Address_store base'" "canonical b"
    using b(1) by (rule AppendKey_InrD)
  have "base' = base" using s(1) Parse_value [OF pb] pb by simp
  moreover have "a = b" using a b(2) canonical_Parse [OF s(5)] by simp
  moreover have "Address_store base = store \<and> Address_segments base = segments"
    using render_parts_unique [OF assms(1)] Parse_canonical [OF pb] Parse_value [OF pb]
    by (metis canonical_def)
  ultimately show ?thesis using s ParseKey_format by auto
qed

lemma testuri_example:
  "testuri_Address ''s'' [''r''] (StringKey ''1'')
    = Some \<lparr>Address_value = ''sink://s/r/s:1'', Address_store = ''s'', Address_segments = [''r'', ''s:1'']\<rparr>"
proof -
  let ?base = "\<lparr>Address_value = ''sink://s/r'', Address_store = ''s'', Address_segments = [''r'']\<rparr>"
  let ?a = "\<lparr>Address_value = ''sink://s/r/s:1'', Address_store = ''s'', Address_segments = [''r'', ''s:1'']\<rparr>"
  have "canonical ?base" "canonical ?a"
    by (simp_all add: canonical_def render_def ValidStore_def in_range_def validSegment_def alnum_def shouldEscape_def
        MaxAddressBytes_def)
  then have base: "Parse ''sink://s/r'' = Inr ?base" and a: "Parse ''sink://s/r/s:1'' = Inr ?a"
    using canonical_Parse [of ?base] canonical_Parse [of ?a] by simp_all
  have new: "uri_New ''s'' [''r''] = Inr ?base"
    using New_of_parts [OF \<open>canonical ?base\<close>] by simp
  have "FormatKey (StringKey ''1'') = Inr ''s:1''"
    by (simp add: FormatKey_def StringKey_def)
  from AppendKey_eq [OF base this] have "AppendKey ''sink://s/r'' (StringKey ''1'') = Inr ?a"
    by (simp add: MaxAddressBytes_def shouldEscape_def alnum_def in_range_def)
  then show ?thesis
    using new a by (simp add: testuri_Address_def testuri_Record_def testuri_Resource_def)
qed

theorem testuri_Address_parts_witness:
  "\<exists>a. testuri_Address ''s'' [''r''] (StringKey ''1'') = Some a \<and> canonical a \<and> Address_store a = ''s''"
proof -
  have "ValidStore ''s''" by (simp add: ValidStore_def in_range_def)
  from testuri_Address_parts [OF this testuri_example] testuri_example show ?thesis by blast
qed

end
