(* ===== verification/Spec2Isabelle.thy ===== *)
theory Spec2Isabelle
  imports Dataset Example_Service Dns_Refresh Test_Uri
begin

text \<open>
  A verification development for the Go client library \<^verbatim>\<open>sink-go\<close>: the package \<^verbatim>\<open>sink\<close> (the
  files directly under \<^verbatim>\<open>src/\<close>), its package \<^verbatim>\<open>src/uri\<close> and the fixtures \<^verbatim>\<open>src/internal/testuri\<close>.

  \<^bold>\<open>The program.\<close> A Sink server stores records under canonical URI addresses. The library validates
  and escapes addresses and typed keys (\<^verbatim>\<open>uri\<close>), builds documents, Lua merge programs and write
  operations (\<^verbatim>\<open>types.go\<close>), converts them to protocol messages (\<^verbatim>\<open>wire.go\<close>), sends them in bounded
  batches over gRPC, repeats reads and scans that the server rejected (\<^verbatim>\<open>client.go\<close>, \<^verbatim>\<open>native.go\<close>),
  checks and reorders the responses (\<^verbatim>\<open>results.go\<close>, \<^verbatim>\<open>query.go\<close>), and offers a typed view of one
  resource (\<^verbatim>\<open>dataset.go\<close>, \<^verbatim>\<open>dataset_native.go\<close>). Two pieces plug into gRPC: a resolver that repeats
  DNS lookups (\<^verbatim>\<open>dns_refresh.go\<close>) and a codec (\<^verbatim>\<open>grpc_codec.go\<close>).

  \<^bold>\<open>The theories\<close>, in the order in which they build on each other:

  \<^item> \<^verbatim>\<open>Prelude\<close>: result and error handling, chunking of lists, the collections of simplification rules.
  \<^item> \<^verbatim>\<open>Go_Strings\<close>, \<^verbatim>\<open>Go_Encoding\<close>, \<^verbatim>\<open>Go_Json\<close>, \<^verbatim>\<open>Go_Sha256\<close>, \<^verbatim>\<open>Go_Float\<close>, \<^verbatim>\<open>Go_Mime\<close>, \<^verbatim>\<open>Go_Net\<close>:
    what the program uses of Go's standard library: byte strings, UTF-8, percent escapes, base64 and
    decimal integers with their inverses; \<^verbatim>\<open>json.Valid\<close>; SHA-256; binary64 arithmetic with rounding;
    \<^verbatim>\<open>mime.ParseMediaType\<close> and \<^verbatim>\<open>http.Header\<close>; \<^verbatim>\<open>netip.ParseAddr\<close>. Strings and byte slices are
    lists of bytes.
  \<^item> \<^verbatim>\<open>Sink_Errors\<close>: the error values and the tree that \<^verbatim>\<open>errors.Is\<close> and \<^verbatim>\<open>errors.As\<close> walk.
  \<^item> \<^verbatim>\<open>Uri_Key\<close> and \<^verbatim>\<open>Uri_Address\<close>: \<^verbatim>\<open>uri/key.go\<close> and \<^verbatim>\<open>uri/address.go\<close>.
  \<^item> \<^verbatim>\<open>Proto_Messages\<close>: the message structs of \<^verbatim>\<open>api/sink/v1/sink.pb.go\<close> as records; pointers that
    may be nil are options.
  \<^item> \<^verbatim>\<open>Sink_Types\<close>, \<^verbatim>\<open>Wire\<close>, \<^verbatim>\<open>Results\<close>: \<^verbatim>\<open>types.go\<close>, \<^verbatim>\<open>wire.go\<close>, \<^verbatim>\<open>results.go\<close>. A type's
    unexported fields are record fields, its methods are functions of the record.
  \<^item> \<^verbatim>\<open>Client_Config\<close>: options, defaults, their validation, and the backoff arithmetic of \<^verbatim>\<open>client.go\<close>.
  \<^item> \<^verbatim>\<open>Transport\<close>: the outside world. A \<open>world\<close> is an abstract state, changed by every call, and the
    trace of the calls made so far (requests, waits, closed connections); the record \<open>env\<close> answers a call from that
    state, so a server may answer the same request differently every time.
  \<^item> \<^verbatim>\<open>Client\<close>, \<^verbatim>\<open>Client_Write\<close>, \<^verbatim>\<open>Client_Read\<close>: \<^verbatim>\<open>client.go\<close>. \<^verbatim>\<open>Batches\<close> holds the locales for
    what the three loops share: \<open>batch_loop\<close> (a loop that cuts a collection into batches),
    \<open>numbered_batches\<close> (results carry their position), \<open>answered_batches\<close> (results answer their operation),
    \<open>traced_batches\<close> (what is sent) and \<open>single_shot\<close> (one request per batch); each is interpreted on the
    loops of the code.
  \<^item> \<^verbatim>\<open>Sequential\<close>: the abstract specifications of \<^verbatim>\<open>Write\<close> and \<^verbatim>\<open>Delete\<close>. For \<^verbatim>\<open>Write\<close>: the documented service, which performs the
    operations of one address in request order and takes the programs of merges from the request (\<open>performs\<close>, \<open>expand\<close>), with the locale
    \<open>performed_batches\<close> through which the client's loop refines it. For \<^verbatim>\<open>Delete\<close>: one run of a sequential server, with the locales
    \<open>sequential_batches\<close> and \<open>result_conversion\<close>.
  \<^item> \<^verbatim>\<open>Native\<close> and \<^verbatim>\<open>Dataset\<close>: \<^verbatim>\<open>native.go\<close> with \<^verbatim>\<open>query.go\<close>, and the two dataset files.
  \<^item> \<^verbatim>\<open>Dns_Refresh\<close>: the resolver's goroutine, callbacks, timer and callers as a step relation.
  \<^item> \<^verbatim>\<open>Grpc_Codec\<close>, \<^verbatim>\<open>Test_Uri\<close>: the codec with gRPC's buffer pool, and the fixtures.
  \<^item> \<^verbatim>\<open>Vt_Wire\<close>, \<^verbatim>\<open>Vt_Message\<close>, \<^verbatim>\<open>Vt_Read\<close>, \<^verbatim>\<open>Vt_Write\<close>, \<^verbatim>\<open>Vt_Native\<close>: the generated marshalling \<^verbatim>\<open>api/sink/v1/sink_vtproto.pb.go\<close>.
    \<^verbatim>\<open>Vt_Wire\<close> has the shapes of field that the generator knows, each with its writer, size and reader;
    \<^verbatim>\<open>Vt_Message\<close> unknown fields, termination, and the locale \<open>vt_message\<close>: what the three methods of a message promise to a
    message that contains it. The other theories have the
    methods of the 31 messages, each message an interpretation of that locale.
  \<^item> \<^verbatim>\<open>Vt_Codec\<close>: the codec on these messages, with the locale \<open>codec_type\<close>: a message whose marshaller may panic, but not on a
    message of exact size; the fourteen requests and responses are interpretations. \<^verbatim>\<open>Client_Wire\<close>: the client's requests over the codec.
  \<^item> \<^verbatim>\<open>Grpc_Server\<close>: the server side of \<^verbatim>\<open>api/sink/v1/sink_grpc.pb.go\<close>: the interface of a service, its default
    implementation, the handlers of the seven methods with their interceptors, and the service description.
  \<^item> \<^verbatim>\<open>Service_Wire\<close>: everything composed. A \<open>link\<close> is what gRPC does with the bytes of a call, \<open>carries\<close> how gRPC uses the codec and
    the handlers, and \<open>direct_env\<close> the specification without a wire; the locale \<open>unary_method\<close> is one method over the wire, interpreted
    on all seven. \<^verbatim>\<open>Service_Effects\<close>: which runs of a service's method the batched mutations cause, with the locale
    \<open>executed_batches\<close>.
  \<^item> \<^verbatim>\<open>Example_Server\<close>, \<^verbatim>\<open>Example_Service\<close>: a small concrete server, and a service behind a link, on which the properties are
    applied.

  \<^bold>\<open>Parameters.\<close> Code outside the repository is an argument: the record \<open>lib\<close> holds the marshalling
  by reflection and the BSON codec; the environment holds the answers of the server, contexts, timers
  and the random source; the gRPC resolver that \<^verbatim>\<open>dns_refresh.go\<close> wraps is the nondeterminism of the
  step relation; the functions of \<^verbatim>\<open>protohelpers\<close> that the generated marshalling calls are a record, assumed to write base 128
  varints (\<open>helpers_ok\<close>) and to skip one field, whatever follows it (\<open>skip_ok\<close>). Most properties of the client hold for every
  environment; the last two are about an environment in which gRPC connects the client to a service (\<open>carries\<close>): a call encodes its
  request with the codec, the handler of the method that the call names decodes it, and the response comes back
  the same way, while the link may fail a call before or after the service has seen it (\<open>link_ok\<close>: what arrives is what was sent).

  \<^bold>\<open>Loops.\<close> The batch loops of \<^verbatim>\<open>Read\<close>, \<^verbatim>\<open>Write\<close> and \<^verbatim>\<open>Delete\<close> are partial functions into
  \<^typ>\<open>'a option\<close>: with a batch size that is not positive the code would not end. That they return for every client the
  constructors make is a theorem (\<open>batched_calls_return\<close>). The retry loops are total functions, by the number of
  attempts left. The loop of \<^verbatim>\<open>UnmarshalVT\<close> is a partial function too, since it moves by what \<^verbatim>\<open>Skip\<close> answers; that it
  returns for all bytes is \<open>decoding_returns\<close>. No fuel is used.

  \<^bold>\<open>What is shown.\<close> Addresses and keys: \<^verbatim>\<open>Parse\<close> accepts exactly the canonical spellings and formatting
  and parsing keys are inverse. Values: what the constructors return passes the validation done again
  before sending, and an accepted JSON payload is JSON unless it has white space around it that JSON does not know. Configuration: an
  invariant, and in float64 arithmetic bounds on the backoff and the value of a jittered delay, up to rounding.
  Responses: one result per operation, whatever order the server chose. Record operations: writes and
  deletes are never repeated, reads are repeated at most \<^verbatim>\<open>MaxAttempts\<close> times and only for
  the operations that failed, results are numbered in request order and answer the operation at their
  position, an invalid collection is never sent, \<^verbatim>\<open>Write\<close> refines one request to the documented service, with every merge's program declared in the batch that needs it,
  and \<^verbatim>\<open>Delete\<close> refines a sequential server: their batches are not visible.
  Native operations: their requests, pages, headers and retries. Datasets: they stay in their resource and
  lose no failure. Resolver: at most one open wrapped resolver, and none after \<^verbatim>\<open>Close\<close>, which
  always completes. Codec and marshalling: no pooled buffer is lost unless a message's marshaller panics, decoding returns on all bytes with an error or a
  message that survives encoding and decoding, unknown fields included; every request that the client sends arrives as the
  message it built, and well-formed responses likewise, so that the client behind a wire cannot be told from a client that
  calls the service directly, and a batched mutation has the service run the requests of its leading batches once and in order, whatever
  the link loses. The exceptions are write operations with a \<^verbatim>\<open>oneof\<close> wrapper that is nil, on which marshalling panics, or that has no message,
  which the codec refuses; the client never builds either.

  \<^bold>\<open>Not modelled.\<close> The reflection data of \<^verbatim>\<open>sink.pb.go\<close> (descriptors and the methods that only serve them), its getters, which
  are the fields of the records, and the names of its enum values, which are a parameter; the tests. A panic inside a service ends the server's process and is not
  described further. Aliasing of byte slices is not modelled: the code clones what it keeps.
\<close>

section \<open>Batched record operations\<close>

text \<open>
  C1: a configured client's \<^verbatim>\<open>Write\<close> sends each operation at most once. The requests sent are those of
  the leading batches of at most \<^verbatim>\<open>MaxOperations\<close> operations, in order, one request per batch,
  with no repetition; when no error is returned, they are all of them.
\<close>

theorem Write_at_most_once:
  assumes "client_ok c" and "Write lib env (Some c) ctx mode ops w = Some ((rs, err), w')"
  defines "bs \<equiv> chunks (nat (cc_maxOperations (cl_config c))) ops"
  shows "\<exists>k\<le>length bs. w_trace w' = w_trace w @ map (\<lambda>b. EvWrite (write_request mode b)) (take k bs)
     \<and> (err = None \<longrightarrow> k = length bs)"
  using Write_sent [OF assms(1,2)] unfolding bs_def by blast

theorem Write_at_most_once_witness:
  "client_ok ex_client \<and>
   (\<exists>k\<le>length (chunks 2 ex_puts).
      w_trace ex_write_world = w_trace ex_world
        @ map (\<lambda>b. EvWrite (write_request CompletionWaitUntilApplied b)) (take k (chunks 2 ex_puts))
      \<and> k = length (chunks 2 ex_puts))"
  using Write_at_most_once [OF ex_client_ok ex_write] by (simp add: ex_client_ok ex_client_config)

text \<open>
  C7: \<^verbatim>\<open>Read\<close> returns one result per address, in request order: the operation index of result \<open>i\<close>, and
  of the failure it may carry, is \<open>i\<close>, whatever batches and retries happened. With an
  error, the results of the leading complete batches are returned, numbered the same way.
\<close>

theorem Read_in_request_order:
  assumes "client_ok c" and "Read lib env (Some c) ctx addresses w = Some ((rs, err), w')"
  shows "numbered rr_OperationIndex rr_Failure 0 rs \<and> (err = None \<longrightarrow> length rs = length addresses)
    \<and> (err \<noteq> None \<longrightarrow> (\<exists>k. length rs = k * nat (cc_maxOperations (cl_config c)) \<and> (rs = [] \<or> length rs < length addresses)))"
  using assms(2)
proof (cases rule: Read_unfold)
  case rejected
  then show ?thesis by (auto simp: numbered_def intro!: exI [of _ 0])
next
  case sent
  from read_batches.loop_numbered [OF client_ok_attempts(1) [OF assms(1)] client_ok_step [OF assms(1)] this]
  show ?thesis using chunks_prefix by fastforce
qed

theorem Read_in_request_order_witness:
  "numbered rr_OperationIndex rr_Failure 0 [ex_not_found 0, ex_not_found 1, ex_not_found 2]
   \<and> length [ex_not_found 0, ex_not_found 1, ex_not_found 2] = length ex_addresses"
  using Read_in_request_order [OF ex_client_ok ex_read] by blast

text \<open>
  C3: the requests \<^verbatim>\<open>Read\<close> sends. For each of the leading batches (all of them without an error)
  there are between one and \<^verbatim>\<open>MaxAttempts\<close> requests, with a wait between two of them: the first asks for the whole
  batch, every later one for a subsequence of the operations of the one before.
\<close>

theorem Read_attempts_bounded:
  assumes "client_ok c" and "Read lib env (Some c) ctx addresses w = Some ((rs, err), w')"
  defines "bs \<equiv> chunks (nat (cc_maxOperations (cl_config c))) (map read_operation addresses)"
  shows "\<exists>k\<le>length bs. \<exists>evss. w_trace w' = w_trace w @ concat evss
     \<and> list_all2 (read_trace (nat (rp_MaxAttempts (cc_readRetry (cl_config c))))) (take k bs) evss
     \<and> (err = None \<longrightarrow> k = length bs)"
  using Read_sent [OF assms(1,2)] unfolding bs_def .

theorem Read_attempts_bounded_witness:
  "\<exists>k\<le>length (chunks 2 (map read_operation ex_addresses)). \<exists>evss.
     w_trace ex_read_world = w_trace ex_world @ concat evss
     \<and> list_all2 (read_trace 3) (take k (chunks 2 (map read_operation ex_addresses))) evss
     \<and> k = length (chunks 2 (map read_operation ex_addresses))"
  using Read_attempts_bounded [OF ex_client_ok ex_read] by (simp add: ex_client_config)

text \<open>
  C9: a batch of reads returns a retryable failure only when its attempts are exhausted: if any result still
  carries one, exactly \<^verbatim>\<open>MaxAttempts\<close> read requests were sent for the batch.
\<close>

theorem Read_retries_exhausted:
  assumes "config_ok config" and "readOperationsWithRetry lib env rpc config ctx ops w = (Inr rs, w')"
  shows "\<exists>evs. w_trace w' = w_trace w @ evs \<and>
    (\<forall>r\<in>set rs. retryable_failure r \<longrightarrow> int (length (reads evs)) = rp_MaxAttempts (cc_readRetry config))"
proof -
  have "1 \<le> rp_MaxAttempts (cc_readRetry config)" using assms(1) by (simp add: config_ok_def retry_ok_def)
  moreover have "readBatch lib env rpc config ctx ops w = (Inr rs, w')" using assms(2) by (simp add: readBatch_def)
  ultimately show ?thesis using readBatch_settled [of config lib env rpc ctx ops w rs w'] by blast
qed

theorem Read_retries_exhausted_witness:
  "retryable_failure ex_busy_result \<and> (\<exists>evs. w_trace ex_busy_world = w_trace ex_world @ evs \<and>
     (\<forall>r\<in>set [ex_busy_result]. retryable_failure r \<longrightarrow> int (length (reads evs)) = 3))"
  using Read_retries_exhausted [OF ex_client_config(1) ex_busy_run]
  by (simp add: ex_client_config) (simp add: retryable_failure_def ex_busy_result_def)

text \<open>
  C10: \<^verbatim>\<open>Delete\<close>, like \<^verbatim>\<open>Write\<close>, sends every batch at most once and in order.
\<close>

theorem Delete_at_most_once:
  assumes "client_ok c" and "Delete lib env (Some c) ctx mode addresses w = Some ((rs, err), w')"
  defines "bs \<equiv> chunks (nat (cc_maxOperations (cl_config c))) (map delete_operation addresses)"
  shows "\<exists>k\<le>length bs. w_trace w' = w_trace w @ map (\<lambda>b. EvDelete (delete_request mode b)) (take k bs)
     \<and> (err = None \<longrightarrow> k = length bs)"
  using Delete_sent [OF assms(1,2)] unfolding bs_def .

theorem Delete_at_most_once_witness:
  "\<exists>k\<le>length (chunks 2 (map delete_operation ex_addresses)).
      w_trace ex_delete_world = w_trace ex_world
        @ map (\<lambda>b. EvDelete (delete_request CompletionWaitUntilApplied b)) (take k (chunks 2 (map delete_operation ex_addresses)))
      \<and> k = length (chunks 2 (map delete_operation ex_addresses))"
  using Delete_at_most_once [OF ex_client_ok ex_delete] by (simp add: ex_client_config)

text \<open>
  \<^verbatim>\<open>Write\<close> and \<^verbatim>\<open>Delete\<close> return one result per operation in request order, and with an error those of the
  leading complete batches.
\<close>

theorem mutations_in_request_order:
  assumes "client_ok c"
  defines "m \<equiv> nat (cc_maxOperations (cl_config c))"
  shows "(\<forall>rs err w'. Write lib env (Some c) ctx mode ops w = Some ((rs, err), w') \<longrightarrow>
      numbered wr_OperationIndex wr_Failure 0 rs \<and> (err = None \<longrightarrow> length rs = length ops)
      \<and> (err \<noteq> None \<longrightarrow> (\<exists>k. length rs = k * m \<and> (rs = [] \<or> length rs < length ops))))
    \<and> (\<forall>rs err w'. Delete lib env (Some c) ctx mode addresses w = Some ((rs, err), w') \<longrightarrow>
      numbered dr_OperationIndex dr_Failure 0 rs \<and> (err = None \<longrightarrow> length rs = length addresses)
      \<and> (err \<noteq> None \<longrightarrow> (\<exists>k. length rs = k * m \<and> (rs = [] \<or> length rs < length addresses))))"
  unfolding m_def
  by (intro conjI allI impI; (drule Write_numbered [OF assms(1)] | drule Delete_numbered [OF assms(1)]); simp)

theorem mutations_in_request_order_witness:
  "numbered wr_OperationIndex wr_Failure 0 [ex_written 0, ex_written 1, ex_written 2]
   \<and> length [ex_written 0, ex_written 1, ex_written 2] = length ex_puts
   \<and> numbered dr_OperationIndex dr_Failure 0 [ex_deleted 0, ex_deleted 1, ex_deleted 2]"
  using mutations_in_request_order [OF ex_client_ok, THEN conjunct1, rule_format, OF ex_write]
    mutations_in_request_order [OF ex_client_ok, THEN conjunct2, rule_format, OF ex_delete] by simp

text \<open>
  C5: a configured client's batched calls always return, for any server, context and collection:
  the batch loops terminate and no slice expression is out of range.
\<close>

theorem batched_calls_return:
  assumes "client_ok c"
  shows "Read lib env (Some c) ctx addresses w \<noteq> None \<and> Write lib env (Some c) ctx mode ops w \<noteq> None
     \<and> Delete lib env (Some c) ctx mode addresses w \<noteq> None"
proof -
  note m = client_ok_step [OF assms]
  have "Read_loop lib env rpc (cl_config c) ctx rops 0 [] w \<noteq> None" for rpc rops
    using read_batches.loop_run [OF m, of lib env rpc ctx rops 0 "[]" w] by simp
  moreover have "Write_loop lib env rpc (cl_config c) ctx mode ops 0 [] w \<noteq> None" for rpc
    using write_batches.loop_run [OF m, of lib env rpc ctx mode ops 0 "[]" w] by simp
  moreover have "Delete_loop lib env rpc (cl_config c) ctx mode dops 0 [] w \<noteq> None" for rpc dops
    using delete_batches.loop_run [OF m, of lib env rpc ctx mode dops 0 "[]" w] by simp
  ultimately show ?thesis
    by (auto simp: Read_def Write_def Delete_def split: option.splits)
qed

theorem batched_calls_return_witness:
  "Read ex_lib (ex_env 5) (Some ex_client) () ex_addresses ex_world \<noteq> None
   \<and> Write ex_lib (ex_env 5) (Some ex_client) () 1 ex_puts ex_world \<noteq> None
   \<and> Delete ex_lib (ex_env 5) (Some ex_client) () 1 ex_addresses ex_world \<noteq> None"
  by (rule batched_calls_return [OF ex_client_ok])

text \<open>
  C12: nothing is sent before the whole collection is validated. With one invalid address, or one invalid
  operation, the call returns an error and no results, and the outside world is untouched,
  for any client.
\<close>

theorem invalid_never_sent:
  shows "((\<exists>a\<in>set addresses. Address_validate a \<noteq> None) \<longrightarrow>
      (\<exists>e. Read lib env c ctx addresses w = Some (([], Some e), w))
      \<and> (\<exists>e. Delete lib env c ctx mode addresses w = Some (([], Some e), w)))
    \<and> ((\<exists>op\<in>set ops. WriteOperation_validate lib op \<noteq> None
            \<or> wo_returnDocument op \<and> mode = CompletionReturnAfterAccepted) \<longrightarrow>
      (\<exists>e. Write lib env c ctx mode ops w = Some (([], Some e), w)))"
  using validate_addresses_None [of "''read''" 0 addresses] validate_addresses_None [of "''delete''" 0 addresses]
    Write_validate_operations_None [of lib mode 0 ops]
  by (auto simp: Read_def Write_def Delete_def split: option.splits)

theorem invalid_never_sent_witness:
  "\<exists>e. Read ex_lib (ex_env 0) (Some ex_client) () [ex_address ''a'', \<lparr>Address_value = ''http://x'', Address_store = [],
      Address_segments = []\<rparr>] ex_world = Some (([], Some e), ex_world)"
proof -
  have "Address_validate \<lparr>Address_value = ''http://x'', Address_store = [], Address_segments = []\<rparr> \<noteq> None"
    by (simp add: Address_validate_def NewAddress_def Parse_def CutPrefix_def MaxAddressBytes_def)
  then show ?thesis using invalid_never_sent [of "[ex_address ''a'', \<lparr>Address_value = ''http://x'', Address_store = [],
      Address_segments = []\<rparr>]" ex_lib "ex_env 0" "Some ex_client" "()" ex_world] by auto
qed

text \<open>
  C27: a write request declares every Lua program its merges refer to exactly once: the declared digests are
  distinct and are the digests of the batch's merge operations, and each declared program carries the source
  and digest of one of these operations.
\<close>

theorem lua_programs_declared_once:
  "distinct (program_digests (pbWriteRequest_LuaPrograms (write_request mode ops)))
   \<and> set (program_digests (pbWriteRequest_LuaPrograms (write_request mode ops)))
       = merge_digest ` {op \<in> set ops. wo_action op = writeActionMerge}
   \<and> (\<forall>p. Some p \<in> set (pbWriteRequest_LuaPrograms (write_request mode ops)) \<longrightarrow>
        (\<exists>op\<in>set ops. wo_action op = writeActionMerge \<and> pbLuaProgram_Source p = lua_source (mo_program (wo_merge op))
          \<and> pbLuaProgram_Sha256 p = merge_digest op))"
  using lua_programs_digests [of "[]" ops] lua_programs_source [of _ "[]" ops]
  by (simp add: write_request_def)

definition ex_merge :: "bytes \<Rightarrow> WriteOperation" where
  "ex_merge name = (ex_put name)\<lparr>wo_action := writeActionMerge,
     wo_merge := \<lparr>mo_incoming = empty_Document, mo_program = \<lparr>lua_source = ''return 1'', lua_sha256 = replicate 32 (chr 7)\<rparr>\<rparr>\<rparr>"

theorem lua_programs_declared_once_witness:
  "set (program_digests (pbWriteRequest_LuaPrograms (write_request CompletionWaitUntilApplied [ex_merge ''a'', ex_put ''b'', ex_merge ''c''])))
     = {replicate 32 (chr 7)}"
proof -
  let ?ops = "[ex_merge ''a'', ex_put ''b'', ex_merge ''c'']"
  have "{op \<in> set ?ops. wo_action op = writeActionMerge} = {ex_merge ''a'', ex_merge ''c''}"
    by (auto simp: ex_merge_def ex_put_def)
  moreover have "merge_digest (ex_merge n) = replicate 32 (chr 7)" for n
    by (simp add: merge_digest_def ex_merge_def)
  ultimately show ?thesis
    using lua_programs_declared_once [THEN conjunct2, THEN conjunct1, of CompletionWaitUntilApplied ?ops] by simp
qed

section \<open>Results belong to their operations\<close>

text \<open>
  C2: every result of \<^verbatim>\<open>Read\<close> answers the address at its position. If \<open>ans op p\<close> holds of every result \<open>p\<close> the
  server returns for an operation \<open>op\<close> of a request, then result \<open>i\<close> is the conversion, under index \<open>i\<close>, of a
  result for address \<open>i\<close>, whatever batches, orders of results and retries there were.
\<close>

theorem Read_answers_own_address:
  assumes "client_ok c" and "honest_read env ans"
    and "Read lib env (Some c) ctx addresses w = Some ((rs, err), w')"
  shows "\<forall>i<length rs. i < length addresses
     \<and> (\<exists>p. ans (read_operation (addresses ! i)) p \<and> readResultFromProto lib i p = Inr (rs ! i))"
  using assms(3)
proof (cases rule: Read_unfold)
  case rejected
  then show ?thesis by simp
next
  case sent
  from read_answers.loop_answered [OF conjI [OF client_ok_attempts(1) [OF assms(1)] assms(2)] client_ok_step [OF assms(1)] this]
  show ?thesis by (auto simp: answers_def read_answered_def)
qed

theorem Read_answers_own_address_witness:
  "\<exists>p. pbReadResult_Status p = ReadNotFound \<and> readResultFromProto ex_lib 2 p = Inr (ex_not_found 2)"
  using Read_answers_own_address [OF ex_client_ok ex_honest(1) ex_read, rule_format, of 2] by simp

text \<open>
  C8: the same for the mutations: every result of \<^verbatim>\<open>Write\<close> and of \<^verbatim>\<open>Delete\<close> is the conversion of a
  server's result for the operation at its position.
\<close>

theorem mutations_answer_own_operation:
  assumes "client_ok c" and "honest_write env wans" and "honest_delete env dans"
  shows "(\<forall>rs err w'. Write lib env (Some c) ctx mode ops w = Some ((rs, err), w') \<longrightarrow> (\<forall>i<length rs. i < length ops
       \<and> (\<exists>p. wans (WriteOperation_toProto (ops ! i)) p \<and> writeResultFromProto lib i p = Inr (rs ! i))))
     \<and> (\<forall>rs err w'. Delete lib env (Some c) ctx mode addresses w = Some ((rs, err), w') \<longrightarrow> (\<forall>i<length rs. i < length addresses
       \<and> (\<exists>p. dans (delete_operation (addresses ! i)) p \<and> deleteResultFromProto lib i p = Inr (rs ! i))))"
proof (intro conjI allI impI)
  fix rs err w' i assume run: "Write lib env (Some c) ctx mode ops w = Some ((rs, err), w')" and i: "i < length rs"
  have "answers (write_answered lib wans) 0 ops rs"
    using run
  proof (cases rule: Write_unfold)
    case sent
    then show ?thesis by (rule write_answers.loop_answered [OF assms(2) client_ok_step [OF assms(1)]])
  qed (simp add: answers_def)
  then show "i < length ops" "\<exists>p. wans (WriteOperation_toProto (ops ! i)) p \<and> writeResultFromProto lib i p = Inr (rs ! i)"
    using i by (auto simp: answers_def write_answered_def)
next
  fix rs err w' i assume run: "Delete lib env (Some c) ctx mode addresses w = Some ((rs, err), w')" and i: "i < length rs"
  have "answers (delete_answered lib dans) 0 (map delete_operation addresses) rs"
    using run
  proof (cases rule: Delete_unfold)
    case sent
    then show ?thesis by (rule delete_answers.loop_answered [OF assms(3) client_ok_step [OF assms(1)]])
  qed (simp add: answers_def)
  then show "i < length addresses"
    "\<exists>p. dans (delete_operation (addresses ! i)) p \<and> deleteResultFromProto lib i p = Inr (rs ! i)"
    using i by (auto simp: answers_def delete_answered_def)
qed

theorem mutations_answer_own_operation_witness:
  "(\<exists>p. pbWriteResult_Status p = WriteApplied \<and> writeResultFromProto ex_lib 2 p = Inr (ex_written 2))
   \<and> (\<exists>p. pbDeleteResult_Status p = DeleteApplied \<and> deleteResultFromProto ex_lib 1 p = Inr (ex_deleted 1))"
  using mutations_answer_own_operation [OF ex_client_ok ex_honest(2,3), THEN conjunct1, rule_format, OF ex_write, of 2]
    mutations_answer_own_operation [OF ex_client_ok ex_honest(2,3), THEN conjunct2, rule_format, OF ex_delete, of 1]
  by simp

text \<open>
  C4: \<^verbatim>\<open>Write\<close> refines one request to the documented service. The service performs the operations of a request with the same address
  in request order, those with different addresses in any order, each merge with the program that the request declares under its
  digest; operations may fail or be folded, and requests may fail. Then \<^verbatim>\<open>Write\<close> of a valid collection returns, and its results
  are those of performing the leading operations of the collection in such an order, each with its own program, numbered through. Without
  an error these are all operations, and the service is in the state after them. With an error they are the operations before the batch that failed,
  and the state is what that batch's request left. There is no error when the service answers every request with readable results. The
  hypothesis on digests is that no two different programs of the collection have the same SHA-256.
\<close>

theorem Write_refines_service:
  assumes "client_ok c" and "cc_maxOperations (cl_config c) \<le> 2 ^ 32" and "write_service env mode exec"
    and "ops \<noteq> []" and "validCompletionMode mode" and "Write_validate_operations lib mode 0 ops = None"
    and "inj_on Sum256 (merge_sources (set ops))"
  shows "\<exists>rs err w' ps w1. Write lib env (Some c) ctx mode ops w = Some ((rs, err), w')
     \<and> performs op_address exec (map full_operation (take (length rs) ops)) (w_st w) ps (w_st w1)
     \<and> converted (writeResultFromProto lib) 0 ps rs
     \<and> (case err of
          None \<Rightarrow> length rs = length ops \<and> w' = w1
        | Some e \<Rightarrow> length rs < length ops \<and> writeBatch lib env (the (cl_rpc c)) (cl_config c) ctx mode
            (take (nat (cc_maxOperations (cl_config c))) (drop (length rs) ops)) w1 = (Inl e, w'))
     \<and> (write_answering lib env mode (set ops) \<longrightarrow> err = None)"
proof -
  let ?m = "nat (cc_maxOperations (cl_config c))"
  note m = client_ok_step [OF assms(1)]
  have ok: "write_service env mode exec \<and> cc_maxOperations (cl_config c) \<le> 2 ^ 32 \<and> digests_ok (set ops)"
    using assms(2,3) digests_ok_validated [OF assms(6,7)] by simp
  obtain rs err w' where run: "Write_loop lib env (the (cl_rpc c)) (cl_config c) ctx mode ops 0 [] w = Some ((rs, err), w')"
    using write_batches.loop_run [OF m, of lib env "the (cl_rpc c)" ctx mode ops 0 "[]" w]
    by (cases "run_batches (writeBatch lib env (the (cl_rpc c)) (cl_config c) ctx mode) remapWriteIndexes 0
      (chunks (nat (cc_maxOperations (cl_config c))) ops) [] w") auto
  have "validateCollection (Some c) ''write'' (length ops) = None"
    using assms(1,4) by (simp add: validateCollection_def client_ok_def)
  then have whole: "Write lib env (Some c) ctx mode ops w = Some ((rs, err), w')"
    using run assms(5,6) by (simp add: Write_def)
  obtain ps w1 where ps: "performs op_address exec (map full_operation (take (length rs) ops)) (w_st w) ps (w_st w1)"
      "converted (writeResultFromProto lib) 0 ps rs"
    and e: "case err of None \<Rightarrow> length rs = length ops \<and> w' = w1
       | Some e \<Rightarrow> length rs < length ops
           \<and> writeBatch lib env (the (cl_rpc c)) (cl_config c) ctx mode (take ?m (drop (length rs) ops)) w1 = (Inl e, w')"
    using write_performed.loop_performs [OF ok m subset_refl run] by blast
  have "set (take ?m (drop (length rs) ops)) \<subseteq> set ops" by (meson order_trans set_drop_subset set_take_subset)
  from writeBatch_succeeds [OF ok _ this, of lib "the (cl_rpc c)" ctx w1] e have "write_answering lib env mode (set ops) \<longrightarrow> err = None"
    by (auto split: option.splits)
  then show ?thesis using whole ps e by blast
qed

theorem Write_refines_service_witness:
  "\<exists>w' ps. Write ex_lib ex_merge_env (Some ex_client) () CompletionWaitUntilApplied ex_merges ex_world
       = Some (([ex_merged 0, ex_merged 1, ex_merged 2], None), w')
     \<and> performs op_address (\<lambda>op s p s'. ex_merge_srv op s = (p, s')) (map full_operation ex_merges) 0 ps (w_st w')
     \<and> converted (writeResultFromProto ex_lib) 0 ps [ex_merged 0, ex_merged 1, ex_merged 2]"
proof -
  have "ex_merges \<noteq> []" "length ex_merges = 3" by (simp_all add: ex_merges_def ex_names_def)
  then show ?thesis
    using Write_refines_service [OF ex_client_ok _ ex_merge_service _ _ ex_merges_valid(2), of "()" ex_world] ex_merge_write
    by (auto simp: ex_client_config validCompletionMode_def ex_merge_sources ex_world_def)
qed

text \<open>
  C11: \<^verbatim>\<open>Delete\<close> refines the sequential server in the same way: deleting a collection of valid addresses is one run over all of
  them, with that run's results, failures of single operations included.
\<close>

theorem Delete_refines_serve:
  assumes "client_ok c" and "cc_maxOperations (cl_config c) \<le> 2 ^ 32" and "sequential_delete env mode srv"
    and "addresses \<noteq> []" and "validCompletionMode mode" and "validate_addresses ''delete'' 0 addresses = None"
    and "\<forall>a\<in>set addresses. delete_well lib srv (delete_operation a)"
  shows "\<exists>w'. Delete lib env (Some c) ctx mode addresses w
       = Some ((convert (delete_conv lib) 0 (fst (serve srv (map delete_operation addresses) (w_st w))), None), w')
     \<and> w_st w' = snd (serve srv (map delete_operation addresses) (w_st w))"
proof -
  have "validateCollection (Some c) ''delete'' (length addresses) = None"
    using assms(1,4) by (simp add: validateCollection_def client_ok_def)
  moreover have well: "\<forall>op\<in>set (map delete_operation addresses). delete_well lib srv op" using assms(7) by simp
  ultimately show ?thesis
    using delete_seq.loop_serves [OF conjI [OF assms(3,2)] client_ok_step [OF assms(1)] well] assms(5,6)
    by (simp add: Delete_def)
qed

theorem Delete_refines_serve_witness:
  "\<exists>w' e. Delete ex_lib ex_delete_env (Some ex_client) () CompletionWaitUntilApplied ex_addresses ex_world
      = Some (([(ex_deleted 0)\<lparr>dr_Status := DeleteFailed, dr_Failure := Some e\<rparr>, ex_deleted 1, ex_deleted 2], None), w')
     \<and> oe_Code e = FailureNotFound \<and> w_st w' = 3"
proof -
  have run: "serve ex_delete_srv (map delete_operation ex_addresses) (w_st ex_world)
      = (map (\<lambda>i. fst (ex_delete_srv (delete_operation (ex_address ''a'')) i)) [0, 1, 2], 3)"
    by (simp add: ex_addresses_def ex_names_def ex_world_def ex_delete_srv_def)
  have conv: "\<exists>e. convert (delete_conv ex_lib) 0 (map (\<lambda>i. fst (ex_delete_srv (delete_operation (ex_address ''a'')) i)) [0, 1, 2])
      = [(ex_deleted 0)\<lparr>dr_Status := DeleteFailed, dr_Failure := Some e\<rparr>, ex_deleted 1, ex_deleted 2]
      \<and> oe_Code e = FailureNotFound"
    by (simp add: convert_def delete_conv_def ex_delete_srv_def deleteResultFromProto_def operationFailure_def ex_deleted_def
        upt_rec)
  have "ex_addresses \<noteq> []" by (simp add: ex_addresses_def ex_names_def)
  then show ?thesis
    using Delete_refines_serve [OF ex_client_ok _ ex_delete_sequential _ _ ex_validated(3), of CompletionWaitUntilApplied ex_lib "()" ex_world] conv
    unfolding run fst_conv snd_conv by (auto simp: ex_client_config validCompletionMode_def ex_delete_well)
qed

section \<open>Creating clients\<close>

text \<open>
  C28: \<^verbatim>\<open>Dial\<close> never leaks a connection. It returns either a configured client that owns the connection it created, with nothing
  closed; or an error, and then a connection that was created has been closed, exactly once.
\<close>

theorem Dial_owns_or_closes:
  assumes "Dial env newClient target opts w = (r, w')"
  shows "(\<exists>c k. r = Inr c \<and> newClient target (dial_options opts) = Inr k \<and> client_ok c
            \<and> cl_connection c = Some k \<and> cl_rpc c = Some k \<and> w' = w)
    \<or> (\<exists>e. r = Inl e \<and> ((\<exists>k. newClient target (dial_options opts) = Inr k \<and> w_trace w' = w_trace w @ [EvClose])
            \<or> w' = w \<and> (TrimSpace target = [] \<or> do_DNSRefreshInterval opts < 0
                  \<or> (\<exists>e'. newClient target (dial_options opts) = Inl e'))))"
proof (cases "TrimSpace target = [] \<or> do_DNSRefreshInterval opts < 0")
  case True
  then show ?thesis using assms by (auto simp: Dial_def split: if_splits)
next
  case False
  show ?thesis
  proof (cases "newClient target (dial_options opts)")
    case (Inl e)
    then show ?thesis using assms False by (auto simp: Dial_def)
  next
    case (Inr k)
    show ?thesis
    proof (cases "New (Some k) (do_Client opts)")
      case err: (Inl e)
      obtain x w1 where "close_connection env k w = (x, w1)" by (cases "close_connection env k w")
      moreover from this have "w_trace w1 = w_trace w @ [EvClose]"
        by (auto simp: close_connection_def dest: call_trace)
      moreover have "(r, w') = (Inl e, snd (close_connection env k w))"
        using assms False Inr err by (simp add: Dial_def)
      ultimately show ?thesis using Inr by auto
    next
      case c: (Inr c)
      have "(r, w') = (Inr (c\<lparr>cl_connection := Some k\<rparr>), w)" using assms False Inr c by (simp add: Dial_def)
      then show ?thesis using New_ok [OF c] Inr by (auto simp: client_ok_def)
    qed
  qed
qed

definition ex_dial :: "unit DialOptions" where
  "ex_dial = \<lparr>do_Client = ex_options, do_TransportCredentials = None, do_GRPCOptions = [()], do_DNSRefreshInterval = 0\<rparr>"

lemma ex_dial_run:
  "Dial (ex_env 0) (\<lambda>t os. Inr ()) ''sink:443'' ex_dial ex_world
    = (Inr (ex_client\<lparr>cl_connection := Some ()\<rparr>), ex_world)"
proof -
  have "TrimSpace ''sink:443'' = ''sink:443''" by code_simp
  moreover have "New (Some ()) ex_options = Inr ex_client" by code_simp
  ultimately show ?thesis by (simp add: Dial_def ex_dial_def)
qed

theorem Dial_owns_or_closes_witness:
  "client_ok (ex_client\<lparr>cl_connection := Some ()\<rparr>)"
  using Dial_owns_or_closes [OF ex_dial_run] by simp

section \<open>Native operations\<close>

text \<open>
  C24: \<^verbatim>\<open>Execute\<close>, \<^verbatim>\<open>Query\<close> and \<^verbatim>\<open>Count\<close> make exactly one request when there is a connection and the
  request is valid, the one that was validated, and none otherwise: native commands are never repeated.
\<close>

theorem native_calls_once:
  "w_trace (snd (Execute lib env c ctx cmd w)) = w_trace w @
     (case (rpc_of c, Command_toProto lib cmd) of
        (Some _, Inr p) \<Rightarrow> [EvExecute \<lparr>pbExecuteRequest_Command = Some p, pbExecuteRequest_unknownFields = []\<rparr>] | _ \<Rightarrow> [])
   \<and> w_trace (snd (Count lib env c ctx cmd w)) = w_trace w @
     (case (rpc_of c, Command_toProto lib cmd) of
        (Some _, Inr p) \<Rightarrow> [EvCount \<lparr>pbCountRequest_Command = Some p, pbCountRequest_unknownFields = []\<rparr>] | _ \<Rightarrow> [])
   \<and> w_trace (snd (Query lib env c ctx req w)) = w_trace w @
     (case (rpc_of c, query_request lib req) of (Some _, Inr q) \<Rightarrow> [EvQuery q] | _ \<Rightarrow> [])"
  by (simp add: Execute_sent Count_sent Query_sent)

text \<open>
  C25: the outcomes of \<^verbatim>\<open>Execute\<close>. Without an error the response is a successful one. The error is a \<^verbatim>\<open>NativeError\<close>
  exactly when the server answered without success, and it carries the response that is also returned. With any other
  error the response is empty.
\<close>

theorem Execute_outcome:
  assumes "Execute lib env c ctx cmd w = ((resp, err), w')"
  shows "case err of
      None \<Rightarrow> xr_Success resp \<and> length (w_trace w') = Suc (length (w_trace w))
    | Some (NativeErr r) \<Rightarrow> r = resp \<and> \<not> xr_Success resp \<and> length (w_trace w') = Suc (length (w_trace w))
    | Some _ \<Rightarrow> resp = empty_ExecuteResponse"
  using assms Command_toProto_not_native [of lib cmd]
  by (auto simp: Execute_def Let_def protocolError_def dest!: stub_trace
      split: option.splits sum.splits prod.splits if_splits go_error.splits)

theorem Execute_outcome_witness:
  "\<exists>resp w'. Execute ex_lib (ex_env 0) (Some ex_client) () ex_native ex_world = ((resp, None), w')
     \<and> xr_Success resp \<and> length (w_trace w') = 1"
proof -
  obtain resp w' where run: "Execute ex_lib (ex_env 0) (Some ex_client) () ex_native ex_world = ((resp, None), w')"
    using ex_execute by blast
  from Execute_outcome [OF run] run show ?thesis by (simp add: ex_world_def)
qed

text \<open>
  C26: what \<^verbatim>\<open>Query\<close> and \<^verbatim>\<open>Scan\<close> accept as a page. A returned page has at most the requested number of documents
  (100 by default) and only valid documents; a query page that announces more is full; a scan page with a cursor is not empty, and
  its cursor can be sent back: the request for the next page passes the client's own validation.
\<close>

theorem pages_respected:
  "(Query lib env c ctx req w = ((page, None), w') \<longrightarrow>
      (let n = (if qr_PageSize req = 0 then 100 else qr_PageSize req)
       in int (length (pg_Documents page)) \<le> n \<and> (pg_HasMore page \<longrightarrow> int (length (pg_Documents page)) = n)
          \<and> (\<forall>d\<in>set (pg_Documents page). Document_validate lib d = None)))
   \<and> (Scan lib env c ctx sreq w = ((spage, None), w'') \<longrightarrow>
      int (length (sp_Documents spage)) \<le> (if sr_BatchSize sreq = 0 then 100 else sr_BatchSize sreq)
      \<and> (sp_NextCursor spage \<noteq> [] \<longrightarrow> sp_Documents spage \<noteq> [])
      \<and> (\<forall>d\<in>set (sp_Documents spage). Document_validate lib d = None)
      \<and> (\<exists>q. scan_request lib (sreq\<lparr>sr_Cursor := sp_NextCursor spage\<rparr>) = Inr q \<and> pbScanRequest_Cursor q = sp_NextCursor spage))"
  unfolding Let_def by (intro conjI impI; (drule Query_page | drule Scan_page); blast)

theorem pages_respected_witness:
  "\<exists>q. scan_request ex_lib (ex_scan\<lparr>sr_Cursor := []\<rparr>) = Inr q \<and> pbScanRequest_Cursor q = []"
proof -
  obtain w' where "Scan ex_lib (ex_env 1) (Some ex_client) () ex_scan ex_world = ((empty_ScanResponse, None), w')"
    using ex_scanned by blast
  with pages_respected [THEN conjunct2, of ex_lib "ex_env 1" "Some ex_client" "()" ex_scan ex_world empty_ScanResponse w']
  show ?thesis by (simp add: empty_ScanResponse_def)
qed

text \<open>
  C13: \<^verbatim>\<open>Scan\<close> sends the validated request at most \<^verbatim>\<open>MaxAttempts\<close> times, unchanged, with a wait between two of them; and it
  sends it more than once only if the first answer was an admission rejection that the server marked as such.
\<close>

theorem Scan_attempts_bounded:
  assumes "client_ok c" and "Scan lib env (Some c) ctx req w = ((page, err), w')"
  shows "\<exists>evs. w_trace w' = w_trace w @ evs
     \<and> (evs = [] \<or> (\<exists>request. scan_request lib req = Inr request
          \<and> scan_trace (nat (rp_MaxAttempts (cc_scanRetry (cl_config c)))) request evs
          \<and> (length (scans evs) \<le> 1 \<or> (\<exists>e w1. sinkClient_Scan env (the (cl_rpc c))
                 (WithTimeout env ctx (cc_scanTimeout (cl_config c)) (w_st w)) request
                 (cc_sinkCallOptions (cl_config c)) w = (Inl e, w1) \<and> retryableScanAdmission lib e))))"
  using assms(2)
proof (cases rule: Scan_unfold)
  case rejected
  then show ?thesis by auto
next
  case (sent rpc request r)
  have "1 \<le> rp_MaxAttempts (cc_scanRetry (cl_config c)) + 1" using client_ok_attempts(2) [OF assms(1)] by simp
  from scanAttempts_trace [OF sent(3) this] obtain evs where evs: "w_trace w' = w_trace w @ evs"
    and tr: "scan_trace (nat (rp_MaxAttempts (cc_scanRetry (cl_config c)))) request evs" by auto
  have "length (scans evs) \<le> 1 \<or> (\<exists>e w1. sinkClient_Scan env rpc
      (WithTimeout env ctx (cc_scanTimeout (cl_config c)) (w_st w)) request
      (cc_sinkCallOptions (cl_config c)) w = (Inl e, w1) \<and> retryableScanAdmission lib e)"
    using scanAttempts_unmarked [OF sent(3)] evs by force
  then show ?thesis using evs tr sent(1,2) by (intro exI [of _ evs]) auto
qed

theorem Scan_attempts_bounded_witness:
  "\<exists>w' evs. w_trace w' = w_trace ex_world @ evs
     \<and> (evs = [] \<or> (\<exists>request. scan_request ex_lib ex_scan = Inr request \<and> scan_trace 3 request evs))
     \<and> Scan ex_lib (ex_env 1) (Some ex_client) () ex_scan ex_world = ((empty_ScanResponse, None), w')"
proof -
  obtain w' where run: "Scan ex_lib (ex_env 1) (Some ex_client) () ex_scan ex_world = ((empty_ScanResponse, None), w')"
    using ex_scanned by blast
  from Scan_attempts_bounded [OF ex_client_ok run] run show ?thesis by (auto simp: ex_client_config)
qed

section \<open>Datasets\<close>

text \<open>
  C21: what a dataset writes. \<^verbatim>\<open>Create\<close>, \<^verbatim>\<open>Replace\<close>, \<^verbatim>\<open>Upsert\<close> and \<^verbatim>\<open>Merge\<close> either touch nothing and return an error, or send the
  leading batches (without an error all of them, with one result per record) of operations that correspond to the records one by one: the
  record's address under the dataset's resource, its document in the dataset's encoding, the method's mode or the
  dataset's program, and the record's wish for the document; each operation passes the client's validation.
\<close>

theorem Dataset_writes_records:
  assumes "client_ok c" and "ds_client d = Some c"
  defines "m \<equiv> nat (cc_maxOperations (cl_config c))"
  shows "(\<forall>wmode operation rs err w'. Dataset_put lib env (Some d) ctx mode wmode operation records w = Some ((rs, err), w') \<longrightarrow>
      w' = w \<and> rs = [] \<and> err \<noteq> None
      \<or> (\<exists>ops k. list_all2 (record_put lib d wmode) records ops \<and> sent_batches mode m ops k w w'
            \<and> (err = None \<longrightarrow> k = length (chunks m ops) \<and> length rs = length records)))
    \<and> (\<forall>rs err w'. Dataset_Merge lib env (Some d) ctx mode records w = Some ((rs, err), w') \<longrightarrow>
      w' = w \<and> rs = [] \<and> err \<noteq> None
      \<or> (\<exists>ops k. list_all2 (record_merge lib d) records ops \<and> sent_batches mode m ops k w w'
            \<and> (err = None \<longrightarrow> k = length (chunks m ops) \<and> length rs = length records)))"
  unfolding m_def by (intro conjI allI impI) (erule Dataset_put_writes [OF assms(1,2)] Dataset_Merge_writes [OF assms(1,2)])+

theorem Dataset_writes_records_witness:
  "\<exists>w' ops k. Dataset_Upsert ex_lib (ex_env 0) (Some ex_dataset) () CompletionWaitUntilApplied ex_records ex_world
        = Some (([ex_written 0], None), w')
     \<and> list_all2 (record_put ex_lib ex_dataset WriteUpsert) ex_records ops
     \<and> sent_batches CompletionWaitUntilApplied 2 ops k ex_world w' \<and> k = length (chunks 2 ops)"
proof -
  obtain w' where run: "Dataset_put ex_lib (ex_env 0) (Some ex_dataset) () CompletionWaitUntilApplied WriteUpsert ''upsert''
      ex_records ex_world = Some (([ex_written 0], None), w')"
    using ex_upsert unfolding Dataset_Upsert_def by blast
  from Dataset_writes_records [OF ex_client_ok ex_dataset_fields(1), THEN conjunct1, rule_format, OF run] show ?thesis
    using run by (auto simp: Dataset_Upsert_def ex_client_config)
qed

text \<open>
  C22: no failure is lost. Every failure in a result of \<^verbatim>\<open>Dataset.Read\<close>, of the put methods and of
  \<^verbatim>\<open>Merge\<close> is in the tree of the returned error, where \<^verbatim>\<open>errors.As\<close> finds it, together with any error of the client's call.
\<close>

theorem Dataset_failures_reported:
  "(Dataset_Read lib env d ctx keys w = Some ((rs, err), w') \<longrightarrow>
      (\<forall>r\<in>set rs. \<forall>f. rr_Failure r = Some f \<longrightarrow> (\<exists>e. err = Some e \<and> OperationErr f \<in> set (error_tree e))))
   \<and> (Dataset_put lib env d ctx mode wmode operation records w = Some ((ws, werr), ww) \<longrightarrow>
      (\<forall>r\<in>set ws. \<forall>f. wr_Failure r = Some f \<longrightarrow> (\<exists>e. werr = Some e \<and> OperationErr f \<in> set (error_tree e))))
   \<and> (Dataset_Merge lib env d ctx mode records w = Some ((ms, merr), mw) \<longrightarrow>
      (\<forall>r\<in>set ms. \<forall>f. wr_Failure r = Some f \<longrightarrow> (\<exists>e. merr = Some e \<and> OperationErr f \<in> set (error_tree e))))"
  by (auto dest: Dataset_Read_reported Dataset_put_reported Dataset_Merge_reported)

theorem Dataset_failures_reported_witness:
  "\<exists>e w'. Dataset_Read ex_lib ex_busy_env (Some ex_dataset) () [sink_StringKey ''1''] ex_world = Some (([ex_busy_result], Some e), w')
     \<and> OperationErr (the (rr_Failure ex_busy_result)) \<in> set (error_tree e)"
proof -
  obtain err w' where run: "Dataset_Read ex_lib ex_busy_env (Some ex_dataset) () [sink_StringKey ''1''] ex_world
      = Some (([ex_busy_result], err), w')" using ex_busy_dataset by blast
  from Dataset_failures_reported [THEN conjunct1, rule_format, OF run, of ex_busy_result "the (rr_Failure ex_busy_result)"] run
  show ?thesis by (auto simp: ex_busy_result_def)
qed

text \<open>
  C23: a dataset's native operations stay in its resource: every request they send carries a command whose URI is the
  dataset's, whatever URI the caller's command has; the rest of the trace are waits between scan attempts.
\<close>

theorem Dataset_native_stays:
  assumes "client_ok c" and "ds_client d = Some c"
    and "w' \<in> {snd (Dataset_Execute lib env (Some d) ctx cmd w), snd (Dataset_Count lib env (Some d) ctx cmd w),
      snd (Dataset_Query lib env (Some d) ctx qreq w), snd (Dataset_Scan lib env (Some d) ctx sreq w)}"
  shows "\<exists>evs. w_trace w' = w_trace w @ evs \<and> (\<forall>ev\<in>set evs. (\<exists>t. ev = EvSleep t) \<or> event_uri ev = Some (ds_uri d))"
proof -
  have "stays (ds_uri d) w w'"
    using assms(3) Dataset_Execute_uri Dataset_Count_uri Dataset_Query_uri Dataset_Scan_uri [OF assms(1,2)] by auto
  then show ?thesis by (simp add: stays_def)
qed

theorem Dataset_native_stays_witness:
  "\<exists>evs. w_trace (snd (Dataset_Execute ex_lib (ex_env 0) (Some ex_dataset) () (ex_native\<lparr>cmd_URI := []\<rparr>) ex_world)) = evs
     \<and> (\<forall>ev\<in>set evs. (\<exists>t. ev = EvSleep t) \<or> event_uri ev = Some ''sink://s/r'')"
  using Dataset_native_stays [OF ex_client_ok ex_dataset_fields(1) insertI1,
      of ex_lib "ex_env 0" "()" "ex_native\<lparr>cmd_URI := []\<rparr>" ex_world]
  by (simp add: ex_dataset_fields ex_world_def)

section \<open>The client over the codec\<close>

text \<open>
  C14: what the client sends is what the server receives. Every request that a call of a configured client adds to the trace
  is a message that crosses the wire: the codec's \<^verbatim>\<open>Marshal\<close> gives its bytes without an error, and \<^verbatim>\<open>Unmarshal\<close> of these bytes, cut into
  any pieces, gives a message equal to the one the client built.
\<close>

theorem requests_cross_the_wire:
  assumes "helpers_ok h" and "client_ok c"
    and "Read lib env (Some c) ctx addresses w = Some (r1, w') \<or> Write lib env (Some c) ctx mode ops w = Some (r2, w')
      \<or> Delete lib env (Some c) ctx mode addresses w = Some (r3, w') \<or> w' = snd (Execute lib env (Some c) ctx cmd w)
      \<or> w' = snd (Query lib env (Some c) ctx qreq w) \<or> w' = snd (Count lib env (Some c) ctx cmd w)
      \<or> w' = snd (Scan lib env (Some c) ctx sreq w)"
  shows "sends_crossing h w w'"
  using assms(3)
  by (auto intro!: sends_wf_crossing [OF assms(1)] native_sends_wf Scan_sends_wf [OF assms(2)]
      dest: Read_sends_wf [OF assms(2)] Write_sends_wf [OF assms(2)] Delete_sends_wf [OF assms(2)])

theorem requests_cross_the_wire_witness:
  "length (event_bytes ex_helpers (hd (w_trace ex_write_world))) = 62
   \<and> event_crosses ex_helpers (hd (w_trace ex_write_world))"
proof -
  have "length (event_bytes ex_helpers (hd (w_trace ex_write_world))) = 62" by code_simp
  with requests_cross_the_wire [OF ex_helpers_ok(1) ex_client_ok disjI2 [OF disjI1 [OF ex_write]]] show ?thesis
    by (auto simp: sends_crossing_def ex_world_def ex_write_world_def)
qed

section \<open>The client, the wire and a service\<close>

text \<open>
  C15: the wire is invisible. Let gRPC carry the client's calls over a link to a service, with the codec on both ends, the generated
  messages and the generated handlers. Then every call of a configured client gives the same results, and leaves the world in the same state, as
  when it hands its messages to the methods of the service directly: each request reaches the method it names as the message that the
  client built, and each response reaches the client as the method returned it. Where the link fails, both calls fail
  alike.
\<close>

theorem wire_invisible:
  assumes "helpers_ok h" and "link_ok lk" and "transparent (lk_interceptor lk)" and "service_wf h srv"
    and "carries lk h srv env" and "client_ok c"
  shows "Read lib env (Some c) ctx addresses w = Read lib (direct_env lk h srv env) (Some c) ctx addresses w
    \<and> Write lib env (Some c) ctx mode ops w = Write lib (direct_env lk h srv env) (Some c) ctx mode ops w
    \<and> Delete lib env (Some c) ctx mode addresses w = Delete lib (direct_env lk h srv env) (Some c) ctx mode addresses w
    \<and> Execute lib env (Some c) ctx cmd w = Execute lib (direct_env lk h srv env) (Some c) ctx cmd w
    \<and> Query lib env (Some c) ctx qreq w = Query lib (direct_env lk h srv env) (Some c) ctx qreq w
    \<and> Count lib env (Some c) ctx cmd w = Count lib (direct_env lk h srv env) (Some c) ctx cmd w
    \<and> Scan lib env (Some c) ctx sreq w = Scan lib (direct_env lk h srv env) (Some c) ctx sreq w"
  using carries_agrees [OF assms(1-5)] by (intro conjI record_calls_same native_calls_same assms(6))

theorem wire_invisible_witness:
  "\<exists>w'. Write ex_lib (wire_env ex_link ex_helpers ex_service (ex_env 0)) (Some ex_client) () CompletionWaitUntilApplied ex_puts ex_world
     = Some ((map (\<lambda>i. (ex_written (int i))\<lparr>wr_Revision := [char_of i]\<rparr>) [0, 1, 2], None), w') \<and> w_st w' = 3"
proof -
  have same: "Write ex_lib (wire_env ex_link ex_helpers ex_service (ex_env 0)) (Some ex_client) () CompletionWaitUntilApplied ex_puts ex_world
      = Write ex_lib (direct_env ex_link ex_helpers ex_service (ex_env 0)) (Some ex_client) () CompletionWaitUntilApplied ex_puts ex_world"
    using wire_invisible [OF ex_helpers_ok(1) ex_link_ok ex_service_wf wire_env_carries ex_client_ok, where lib = ex_lib]
    by (simp add: direct_wire_env)
  show ?thesis
    using ex_wire_loop unfolding same by (auto simp: Write_def ex_run_defs)
qed

text \<open>
  C6: over a link that may fail at any point, \<^verbatim>\<open>Write\<close> and \<^verbatim>\<open>Delete\<close> have the service's method run on the requests of leading batches, each
  once and in order, and nothing else changes the service's data, whatever the method does and answers. The results that are returned are
  those in the answers to these runs, renumbered by the position of their batch, with at most the last run's missing: that run was made but its
  outcome is unknown to the caller. Without an error there is a run for every batch and all their results are returned.
\<close>

theorem mutations_executed_once:
  assumes "helpers_ok h" and "link_ok lk" and "transparent (lk_interceptor lk)" and "service_wf h srv"
    and "carries lk h srv env" and "client_ok c" and "keeps_data data lk"
  defines "m \<equiv> nat (cc_maxOperations (cl_config c))"
  shows "(Write lib env (Some c) ctx mode ops w = Some ((rs, err), w') \<longrightarrow>
      executed_as data (srv_Write srv) (write_request mode) (write_answer lib) remapWriteIndexes 0
        (chunks m ops) (data (w_st w)) (data (w_st w')) rs err)
    \<and> (Delete lib env (Some c) ctx mode addresses w = Some ((ds, err), w') \<longrightarrow>
      executed_as data (srv_Delete srv) (delete_request mode) (delete_answer lib) remapDeleteIndexes 0
        (chunks m (map delete_operation addresses)) (data (w_st w)) (data (w_st w')) ds err)"
  using Write_executes [OF assms(6,7), of lib h srv env ctx mode ops w rs err w']
    Delete_executes [OF assms(6,7), of lib h srv env ctx mode addresses w ds err w']
  by (simp add: m_def record_calls_same [OF carries_agrees [OF assms(1-5)] assms(6)])

theorem mutations_executed_once_witness:
  "\<exists>rs err w'. Write ex_lib (wire_env ex_lossy_link ex_helpers ex_service (ex_env 0)) (Some ex_client) () CompletionWaitUntilApplied
       ex_puts ex_world = Some ((rs, Some err), w')
     \<and> length rs = 2 \<and> w_st w' = 3
     \<and> executed_as id (srv_Write ex_service) (write_request CompletionWaitUntilApplied) (write_answer ex_lib) remapWriteIndexes 0
         (chunks 2 ex_puts) 0 3 rs (Some err)"
proof -
  let ?env = "wire_env ex_lossy_link ex_helpers ex_service (ex_env 0)"
  note conn = ex_helpers_ok(1) ex_lossy_link_ok(1,2) ex_service_wf wire_env_carries
  have "Write ex_lib ?env (Some ex_client) () CompletionWaitUntilApplied ex_puts ex_world
      = Write ex_lib (direct_env ex_lossy_link ex_helpers ex_service (ex_env 0)) (Some ex_client) () CompletionWaitUntilApplied
          ex_puts ex_world"
    using record_calls_same(2) [OF carries_agrees [OF conn] ex_client_ok, where lib = ex_lib] by (simp add: direct_wire_env)
  also have "\<dots> = Write_loop ex_lib (direct_env ex_lossy_link ex_helpers ex_service (ex_env 0)) () (cl_config ex_client) ()
          CompletionWaitUntilApplied ex_puts 0 [] ex_world"
    by (simp add: Write_def ex_run_defs)
  finally obtain rs err w' where run: "Write ex_lib ?env (Some ex_client) () CompletionWaitUntilApplied ex_puts ex_world
      = Some ((rs, Some err), w')" and "length rs = 2" "w_st w' = 3"
    using ex_lossy_loop by auto
  with mutations_executed_once [OF conn ex_client_ok ex_lossy_link_ok(3), THEN conjunct1, rule_format, OF run]
  show ?thesis by (auto simp: ex_world_def ex_client_config)
qed

end
